(* ===== verification/Prelude.thy ===== *)
theory Prelude
  imports Main "HOL-Library.Word"
begin

text \<open>
  What every component of the development shares: the machine types of the Go code, the
  outcome of a Go call (a value, an error, a run-time panic), error values with the
  \<open>errors.Is\<close> test, and the generic rules on transition systems (reachability,
  invariants, simulation) that the stateful components instantiate.
\<close>

section \<open>Machine types\<close>

type_synonym byte = "8 word"
type_synonym bytes = "byte list"
type_synonym i64 = "64 word"
type_synonym u64 = "64 word"

text \<open>
  Go's \<open>int64\<close> and \<open>uint64\<close> are the same 64 bits; a conversion between them keeps the
  bits, so both are \<open>64 word\<close> and the reading is chosen by \<open>sint\<close> or \<open>uint\<close>. A byte
  slice that may be \<open>nil\<close> is a \<open>bytes option\<close>: \<open>None\<close> is \<open>nil\<close>.
\<close>

definition bval :: "bytes option \<Rightarrow> bytes" where
  "bval b = (case b of None \<Rightarrow> [] | Some xs \<Rightarrow> xs)"

lemma bval_simps [simp]: "bval None = []" "bval (Some xs) = xs"
  by (simp_all add: bval_def)

lemma unat_u64_Suc: "Suc (unat x) < 2 ^ 64 \<Longrightarrow> unat ((x :: u64) + 1) = Suc (unat x)"
  by (simp add: unat_word_ariths)

section \<open>Errors and outcomes\<close>

named_theorems outcome_simps "equations that run an outcome"

text \<open>
  The sentinel errors of the repository (package-level \<open>errors.New\<close> values). They are
  compared by identity, so each is a constructor.
\<close>

datatype sentinel =
    ErrAlreadySignedBid
  | ErrMissingHashSignature
  | ErrInvalidSignature
  | ErrInvalidHash
  | ErrAlreadySignedPreConfirmation
  | ErrInvalidBidderTypeForBid
  | ErrPeerNotFound
  | ErrNoAddresses
  | ErrSignatureVerificationFailed
  | ErrObservedAddressMismatch
  | ErrInsufficientStake
  | ErrTxnCancelled
  | ErrMonitorClosed
  | ErrNotFound
  | ErrCtxDone

datatype grpc_code = InvalidArgument | FailedPrecondition | Internal

text \<open>
  An error value: a sentinel, a message made by \<open>errors.New\<close> or \<open>fmt.Errorf\<close>
  (\<open>Err_Msg\<close>), an error made by code outside the repository (\<open>Err_Lib\<close>), a wrapped
  error (\<open>%w\<close>), a join, a gRPC status the code makes, or the error of a status that a
  peer sent (\<open>Err_Rpc\<close>), which keeps the code and the text it came with. A message keeps
  the text that tells the errors of the code apart, not its formatted arguments.
\<close>

datatype go_error =
    Err_Sentinel sentinel
  | Err_Msg string
  | Err_Lib string
  | Err_Wrap string go_error
  | Err_Join "go_error list"
  | Err_Status grpc_code string
  | Err_Rpc nat string

fun errors_is :: "go_error \<Rightarrow> sentinel \<Rightarrow> bool" where
  "errors_is (Err_Sentinel s) t = (s = t)"
| "errors_is (Err_Wrap _ e) t = errors_is e t"
| "errors_is (Err_Join es) t = list_ex (\<lambda>e. errors_is e t) es"
| "errors_is (Err_Msg _) t = False"
| "errors_is (Err_Lib _) t = False"
| "errors_is (Err_Status _ _) t = False"
| "errors_is (Err_Rpc _ _) t = False"

datatype 'a outcome = Ok 'a | Fail go_error | Panic

definition obind :: "'a outcome \<Rightarrow> ('a \<Rightarrow> 'b outcome) \<Rightarrow> 'b outcome" where
  "obind m f = (case m of Ok x \<Rightarrow> f x | Fail e \<Rightarrow> Fail e | Panic \<Rightarrow> Panic)"

lemma obind_simps [simp, outcome_simps]:
  "obind (Ok x) f = f x" "obind (Fail e) f = Fail e" "obind Panic f = Panic"
  by (simp_all add: obind_def)

lemma obind_eq_Ok [simp]: "obind m f = Ok y \<longleftrightarrow> (\<exists>x. m = Ok x \<and> f x = Ok y)"
  by (cases m) simp_all

lemma obind_eq_Panic: "obind m f = Panic \<longleftrightarrow> m = Panic \<or> (\<exists>x. m = Ok x \<and> f x = Panic)"
  by (cases m) simp_all

lemma obind_eq_Fail:
  "obind m f = Fail e \<longleftrightarrow> m = Fail e \<or> (\<exists>x. m = Ok x \<and> f x = Fail e)"
  by (cases m) simp_all

lemma obind_assoc: "obind (obind m f) g = obind m (\<lambda>x. obind (f x) g)"
  by (cases m) simp_all

text \<open>A call of code outside the repository returns a value or an error, never a panic.\<close>

definition of_sum :: "go_error + 'a \<Rightarrow> 'a outcome" where
  "of_sum r = (case r of Inl e \<Rightarrow> Fail e | Inr x \<Rightarrow> Ok x)"

lemma of_sum_simps [simp, outcome_simps]: "of_sum (Inl e) = Fail e" "of_sum (Inr x) = Ok x"
  by (simp_all add: of_sum_def)

lemma of_sum_iff [simp]:
  "of_sum r = Ok x \<longleftrightarrow> r = Inr x" "of_sum r = Fail e \<longleftrightarrow> r = Inl e" "of_sum r \<noteq> Panic"
  by (cases r; simp)+

fun ok :: "'a outcome \<Rightarrow> bool" where
  "ok (Ok _) = True"
| "ok (Fail _) = False"
| "ok Panic = False"

lemma ok_iff: "ok m \<longleftrightarrow> (\<exists>x. m = Ok x)"
  by (cases m) simp_all

section \<open>Stateful calls\<close>

text \<open>
  A call that reads and changes a state \<open>'w\<close> returns its outcome and the new state; the
  state keeps the changes made before an error.
\<close>

type_synonym ('w, 'a) act = "'w \<Rightarrow> 'a outcome \<times> 'w"

definition aret :: "'a \<Rightarrow> ('w, 'a) act" where
  "aret x = (\<lambda>w. (Ok x, w))"

definition alift :: "'a outcome \<Rightarrow> ('w, 'a) act" where
  "alift m = (\<lambda>w. (m, w))"

definition abind :: "('w, 'a) act \<Rightarrow> ('a \<Rightarrow> ('w, 'b) act) \<Rightarrow> ('w, 'b) act" where
  "abind m f = (\<lambda>w. case m w of
      (Ok x, w') \<Rightarrow> f x w'
    | (Fail e, w') \<Rightarrow> (Fail e, w')
    | (Panic, w') \<Rightarrow> (Panic, w'))"

text \<open>\<open>awrap g m\<close> runs \<open>m\<close> and rewrites its error with \<open>g\<close>.\<close>

definition awrap :: "(go_error \<Rightarrow> go_error) \<Rightarrow> ('w, 'a) act \<Rightarrow> ('w, 'a) act" where
  "awrap g m = (\<lambda>w. case m w of
      (Ok x, w') \<Rightarrow> (Ok x, w') | (Fail e, w') \<Rightarrow> (Fail (g e), w') | (Panic, w') \<Rightarrow> (Panic, w'))"

lemma aret_run [simp, outcome_simps]: "aret x w = (Ok x, w)"
  by (simp add: aret_def)

lemma alift_run [simp, outcome_simps]: "alift m w = (m, w)"
  by (simp add: alift_def)

lemma abind_Ok: "m w = (Ok x, w') \<Longrightarrow> abind m f w = f x w'"
  and abind_Fail: "m w = (Fail e, w') \<Longrightarrow> abind m f w = (Fail e, w')"
  and abind_Panic: "m w = (Panic, w') \<Longrightarrow> abind m f w = (Panic, w')"
  by (simp_all add: abind_def)

lemma awrap_Ok: "m w = (Ok x, w') \<Longrightarrow> awrap g m w = (Ok x, w')"
  and awrap_Fail: "m w = (Fail e, w') \<Longrightarrow> awrap g m w = (Fail (g e), w')"
  by (simp_all add: awrap_def)

lemma abind_assoc: "abind (abind m f) g = abind m (\<lambda>x. abind (f x) g)"
  by (auto simp: abind_def fun_eq_iff split: prod.splits outcome.splits)

lemma abind_eq_Ok:
  "abind m f w = (Ok y, w'') \<longleftrightarrow> (\<exists>x w'. m w = (Ok x, w') \<and> f x w' = (Ok y, w''))"
  by (auto simp: abind_def split: prod.splits outcome.splits)

lemma awrap_eq_Ok [simp]: "awrap g m w = (Ok x, w') \<longleftrightarrow> m w = (Ok x, w')"
  by (auto simp: awrap_def split: prod.splits outcome.splits)

lemma abind_alift_Ok [simp, outcome_simps]: "abind (alift (Ok x)) f = f x"
  by (simp add: abind_def alift_def fun_eq_iff)

section \<open>Handlers with a trace of their calls\<close>

text \<open>
  \<open>emit es w m k\<close> runs the call \<open>m\<close>, which is recorded as \<open>es\<close>, and goes on with \<open>k\<close> on
  its value; an error or a panic ends the handler, wrapped by \<open>w\<close>.
\<close>

definition emit ::
  "'e list \<Rightarrow> (go_error \<Rightarrow> go_error) \<Rightarrow> 'a outcome \<Rightarrow> ('a \<Rightarrow> 'b outcome \<times> 'e list) \<Rightarrow>
     'b outcome \<times> 'e list" where
  "emit es w m k =
     (case m of
        Ok x \<Rightarrow> (case k x of (r, es') \<Rightarrow> (r, es @ es'))
      | Fail e \<Rightarrow> (Fail (w e), es)
      | Panic \<Rightarrow> (Panic, es))"

lemma emit_simps [simp, outcome_simps]:
  "emit es w (Fail e) k = (Fail (w e), es)" "emit es w Panic k = (Panic, es)"
  "emit es w (Ok x) k = (fst (k x), es @ snd (k x))"
  by (simp_all add: emit_def split: prod.splits)

lemma emit_cases:
  obtains (Ok) x where "m = Ok x" "emit es w m k = (fst (k x), es @ snd (k x))"
  | (Fail) e where "m = Fail e" "emit es w m k = (Fail (w e), es)"
  | (Panic) "m = Panic" "emit es w m k = (Panic, es)"
  by (cases m) simp_all

lemma snd_emit:
  "snd (emit es w m k) = es @ (case m of Ok x \<Rightarrow> snd (k x) | _ \<Rightarrow> [])"
  by (cases m) simp_all

lemma fst_emit:
  "fst (emit es w m k) =
     (case m of Ok x \<Rightarrow> fst (k x) | Fail e \<Rightarrow> Fail (w e) | Panic \<Rightarrow> Panic)"
  by (cases m) simp_all

lemma in_snd_emit:
  "e \<in> set (snd (emit es w m k)) \<longleftrightarrow> e \<in> set es \<or> (\<exists>x. m = Ok x \<and> e \<in> set (snd (k x)))"
  by (cases m) simp_all

lemmas emit_sel = snd_emit fst_emit

section \<open>Channels\<close>

text \<open>
  A buffered channel. Sending on a closed channel panics; sending on a full one blocks;
  closing a closed one panics.
\<close>

record 'a chan =
  ch_buf :: "'a list"
  ch_closed :: bool

definition new_chan :: "'a chan" where
  "new_chan = \<lparr> ch_buf = [], ch_closed = False \<rparr>"

datatype 'a send_result = Sent 'a | SendPanic | SendBlock

definition chan_send :: "nat \<Rightarrow> 'a chan \<Rightarrow> 'a \<Rightarrow> 'a chan send_result" where
  "chan_send capacity c x =
     (if ch_closed c then SendPanic
      else if length (ch_buf c) < capacity then Sent (c\<lparr> ch_buf := ch_buf c @ [x] \<rparr>)
      else SendBlock)"

definition chan_close :: "'a chan \<Rightarrow> 'a chan outcome" where
  "chan_close c = (if ch_closed c then Panic else Ok (c\<lparr> ch_closed := True \<rparr>))"

lemma new_chan_simps [simp]: "ch_buf new_chan = []" "ch_closed new_chan = False"
  by (simp_all add: new_chan_def)

section \<open>Transition systems\<close>

text \<open>
  A stateful component with goroutines is a set of initial states and a labelled step
  relation; a state is reachable if some finite run leads to it. The two locales are the
  proof rules: an inductive invariant holds in every reachable state, and a simulation
  carries reachable states to reachable states of the specification.
\<close>

inductive reach :: "('s \<Rightarrow> bool) \<Rightarrow> ('s \<Rightarrow> 'l \<Rightarrow> 's \<Rightarrow> bool) \<Rightarrow> 's \<Rightarrow> bool"
  for init step where
  reach_init: "init s \<Longrightarrow> reach init step s"
| reach_step: "reach init step s \<Longrightarrow> step s l s' \<Longrightarrow> reach init step s'"

inductive steps :: "('s \<Rightarrow> 'l \<Rightarrow> 's \<Rightarrow> bool) \<Rightarrow> 's \<Rightarrow> 'l list \<Rightarrow> 's \<Rightarrow> bool"
  for step where
  steps_Nil: "steps step s [] s"
| steps_Cons: "step s l s' \<Longrightarrow> steps step s' ls s'' \<Longrightarrow> steps step s (l # ls) s''"

inductive_simps steps_Nil_iff [simp]: "steps step s [] t"
inductive_simps steps_Cons_iff: "steps step s (l # ls) t"

lemma reach_steps: "steps step s ls t \<Longrightarrow> reach init step s \<Longrightarrow> reach init step t"
  by (induction rule: steps.induct) (auto intro: reach_step)

lemma reach_mono:
  "reach init step s \<Longrightarrow> (\<And>s. init s \<Longrightarrow> init' s) \<Longrightarrow> reach init' step s"
  by (induction rule: reach.induct) (auto intro: reach_init reach_step)

locale invariant_system =
  fixes init :: "'s \<Rightarrow> bool"
    and step :: "'s \<Rightarrow> 'l \<Rightarrow> 's \<Rightarrow> bool"
    and inv :: "'s \<Rightarrow> bool"
  assumes inv_start: "init s \<Longrightarrow> inv s"
    and inv_next: "inv s \<Longrightarrow> step s l s' \<Longrightarrow> inv s'"
begin

lemma reach_inv: "reach init step s \<Longrightarrow> inv s"
  by (induction rule: reach.induct) (auto intro: inv_start inv_next)

lemma steps_inv: "steps step s ls t \<Longrightarrow> inv s \<Longrightarrow> inv t"
  by (induction rule: steps.induct) (auto intro: inv_next)

end

text \<open>
  A system whose every step lowers a rank has no infinite run: the rank bounds the length of
  a run, and every run can be continued to a state from which no step leads on.
\<close>

definition stuck :: "('s \<Rightarrow> 'l \<Rightarrow> 's \<Rightarrow> bool) \<Rightarrow> 's \<Rightarrow> bool" where
  "stuck step s \<longleftrightarrow> (\<forall>l s'. \<not> step s l s')"

locale ranked_system =
  fixes step :: "'s \<Rightarrow> 'l \<Rightarrow> 's \<Rightarrow> bool"
    and rank :: "'s \<Rightarrow> nat"
  assumes rank_next: "step s l s' \<Longrightarrow> rank s' < rank s"
begin

lemma run_bounded: "steps step s ls t \<Longrightarrow> length ls + rank t \<le> rank s"
  by (induction rule: steps.induct) (auto dest: rank_next)

lemma run_completes: "\<exists>ls t. steps step s ls t \<and> stuck step t"
proof (induction "rank s" arbitrary: s rule: less_induct)
  case less
  show ?case
  proof (cases "stuck step s")
    case True
    then show ?thesis by (auto intro: steps_Nil)
  next
    case False
    then obtain l s' where "step s l s'" by (auto simp: stuck_def)
    with less [of s'] show ?thesis by (blast intro: steps_Cons dest: rank_next)
  qed
qed

end

locale simulation_system =
  fixes cinit :: "'s \<Rightarrow> bool"
    and cstep :: "'s \<Rightarrow> 'l \<Rightarrow> 's \<Rightarrow> bool"
    and ainit :: "'t \<Rightarrow> bool"
    and astep :: "'t \<Rightarrow> 'l \<Rightarrow> 't \<Rightarrow> bool"
    and abs :: "'s \<Rightarrow> 't"
    and inv :: "'s \<Rightarrow> bool"
  assumes sim_inv_start: "cinit s \<Longrightarrow> inv s"
    and sim_inv_next: "inv s \<Longrightarrow> cstep s l s' \<Longrightarrow> inv s'"
    and sim_start: "cinit s \<Longrightarrow> ainit (abs s)"
    and sim_next: "inv s \<Longrightarrow> cstep s l s' \<Longrightarrow> astep (abs s) l (abs s') \<or> abs s' = abs s"
begin

sublocale conc: invariant_system cinit cstep inv
  by unfold_locales (auto intro: sim_inv_start sim_inv_next)

lemma sim_reach: "reach cinit cstep s \<Longrightarrow> reach ainit astep (abs s)"
proof (induction rule: reach.induct)
  case (reach_init s)
  then show ?case by (auto intro: reach.reach_init sim_start)
next
  case (reach_step s l s')
  then have "inv s" by (auto intro: conc.reach_inv)
  with reach_step show ?case
    using sim_next [of s l s'] by (auto intro: reach.reach_step)
qed

end

section \<open>Maps and lists\<close>

text \<open>
  Go visits a map's entries in no particular order. An operation that ranges over a map
  takes the visiting order as an argument: a list that enumerates the domain.
\<close>

definition enumerates :: "'a list \<Rightarrow> 'a set \<Rightarrow> bool" where
  "enumerates xs A \<longleftrightarrow> distinct xs \<and> set xs = A"

lemma enumeratesI [intro]: "distinct xs \<Longrightarrow> set xs = A \<Longrightarrow> enumerates xs A"
  by (simp add: enumerates_def)

lemma enumeratesD: "enumerates xs A \<Longrightarrow> distinct xs" "enumerates xs A \<Longrightarrow> set xs = A"
  by (simp_all add: enumerates_def)

lemma enumerates_length: "enumerates xs A \<Longrightarrow> length xs = card A"
  by (auto simp: enumerates_def distinct_card)

lemma length_remove1_mem: "x \<in> set xs \<Longrightarrow> Suc (length (remove1 x xs)) = length xs"
  by (induction xs) auto

end
