(* ===== verification/Go_Std.thy ===== *)
theory Go_Std
  imports Prelude
begin

text \<open>
  The parts of Go's standard library the repository computes with: \<open>strings.Split\<close> and
  \<open>strings.Join\<close>, \<open>big.Int\<close> parsing and printing, \<open>big.Int.Bytes\<close>,
  \<open>hex.EncodeToString\<close>, and the bytes of a string. Strings are lists of bytes
  (\<open>char list\<close>), as they are in Go.
\<close>

section \<open>strings.Split and strings.Join with a one-character separator\<close>

fun split_on :: "char \<Rightarrow> string \<Rightarrow> string list" where
  "split_on c [] = [[]]"
| "split_on c (x # xs) =
     (if x = c then [] # split_on c xs
      else (case split_on c xs of [] \<Rightarrow> [[x]] | w # ws \<Rightarrow> (x # w) # ws))"

fun join_with :: "string \<Rightarrow> string list \<Rightarrow> string" where
  "join_with sep [] = []"
| "join_with sep [w] = w"
| "join_with sep (w # ws) = w @ sep @ join_with sep ws"

lemma split_on_nonempty [simp]: "split_on c s \<noteq> []"
  by (induction s) (auto split: list.splits)

lemma split_on_no_sep: "w \<in> set (split_on c s) \<Longrightarrow> c \<notin> set w"
proof (induction s arbitrary: w)
  case (Cons x xs)
  then show ?case by (cases "split_on c xs") (auto split: if_splits)
qed simp

lemma split_on_whole: "c \<notin> set w \<Longrightarrow> split_on c w = [w]"
  by (induction w) auto

lemma split_on_append: "c \<notin> set w \<Longrightarrow> split_on c (w @ c # s) = w # split_on c s"
  by (induction w) auto

lemma split_join:
  "ws \<noteq> [] \<Longrightarrow> (\<And>w. w \<in> set ws \<Longrightarrow> c \<notin> set w) \<Longrightarrow> split_on c (join_with [c] ws) = ws"
proof (induction "[c]" ws rule: join_with.induct)
  case (2 w)
  then show ?case by (simp add: split_on_whole)
next
  case (3 w v vs)
  then show ?case by (simp add: split_on_append)
qed simp

lemma join_cons: "ws \<noteq> [] \<Longrightarrow> join_with sep (w # ws) = w @ sep @ join_with sep ws"
  by (cases ws) simp_all

lemma join_split: "join_with [c] (split_on c s) = s"
proof (induction s)
  case (Cons x xs)
  show ?case
  proof (cases "split_on c xs")
    case Nil
    then show ?thesis by simp
  next
    case (Cons w ws)
    with Cons.IH show ?thesis by (cases ws) (auto simp: join_cons)
  qed
qed simp

section \<open>Decimal integers: big.Int.SetString(s, 10) and big.Int.String\<close>

definition digit_val :: "char \<Rightarrow> nat option" where
  "digit_val c =
     (let n = (of_char c :: nat) in if 48 \<le> n \<and> n \<le> 57 then Some (n - 48) else None)"

definition digit_char :: "nat \<Rightarrow> char" where
  "digit_char d = char_of (d + 48)"

lemma digit_val_char [simp]: "d < 10 \<Longrightarrow> digit_val (digit_char d) = Some d"
  by (simp add: digit_val_def digit_char_def)

fun scan_digits :: "nat \<Rightarrow> string \<Rightarrow> nat option" where
  "scan_digits acc [] = Some acc"
| "scan_digits acc (c # cs) =
     (case digit_val c of None \<Rightarrow> None | Some d \<Rightarrow> scan_digits (10 * acc + d) cs)"

definition scan_nat :: "string \<Rightarrow> nat option" where
  "scan_nat s = (if s = [] then None else scan_digits 0 s)"

text \<open>
  \<open>SetString\<close> with base 10: one optional sign, at least one digit, nothing after the
  digits (no underscore and no prefix in base 10). \<open>None\<close> is Go's \<open>ok = false\<close>.
\<close>

definition set_string10 :: "string \<Rightarrow> int option" where
  "set_string10 s =
     (case s of
        [] \<Rightarrow> None
      | c # cs \<Rightarrow>
          if c = CHR ''-'' then map_option (\<lambda>n. - int n) (scan_nat cs)
          else if c = CHR ''+'' then map_option int (scan_nat cs)
          else map_option int (scan_nat s))"

fun show_nat :: "nat \<Rightarrow> string" where
  "show_nat n =
     (if n < 10 then [digit_char n] else show_nat (n div 10) @ [digit_char (n mod 10)])"

declare show_nat.simps [simp del]

definition show_int :: "int \<Rightarrow> string" where
  "show_int i = (if i < 0 then CHR ''-'' # show_nat (nat (- i)) else show_nat (nat i))"

lemma scan_digits_append:
  "scan_digits acc (xs @ ys) =
     (case scan_digits acc xs of None \<Rightarrow> None | Some a \<Rightarrow> scan_digits a ys)"
  by (induction xs arbitrary: acc) (auto split: option.splits)

lemma show_nat_nonempty [simp]: "show_nat n \<noteq> []"
  by (subst show_nat.simps) simp

lemma scan_digits_show: "scan_digits 0 (show_nat n) = Some n"
proof (induction n rule: show_nat.induct)
  case (1 n)
  show ?case
  proof (cases "n < 10")
    case True
    then show ?thesis by (subst show_nat.simps) simp
  next
    case False
    then show ?thesis
      using "1.IH" by (subst show_nat.simps) (simp add: scan_digits_append)
  qed
qed

lemma show_nat_digits: "c \<in> set (show_nat n) \<Longrightarrow> digit_val c \<noteq> None"
proof (induction n rule: show_nat.induct)
  case (1 n)
  then show ?case
    by (cases "n < 10") (auto simp: show_nat.simps [of n])
qed

lemma sign_not_digit: "digit_val CHR ''-'' = None" "digit_val CHR ''+'' = None"
  by (simp_all add: digit_val_def)

lemma set_string10_show: "set_string10 (show_int i) = Some i"
proof -
  have nat: "set_string10 (show_nat n) = Some (int n)" for n
  proof -
    obtain c cs where s: "show_nat n = c # cs" by (cases "show_nat n") auto
    then have "digit_val c \<noteq> None" using show_nat_digits [of c n] by simp
    then have "c \<noteq> CHR ''-''" "c \<noteq> CHR ''+''" using sign_not_digit by auto
    then show ?thesis
      using scan_digits_show [of n] s by (simp add: set_string10_def scan_nat_def)
  qed
  have "set_string10 (CHR ''-'' # show_nat n) = Some (- int n)" for n
    by (simp add: set_string10_def scan_nat_def scan_digits_show)
  with nat show ?thesis by (simp add: show_int_def)
qed

section \<open>Bytes of strings, hexadecimal text, big-endian integers\<close>

definition string_bytes :: "string \<Rightarrow> bytes" where
  "string_bytes s = map (\<lambda>c. of_nat (of_char c)) s"

lemma char_code_less: "(of_char c :: nat) < 256"
  by (cases c) (simp add: of_char_def split: if_splits; simp add: of_bool_def)

lemma char_byte_inj: "(of_nat (of_char c) :: byte) = of_nat (of_char d) \<longleftrightarrow> c = d"
proof
  assume "(of_nat (of_char c) :: byte) = of_nat (of_char d)"
  then have "unat (of_nat (of_char c) :: byte) = unat (of_nat (of_char d) :: byte)" by simp
  then have "(of_char c :: nat) = of_char d"
    using char_code_less [of c] char_code_less [of d] by (simp add: unat_of_nat)
  then show "c = d" by simp
qed simp

lemma string_bytes_inj: "string_bytes s = string_bytes t \<longleftrightarrow> s = t"
  unfolding string_bytes_def
  by (rule inj_eq) (simp add: inj_mapI inj_def char_byte_inj)

lemma length_string_bytes [simp]: "length (string_bytes s) = length s"
  by (simp add: string_bytes_def)

definition hex_digit :: "nat \<Rightarrow> char" where
  "hex_digit d = ''0123456789abcdef'' ! d"

definition hex_byte :: "byte \<Rightarrow> string" where
  "hex_byte b = [hex_digit (unat b div 16), hex_digit (unat b mod 16)]"

definition hex_encode :: "bytes \<Rightarrow> string" where
  "hex_encode bs = concat (map hex_byte bs)"

lemma hex_digit_inj: "d < 16 \<Longrightarrow> e < 16 \<Longrightarrow> hex_digit d = hex_digit e \<Longrightarrow> d = e"
proof -
  have "inj_on hex_digit (set [0..<16])" unfolding inj_on_def by code_simp
  then show "d < 16 \<Longrightarrow> e < 16 \<Longrightarrow> hex_digit d = hex_digit e \<Longrightarrow> d = e"
    by (auto simp: inj_on_def)
qed

lemma hex_byte_inj: "hex_byte b = hex_byte c \<longleftrightarrow> b = c"
proof
  assume eq: "hex_byte b = hex_byte c"
  have lt: "unat x div 16 < 16" for x :: byte using unsigned_less [of x, where ?'a = nat] by (simp add: less_mult_imp_div_less)
  from eq have "unat b div 16 = unat c div 16" "unat b mod 16 = unat c mod 16"
    by (auto simp: hex_byte_def intro: hex_digit_inj lt)
  then have "unat b = unat c" by (metis div_mult_mod_eq)
  then show "b = c" by (simp add: word_unat_eq_iff)
qed simp

lemma hex_encode_inj: "hex_encode bs = hex_encode cs \<longleftrightarrow> bs = cs"
proof
  show "hex_encode bs = hex_encode cs \<Longrightarrow> bs = cs"
  proof (induction bs arbitrary: cs)
    case Nil
    then show ?case by (cases cs) (simp_all add: hex_encode_def hex_byte_def)
  next
    case (Cons b bs)
    then obtain c cs' where cs: "cs = c # cs'"
      by (cases cs) (simp_all add: hex_encode_def hex_byte_def)
    have "length (hex_byte x) = length (hex_byte y)" for x y by (simp add: hex_byte_def)
    with Cons.prems cs have "hex_byte b = hex_byte c" "hex_encode bs = hex_encode cs'"
      by (simp_all add: hex_encode_def)
    with Cons.IH cs show ?case by (simp add: hex_byte_inj)
  qed
qed simp

text \<open>\<open>be_bytes\<close> is \<open>big.Int.Bytes\<close>: big-endian, no leading zero byte, empty for 0.\<close>

fun be_bytes :: "nat \<Rightarrow> bytes" where
  "be_bytes n = (if n = 0 then [] else be_bytes (n div 256) @ [of_nat (n mod 256)])"

declare be_bytes.simps [simp del]

fun be_val :: "bytes \<Rightarrow> nat" where
  "be_val [] = 0"
| "be_val (b # bs) = unat b * 256 ^ length bs + be_val bs"

end
