(* ===== verification/P2p_Types.thy ===== *)
theory P2p_Types
  imports Go_Std
begin

text \<open>
  The types of \<open>pkg/p2p/p2p.go\<close> (peer types, peers, peer records, stream descriptors) and
  the messages of \<open>messages/\<close> that the protocols exchange.
\<close>

section \<open>Addresses and peer types\<close>

text \<open>
  \<open>common.Address\<close> is an array of 20 bytes; \<open>addr_bytes\<close> is its \<open>Bytes()\<close>. The zero
  address is what the handlers return beside an error.
\<close>

datatype address = Address (addr_bytes: bytes)

text \<open>
  \<open>PeerType\<close> is an \<open>int\<close> with three named values; \<open>FromString\<close> makes \<open>-1\<close> of any
  other text, the only further value the repository produces.
\<close>

datatype peer_type =
    PeerTypeBootnode
  | PeerTypeProvider
  | PeerTypeBidder
  | PeerTypeInvalid

fun peer_type_String :: "peer_type \<Rightarrow> string" where
  "peer_type_String PeerTypeBootnode = ''bootnode''"
| "peer_type_String PeerTypeProvider = ''provider''"
| "peer_type_String PeerTypeBidder = ''bidder''"
| "peer_type_String PeerTypeInvalid = ''unknown''"

definition FromString :: "string \<Rightarrow> peer_type" where
  "FromString str =
     (if str = ''bootnode'' then PeerTypeBootnode
      else if str = ''provider'' then PeerTypeProvider
      else if str = ''bidder'' then PeerTypeBidder
      else PeerTypeInvalid)"

lemma FromString_String: "pt \<noteq> PeerTypeInvalid \<Longrightarrow> FromString (peer_type_String pt) = pt"
  by (cases pt) (simp_all add: FromString_def)

lemma String_FromString:
  "FromString s \<noteq> PeerTypeInvalid \<Longrightarrow> peer_type_String (FromString s) = s"
  by (simp add: FromString_def split: if_splits)

lemma FromString_eq_iff:
  "FromString s = PeerTypeProvider \<longleftrightarrow> s = ''provider''"
  "FromString s = PeerTypeBidder \<longleftrightarrow> s = ''bidder''"
  "FromString s = PeerTypeBootnode \<longleftrightarrow> s = ''bootnode''"
  by (auto simp: FromString_def)

section \<open>Peers\<close>

record peer =
  EthAddress :: address
  Type :: peer_type

record peer_info =
  pi_EthAddress :: address
  pi_Underlay :: bytes

section \<open>Messages\<close>

text \<open>
  The generated message structs. A \<open>bytes\<close> field is \<open>nil\<close> when it is absent from the
  wire; a message field is a pointer that is \<open>nil\<close> when it is absent.
\<close>

record bid =
  TxHash :: string
  BidAmount :: string
  BlockNumber :: i64
  Digest :: "bytes option"
  Signature :: "bytes option"
  DecayStartTimestamp :: i64
  DecayEndTimestamp :: i64

record pre_confirmation =
  pc_Bid :: "bid option"
  pc_Digest :: "bytes option"
  pc_Signature :: "bytes option"
  pc_ProviderAddress :: "bytes option"

record handshake_req =
  req_PeerType :: string
  req_Token :: string
  req_Sig :: "bytes option"

record handshake_resp =
  resp_ObservedAddress :: "bytes option"
  resp_PeerType :: string

text \<open>
  \<open>BidResponse.Status\<close> is an open enumeration: a message may hold any number. Receiving
  from a closed channel of statuses gives the zero value \<open>STATUS_UNSPECIFIED\<close>.
\<close>

datatype bid_status =
    STATUS_UNSPECIFIED
  | STATUS_ACCEPTED
  | STATUS_REJECTED
  | STATUS_OTHER int

end
