(* ===== verification/Evm_Types.thy ===== *)
theory Evm_Types
  imports P2p_Types
begin

text \<open>
  The data of \<open>pkg/evmclient\<close>: transaction requests, transactions, receipts, and the
  interface \<open>evmclient.Interface\<close> that the contract clients use. The interface's calls
  act on a state \<open>'w\<close> (the client and the chain behind it).
\<close>

datatype hash = Hash bytes

record tx_request =
  tr_To :: "address option"
  tr_CallData :: bytes
  tr_GasPrice :: "int option"
  tr_GasLimit :: u64
  tr_GasFeeCap :: "int option"
  tr_Value :: "int option"

text \<open>A request with the zero values of the fields a caller leaves out.\<close>

definition empty_request :: tx_request where
  "empty_request =
     \<lparr> tr_To = None, tr_CallData = [], tr_GasPrice = None, tr_GasLimit = 0,
       tr_GasFeeCap = None, tr_Value = None \<rparr>"

record eth_tx =
  tx_Nonce :: u64
  tx_ChainID :: int
  tx_To :: "address option"
  tx_Value :: "int option"
  tx_Gas :: u64
  tx_GasFeeCap :: int
  tx_GasTipCap :: int
  tx_Data :: bytes

record signed_tx =
  st_Tx :: eth_tx
  st_Hash :: hash

record receipt =
  rc_Status :: u64

definition ReceiptStatusFailed :: u64 where
  "ReceiptStatusFailed = 0"

definition ReceiptStatusSuccessful :: u64 where
  "ReceiptStatusSuccessful = 1"

record 'w evm_interface =
  ei_Send :: "tx_request \<Rightarrow> ('w, hash) act"
  ei_WaitForReceipt :: "hash \<Rightarrow> ('w, receipt) act"
  ei_Call :: "tx_request \<Rightarrow> ('w, bytes) act"
  ei_CancelTx :: "hash \<Rightarrow> ('w, hash) act"

section \<open>Traces (evm.go)\<close>

record struct_log =
  sl_Pc :: u64
  sl_Op :: string
  sl_Gas :: u64
  sl_GasCost :: u64
  sl_Depth :: int
  sl_Error :: string
  sl_Stack :: "string list"
  sl_Memory :: "string list"
  sl_Storage :: "string \<rightharpoonup> string"

record transaction_trace =
  tt_Failed :: bool
  tt_Gas :: u64
  tt_ReturnValue :: string
  tt_StructLogs :: "struct_log list"

text \<open>
  \<open>TraceTransaction\<close> of the wrapped client; \<open>callContext\<close> is the RPC client's \<open>CallContext\<close>,
  with the method's name and arguments, decoding into a trace.
\<close>

definition TraceTransaction ::
  "(string \<Rightarrow> hash \<Rightarrow> go_error + transaction_trace) \<Rightarrow> hash \<Rightarrow> transaction_trace outcome" where
  "TraceTransaction callContext txHash = of_sum (callContext ''debug_traceTransaction'' txHash)"

end
