(* ===== verification/Eth_Lib.thy ===== *)
theory Eth_Lib
  imports P2p_Types
begin

text \<open>
  The cryptographic library the repository calls (\<open>go-ethereum/crypto\<close> and
  \<open>go-ethereum/common/math\<close>) is not part of the repository, so it is a parameter: a
  record of its functions. \<open>ecdsa_ok\<close> and \<open>u256_ok\<close> state the documented behaviour
  that the code relies on. The theory also holds the two thin layers over the library:
  \<open>pkg/signer/signer.go\<close> and the key signers of \<open>pkg/keysigner\<close>.
\<close>

section \<open>The library's functions\<close>

record ('key, 'pub) eth_lib =
  keccak256 :: "bytes \<Rightarrow> bytes"
  ec_sign :: "'key \<Rightarrow> bytes \<Rightarrow> go_error + bytes"
  public_key :: "'key \<Rightarrow> 'pub"
  sig_to_pub :: "bytes \<Rightarrow> bytes \<Rightarrow> go_error + 'pub"
  from_ecdsa_pub :: "'pub \<Rightarrow> bytes"
  verify_signature :: "bytes \<Rightarrow> bytes \<Rightarrow> bytes \<Rightarrow> bool"
  pubkey_to_address :: "'pub \<Rightarrow> address"
  u256_bytes :: "int \<Rightarrow> bytes"

text \<open>
  A signature is 65 bytes, the last one the recovery id (0 or 1); recovering the key of a
  signature gives the signer's key, which verifies its first 64 bytes. A hash has 32 bytes.
\<close>

definition keccak_ok :: "('key, 'pub) eth_lib \<Rightarrow> bool" where
  "keccak_ok C \<longleftrightarrow> (\<forall>x. length (keccak256 C x) = 32)"

definition is_signature :: "('key, 'pub) eth_lib \<Rightarrow> bytes \<Rightarrow> bytes \<Rightarrow> 'pub \<Rightarrow> bool" where
  "is_signature C h sig pub \<longleftrightarrow>
     length sig = 65 \<and> (sig ! 64 = 0 \<or> sig ! 64 = 1) \<and>
     sig_to_pub C h sig = Inr pub \<and>
     verify_signature C (from_ecdsa_pub C pub) h (take 64 sig)"

definition ecdsa_ok :: "('key, 'pub) eth_lib \<Rightarrow> bool" where
  "ecdsa_ok C \<longleftrightarrow> keccak_ok C \<and>
     (\<forall>key h. length h = 32 \<longrightarrow>
        (\<exists>sig. ec_sign C key h = Inr sig \<and> is_signature C h sig (public_key C key)))"

text \<open>\<open>math.U256Bytes\<close>: the 32-byte big-endian form of the integer modulo \<open>2^256\<close>.\<close>

definition u256_ok :: "('key, 'pub) eth_lib \<Rightarrow> bool" where
  "u256_ok C \<longleftrightarrow> (\<forall>i. length (u256_bytes C i) = 32) \<and>
     (\<forall>i j. u256_bytes C i = u256_bytes C j \<longleftrightarrow> i mod 2 ^ 256 = j mod 2 ^ 256)"

section \<open>pkg/signer/signer.go\<close>

definition Sign :: "('key, 'pub) eth_lib \<Rightarrow> 'key \<Rightarrow> bytes \<Rightarrow> bytes outcome" where
  "Sign C privateKey message =
     obind (of_sum (ec_sign C privateKey (keccak256 C message))) (\<lambda>signature. Ok signature)"

text \<open>
  The slice \<open>signature[:len(signature)-1]\<close> panics on an empty signature.
\<close>

definition Verify ::
  "('key, 'pub) eth_lib \<Rightarrow> bytes \<Rightarrow> bytes \<Rightarrow> (bool \<times> address) outcome" where
  "Verify C signature message =
     (let messageHash = keccak256 C message
      in obind (of_sum (sig_to_pub C messageHash signature)) (\<lambda>signaturePublicKey.
           let signerAddress = pubkey_to_address C signaturePublicKey
           in if signature = [] then Panic
              else Ok (verify_signature C (from_ecdsa_pub C signaturePublicKey)
                         messageHash (butlast signature),
                       signerAddress)))"

lemma butlast_take_64: "length sig = 65 \<Longrightarrow> butlast sig = take 64 sig"
  by (simp add: butlast_conv_take)

lemma Verify_Sign:
  assumes "ecdsa_ok C" and "Sign C key msg = Ok sig"
  shows "Verify C sig msg = Ok (True, pubkey_to_address C (public_key C key))"
proof -
  from assms obtain sig' where
    "ec_sign C key (keccak256 C msg) = Inr sig'"
    "is_signature C (keccak256 C msg) sig' (public_key C key)"
    unfolding ecdsa_ok_def keccak_ok_def by blast
  with assms(2) have "is_signature C (keccak256 C msg) sig (public_key C key)"
    by (simp add: Sign_def)
  then show ?thesis
    by (auto simp: Verify_def Let_def is_signature_def butlast_take_64)
qed

section \<open>pkg/keysigner: the KeySigner interface\<close>

record key_signer =
  SignHash :: "bytes \<Rightarrow> go_error + bytes"
  GetAddress :: address

definition PrivateKeySigner :: "('key, 'pub) eth_lib \<Rightarrow> 'key \<Rightarrow> key_signer" where
  "PrivateKeySigner C privKey =
     \<lparr> SignHash = (\<lambda>hash. ec_sign C privKey hash),
       GetAddress = pubkey_to_address C (public_key C privKey) \<rparr>"

text \<open>
  \<open>signs_as C ks a\<close>: the key signer returns proper signatures, all by keys of address
  \<open>a\<close>, which is the address it reports. It holds of a private key signer.
\<close>

definition signs_as :: "('key, 'pub) eth_lib \<Rightarrow> key_signer \<Rightarrow> address \<Rightarrow> bool" where
  "signs_as C ks a \<longleftrightarrow> keccak_ok C \<and> GetAddress ks = a \<and>
     (\<forall>h. length h = 32 \<longrightarrow>
        (\<exists>sig pub. SignHash ks h = Inr sig \<and> is_signature C h sig pub \<and>
                   pubkey_to_address C pub = a))"

lemma signs_as_PrivateKeySigner:
  "ecdsa_ok C \<Longrightarrow>
     signs_as C (PrivateKeySigner C key) (pubkey_to_address C (public_key C key))"
  by (fastforce simp: signs_as_def ecdsa_ok_def PrivateKeySigner_def)

lemma signs_as_sign:
  assumes "signs_as C ks a"
  obtains sig pub where "SignHash ks (keccak256 C x) = Inr sig"
    and "is_signature C (keccak256 C x) sig pub" and "pubkey_to_address C pub = a"
  using assms unfolding signs_as_def keccak_ok_def by blast

end
