(* ===== verification/Bid_Signer.thy ===== *)
theory Bid_Signer
  imports Eth_Lib
begin

text \<open>
  \<open>pkg/signer/preconfsigner/signer.go\<close>: the EIP-712 style hashes of bids and of
  preconfirmations, signing and verification. The lemmas show that verification accepts
  exactly what construction makes (for a key signer that signs as one address), that it
  binds the digest to the fields, and when it panics.
\<close>

section \<open>Hashing\<close>

definition domainSeparator :: "('key, 'pub) eth_lib \<Rightarrow> string \<Rightarrow> bytes" where
  "domainSeparator C name =
     (let domainTypeHash =
            keccak256 C (string_bytes ''EIP712Domain(string name,string version)'');
          nameHash = keccak256 C (string_bytes name);
          versionHash = keccak256 C (string_bytes ''1'')
      in keccak256 C (domainTypeHash @ nameHash @ versionHash))"

definition bid_type :: string where
  "bid_type = ''PreConfBid(string txnHash,uint64 bid,uint64 blockNumber,uint64 decayStartTimeStamp,uint64 decayEndTimeStamp)''"

definition commitment_type :: string where
  "commitment_type = ''PreConfCommitment(string txnHash,uint64 bid,uint64 blockNumber,uint64 decayStartTimeStamp,uint64 decayEndTimeStamp,string bidHash,string signature)''"

text \<open>
  The encoded message: the type hash, the hash of the transaction hashes' text, and the
  four integers as 32-byte words.
\<close>

definition encode_fields :: "('key, 'pub) eth_lib \<Rightarrow> string \<Rightarrow> int \<Rightarrow> bid \<Rightarrow> bytes" where
  "encode_fields C typ bidAmt b =
     keccak256 C (string_bytes typ) @ keccak256 C (string_bytes (TxHash b)) @
     u256_bytes C bidAmt @ u256_bytes C (sint (BlockNumber b)) @
     u256_bytes C (sint (DecayStartTimestamp b)) @ u256_bytes C (sint (DecayEndTimestamp b))"

definition final_hash :: "('key, 'pub) eth_lib \<Rightarrow> string \<Rightarrow> bytes \<Rightarrow> bytes" where
  "final_hash C name data =
     (let dataHash = keccak256 C data;
          rawData = [0x19, 0x01] @ domainSeparator C name @ dataHash
      in keccak256 C rawData)"

definition GetBidHash :: "('key, 'pub) eth_lib \<Rightarrow> bid \<Rightarrow> bytes outcome" where
  "GetBidHash C b =
     (case set_string10 (BidAmount b) of
        None \<Rightarrow> Fail (Err_Msg ''invalid bid amount'')
      | Some bidAmt \<Rightarrow> Ok (final_hash C ''PreConfBid'' (encode_fields C bid_type bidAmt b)))"

definition GetPreConfirmationHash ::
  "('key, 'pub) eth_lib \<Rightarrow> pre_confirmation \<Rightarrow> bytes outcome" where
  "GetPreConfirmationHash C c =
     (case pc_Bid c of
        None \<Rightarrow> Panic
      | Some b \<Rightarrow>
         (case set_string10 (BidAmount b) of
            None \<Rightarrow> Fail (Err_Msg ''invalid bid amount'')
          | Some bidAmt \<Rightarrow>
              let bidDigestHash =
                    keccak256 C (string_bytes (hex_encode (bval (Digest b))));
                  bidSigHash =
                    keccak256 C (string_bytes (hex_encode (bval (Signature b))));
                  data = encode_fields C commitment_type bidAmt b @ bidDigestHash @ bidSigHash
              in Ok (final_hash C ''PreConfCommitment'' data)))"

section \<open>Verification\<close>

text \<open>
  \<open>sig[64]\<close> panics on a slice of fewer than 65 bytes. The guard before it only compares
  the hashes.
\<close>

definition eipVerify ::
  "('key, 'pub) eth_lib \<Rightarrow> bytes \<Rightarrow> bytes \<Rightarrow> bytes \<Rightarrow> address outcome" where
  "eipVerify C payloadHash expectedhash signature =
     (if payloadHash \<noteq> expectedhash then Fail (Err_Sentinel ErrInvalidHash)
      else if length signature \<le> 64 then Panic
      else
        let sig = (if 27 \<le> signature ! 64 \<and> signature ! 64 \<le> 28
                   then signature[64 := signature ! 64 - 27] else signature)
        in obind (of_sum (sig_to_pub C payloadHash sig)) (\<lambda>pubkey.
             if \<not> verify_signature C (from_ecdsa_pub C pubkey) payloadHash (butlast sig)
             then Fail (Err_Sentinel ErrInvalidSignature)
             else Ok (pubkey_to_address C pubkey)))"

definition signer_VerifyBid ::
  "('key, 'pub) eth_lib \<Rightarrow> bid option \<Rightarrow> address outcome" where
  "signer_VerifyBid C pb =
     (case pb of
        None \<Rightarrow> Panic
      | Some b \<Rightarrow>
          if Digest b = None \<or> Signature b = None
          then Fail (Err_Sentinel ErrMissingHashSignature)
          else obind (GetBidHash C b) (\<lambda>bidHash.
                 eipVerify C bidHash (bval (Digest b)) (bval (Signature b))))"

definition signer_VerifyPreConfirmation ::
  "('key, 'pub) eth_lib \<Rightarrow> pre_confirmation \<Rightarrow> address outcome" where
  "signer_VerifyPreConfirmation C c =
     (if pc_Digest c = None \<or> pc_Signature c = None
      then Fail (Err_Sentinel ErrMissingHashSignature)
      else obind (signer_VerifyBid C (pc_Bid c)) (\<lambda>_.
           obind (GetPreConfirmationHash C c) (\<lambda>preConfirmationHash.
             eipVerify C preConfirmationHash (bval (pc_Digest c)) (bval (pc_Signature c)))))"

section \<open>Construction\<close>

text \<open>The recovery id 0 or 1 of a fresh signature becomes 27 or 28, as Solidity expects.\<close>

definition transform_v :: "bytes \<Rightarrow> bytes outcome" where
  "transform_v sig =
     (if length sig \<le> 64 then Panic
      else if sig ! 64 = 0 \<or> sig ! 64 = 1 then Ok (sig[64 := sig ! 64 + 27])
      else Ok sig)"

definition signer_ConstructSignedBid ::
  "('key, 'pub) eth_lib \<Rightarrow> key_signer \<Rightarrow> string \<Rightarrow> string \<Rightarrow> i64 \<Rightarrow> i64 \<Rightarrow> i64 \<Rightarrow> bid outcome" where
  "signer_ConstructSignedBid C ks txHash bidAmt blockNumber decayStart decayEnd =
     (if txHash = [] \<or> bidAmt = [] \<or> blockNumber = 0
      then Fail (Err_Msg ''missing required fields'')
      else
        let b = \<lparr> TxHash = txHash, BidAmount = bidAmt, BlockNumber = blockNumber,
                  Digest = None, Signature = None,
                  DecayStartTimestamp = decayStart, DecayEndTimestamp = decayEnd \<rparr>
        in obind (GetBidHash C b) (\<lambda>bidHash.
           obind (of_sum (SignHash ks bidHash)) (\<lambda>sig0.
           obind (transform_v sig0) (\<lambda>sig.
             Ok (b\<lparr> Digest := Some bidHash, Signature := Some sig \<rparr>)))))"

definition signer_ConstructPreConfirmation ::
  "('key, 'pub) eth_lib \<Rightarrow> key_signer \<Rightarrow> bid option \<Rightarrow> pre_confirmation outcome" where
  "signer_ConstructPreConfirmation C ks pb =
     obind (signer_VerifyBid C pb) (\<lambda>_.
       let pc = \<lparr> pc_Bid = pb, pc_Digest = None, pc_Signature = None,
                  pc_ProviderAddress = None \<rparr>
       in obind (GetPreConfirmationHash C pc) (\<lambda>preConfirmationHash.
          obind (of_sum (SignHash ks preConfirmationHash)) (\<lambda>sig0.
          obind (transform_v sig0) (\<lambda>sig.
            Ok (pc\<lparr> pc_Digest := Some preConfirmationHash, pc_Signature := Some sig \<rparr>)))))"

section \<open>The Signer interface\<close>

record signer =
  ConstructSignedBid :: "string \<Rightarrow> string \<Rightarrow> i64 \<Rightarrow> i64 \<Rightarrow> i64 \<Rightarrow> bid outcome"
  ConstructPreConfirmation :: "bid option \<Rightarrow> pre_confirmation outcome"
  VerifyBid :: "bid option \<Rightarrow> address outcome"
  VerifyPreConfirmation :: "pre_confirmation \<Rightarrow> address outcome"

definition NewSigner :: "('key, 'pub) eth_lib \<Rightarrow> key_signer \<Rightarrow> signer" where
  "NewSigner C ks =
     \<lparr> ConstructSignedBid = signer_ConstructSignedBid C ks,
       ConstructPreConfirmation = signer_ConstructPreConfirmation C ks,
       VerifyBid = signer_VerifyBid C,
       VerifyPreConfirmation = signer_VerifyPreConfirmation C \<rparr>"

section \<open>What is signed verifies\<close>

lemma transform_v_signature:
  assumes "is_signature C h sig pub"
  shows "transform_v sig = Ok (sig[64 := sig ! 64 + 27])"
  using assms by (auto simp: transform_v_def is_signature_def)

lemma eipVerify_transformed:
  assumes "is_signature C h sig pub"
  shows "eipVerify C h h (sig[64 := sig ! 64 + 27]) = Ok (pubkey_to_address C pub)"
proof -
  from assms have len: "length sig = 65" and v: "sig ! 64 = 0 \<or> sig ! 64 = 1"
    by (auto simp: is_signature_def)
  from v have "27 \<le> sig ! 64 + 27 \<and> sig ! 64 + 27 \<le> 28" by auto
  moreover from len v have "sig[64 := sig ! 64] = sig" by simp
  ultimately show ?thesis
    using assms len by (simp add: eipVerify_def is_signature_def butlast_take_64)
qed

lemma GetBidHash_unsigned [simp]:
  "GetBidHash C (b\<lparr> Digest := d, Signature := s \<rparr>) = GetBidHash C b"
  by (cases "set_string10 (BidAmount b)") (simp_all add: GetBidHash_def encode_fields_def)

lemma GetPreConfirmationHash_unsigned [simp]:
  "GetPreConfirmationHash C (c\<lparr> pc_Digest := d, pc_Signature := s \<rparr>) =
     GetPreConfirmationHash C c"
  by (simp add: GetPreConfirmationHash_def)

lemma GetBidHash_keccak: "GetBidHash C b = Ok h \<Longrightarrow> \<exists>x. h = keccak256 C x"
  by (auto simp: GetBidHash_def final_hash_def Let_def split: option.splits)

lemma GetPreConfirmationHash_keccak:
  "GetPreConfirmationHash C c = Ok h \<Longrightarrow> \<exists>x. h = keccak256 C x"
  by (auto simp: GetPreConfirmationHash_def final_hash_def Let_def split: option.splits)

lemma signed_payload:
  assumes "signs_as C ks a" and "h = keccak256 C x"
  obtains sig sig' where "SignHash ks h = Inr sig" and "transform_v sig = Ok sig'"
    and "eipVerify C h h sig' = Ok a"
  using assms signs_as_sign [OF assms(1), of x]
  by (metis transform_v_signature eipVerify_transformed)

lemma ConstructSignedBid_verifies:
  assumes "signs_as C ks a"
    and "txHash \<noteq> []" and "bn \<noteq> 0" and amt: "set_string10 bidAmt = Some n"
  obtains b where "signer_ConstructSignedBid C ks txHash bidAmt bn ds de = Ok b"
    and "signer_VerifyBid C (Some b) = Ok a"
    and "TxHash b = txHash" "BidAmount b = bidAmt" "BlockNumber b = bn"
    and "DecayStartTimestamp b = ds" "DecayEndTimestamp b = de"
proof -
  let ?b = "\<lparr> TxHash = txHash, BidAmount = bidAmt, BlockNumber = bn, Digest = None,
              Signature = None, DecayStartTimestamp = ds, DecayEndTimestamp = de \<rparr>"
  from amt have "bidAmt \<noteq> []" by (auto simp: set_string10_def)
  from amt obtain h where h: "GetBidHash C ?b = Ok h" by (simp add: GetBidHash_def)
  then obtain x where "h = keccak256 C x" by (auto dest: GetBidHash_keccak)
  with assms(1) obtain sig sig' where "SignHash ks h = Inr sig" "transform_v sig = Ok sig'"
    "eipVerify C h h sig' = Ok a" by (rule signed_payload)
  moreover have "GetBidHash C (?b\<lparr> Digest := Some h, Signature := Some sig' \<rparr>) = Ok h"
    using h by (simp only: GetBidHash_unsigned)
  ultimately show thesis
    using h assms(2,3) \<open>bidAmt \<noteq> []\<close>
    by (intro that [of "?b\<lparr> Digest := Some h, Signature := Some sig' \<rparr>"])
       (simp_all add: signer_ConstructSignedBid_def signer_VerifyBid_def)
qed

lemma VerifyBid_Some: "signer_VerifyBid C pb = Ok a \<Longrightarrow> \<exists>b. pb = Some b"
  by (cases pb) (simp_all add: signer_VerifyBid_def)

lemma VerifyBid_amount:
  "signer_VerifyBid C (Some b) = Ok a \<Longrightarrow> \<exists>n. set_string10 (BidAmount b) = Some n"
  by (auto simp: signer_VerifyBid_def GetBidHash_def split: if_splits option.splits)

lemma ConstructPreConfirmation_verifies:
  assumes "signs_as C ks a" and vb: "signer_VerifyBid C (Some b) = Ok bidder"
  obtains pc where "signer_ConstructPreConfirmation C ks (Some b) = Ok pc"
    and "pc_Bid pc = Some b" and "signer_VerifyPreConfirmation C pc = Ok a"
proof -
  let ?pc = "\<lparr> pc_Bid = Some b, pc_Digest = None, pc_Signature = None,
               pc_ProviderAddress = None \<rparr>"
  from VerifyBid_amount [OF vb] obtain h where h: "GetPreConfirmationHash C ?pc = Ok h"
    by (auto simp: GetPreConfirmationHash_def Let_def)
  then obtain x where "h = keccak256 C x" by (auto dest: GetPreConfirmationHash_keccak)
  with assms(1) obtain sig sig' where "SignHash ks h = Inr sig" "transform_v sig = Ok sig'"
    "eipVerify C h h sig' = Ok a" by (rule signed_payload)
  moreover have "GetPreConfirmationHash C (?pc\<lparr> pc_Digest := Some h, pc_Signature := Some sig' \<rparr>) = Ok h"
    using h by (simp only: GetPreConfirmationHash_unsigned)
  ultimately show thesis
    using h vb
    by (intro that [of "?pc\<lparr> pc_Digest := Some h, pc_Signature := Some sig' \<rparr>"])
       (simp_all add: signer_ConstructPreConfirmation_def signer_VerifyPreConfirmation_def)
qed

section \<open>What verification guarantees, and when it panics\<close>

lemma eipVerify_Ok_hash: "eipVerify C h h' sig = Ok a \<Longrightarrow> h' = h"
  by (simp add: eipVerify_def split: if_splits)

lemma VerifyBid_iff:
  "signer_VerifyBid C (Some b) = Ok a \<longleftrightarrow>
     (\<exists>h sig. Digest b = Some h \<and> Signature b = Some sig \<and> GetBidHash C b = Ok h \<and>
              eipVerify C h h sig = Ok a)"
  by (auto simp: signer_VerifyBid_def) (metis eipVerify_Ok_hash)+

lemma eipVerify_not_Panic: "64 < length sig \<Longrightarrow> eipVerify C h h' sig \<noteq> Panic"
  by (auto simp: eipVerify_def Let_def obind_eq_Panic)

lemma eipVerify_Panic_iff: "eipVerify C h h' sig = Panic \<longleftrightarrow> h = h' \<and> length sig \<le> 64"
  by (auto simp: eipVerify_def Let_def obind_eq_Panic)

lemma GetBidHash_not_Panic [simp]: "GetBidHash C b \<noteq> Panic"
  by (simp add: GetBidHash_def split: option.splits)

lemma VerifyBid_Panic_iff:
  "signer_VerifyBid C (Some b) = Panic \<longleftrightarrow>
     (\<exists>h sig. Digest b = Some h \<and> Signature b = Some sig \<and> GetBidHash C b = Ok h \<and>
              length sig \<le> 64)"
  by (auto simp: signer_VerifyBid_def obind_eq_Panic eipVerify_Panic_iff)

section \<open>Well-formed messages\<close>

text \<open>
  What a signed message looks like on the wire: a 32-byte digest and a 65-byte signature
  whose last byte is 27 or 28. A well-formed message never makes the verifier panic.
\<close>

definition wire_ok :: "bytes option \<Rightarrow> bytes option \<Rightarrow> bool" where
  "wire_ok digest signature \<longleftrightarrow>
     (case (digest, signature) of
        (Some h, Some sig) \<Rightarrow>
          length h = 32 \<and> length sig = 65 \<and> (sig ! 64 = 27 \<or> sig ! 64 = 28)
      | _ \<Rightarrow> False)"

definition bid_wf :: "bid \<Rightarrow> bool" where
  "bid_wf b \<longleftrightarrow> TxHash b \<noteq> [] \<and> BlockNumber b \<noteq> 0 \<and> set_string10 (BidAmount b) \<noteq> None \<and>
     wire_ok (Digest b) (Signature b)"

definition pc_wf :: "pre_confirmation \<Rightarrow> bool" where
  "pc_wf pc \<longleftrightarrow> pc_Bid pc \<noteq> None \<and> wire_ok (pc_Digest pc) (pc_Signature pc)"

lemma wire_signature:
  assumes "signs_as C ks a" and "h = keccak256 C x" and "SignHash ks h = Inr sig"
  obtains sig' where "transform_v sig = Ok sig'" and "wire_ok (Some h) (Some sig')"
proof -
  from assms obtain pub where "is_signature C h sig pub"
    using signs_as_sign [OF assms(1), of x] by force
  then have "transform_v sig = Ok (sig[64 := sig ! 64 + 27])" "length sig = 65"
    "sig ! 64 = 0 \<or> sig ! 64 = 1"
    by (auto simp: transform_v_signature is_signature_def)
  moreover have "length h = 32" using assms by (simp add: signs_as_def keccak_ok_def)
  ultimately show thesis by (intro that) (auto simp: wire_ok_def)
qed

lemma ConstructSignedBid_wf:
  assumes "signs_as C ks a" and "signer_ConstructSignedBid C ks th amt bn ds de = Ok b"
  shows "bid_wf b"
proof -
  from assms(2) obtain h sig sig' where
    b: "th \<noteq> []" "bn \<noteq> 0"
    "GetBidHash C \<lparr> TxHash = th, BidAmount = amt, BlockNumber = bn, Digest = None,
        Signature = None, DecayStartTimestamp = ds, DecayEndTimestamp = de \<rparr> = Ok h"
    "SignHash ks h = Inr sig" "transform_v sig = Ok sig'"
    "b = \<lparr> TxHash = th, BidAmount = amt, BlockNumber = bn, Digest = Some h,
        Signature = Some sig', DecayStartTimestamp = ds, DecayEndTimestamp = de \<rparr>"
    by (auto simp: signer_ConstructSignedBid_def Let_def split: if_splits)
  from GetBidHash_keccak [OF b(3)] obtain x where "h = keccak256 C x" by blast
  with assms(1) b(4,5) have "wire_ok (Some h) (Some sig')" by (auto elim: wire_signature)
  moreover from b(3) have "set_string10 amt \<noteq> None" by (auto simp: GetBidHash_def split: option.splits)
  ultimately show ?thesis using b by (simp add: bid_wf_def)
qed

lemma ConstructPreConfirmation_wf:
  assumes "signs_as C ks a" and "signer_ConstructPreConfirmation C ks pb = Ok pc"
  shows "pc_wf pc"
proof -
  from assms(2) obtain h sig sig' where
    pc: "pb \<noteq> None"
    "GetPreConfirmationHash C \<lparr> pc_Bid = pb, pc_Digest = None, pc_Signature = None,
        pc_ProviderAddress = None \<rparr> = Ok h"
    "SignHash ks h = Inr sig" "transform_v sig = Ok sig'"
    "pc = \<lparr> pc_Bid = pb, pc_Digest = Some h, pc_Signature = Some sig', pc_ProviderAddress = None \<rparr>"
    by (auto simp: signer_ConstructPreConfirmation_def Let_def dest: VerifyBid_Some)
  from GetPreConfirmationHash_keccak [OF pc(2)] obtain x where "h = keccak256 C x" by blast
  with assms(1) pc(3,4) have "wire_ok (Some h) (Some sig')" by (auto elim: wire_signature)
  with pc show ?thesis by (simp add: pc_wf_def)
qed

lemma VerifyBid_wf: "bid_wf b \<Longrightarrow> signer_VerifyBid C (Some b) \<noteq> Panic"
  by (auto simp: VerifyBid_Panic_iff bid_wf_def wire_ok_def)

lemma GetPreConfirmationHash_not_Panic: "pc_Bid pc \<noteq> None \<Longrightarrow> GetPreConfirmationHash C pc \<noteq> Panic"
  by (auto simp: GetPreConfirmationHash_def Let_def split: option.splits)

lemma VerifyPreConfirmation_wf:
  assumes "pc_wf pc" "pc_Bid pc = Some b" "signer_VerifyBid C (Some b) \<noteq> Panic"
  shows "signer_VerifyPreConfirmation C pc \<noteq> Panic"
  using assms GetPreConfirmationHash_not_Panic [of pc C]
  by (auto simp: signer_VerifyPreConfirmation_def obind_eq_Panic eipVerify_Panic_iff pc_wf_def
      wire_ok_def split: option.splits)

text \<open>A preconfirmation is only made for a bid that verified, so verifying it does not panic.\<close>

lemma ConstructPreConfirmation_verifiable:
  assumes "signs_as C ks a" and "signer_ConstructPreConfirmation C ks pb = Ok pc"
  shows "signer_VerifyPreConfirmation C pc \<noteq> Panic"
proof -
  from assms(2) obtain b x where "signer_VerifyBid C (Some b) = Ok x" "pc_Bid pc = Some b"
    by (cases pb) (auto simp: signer_ConstructPreConfirmation_def signer_VerifyBid_def Let_def)
  with ConstructPreConfirmation_wf [OF assms] show ?thesis
    by (simp add: VerifyPreConfirmation_wf)
qed

lemma ConstructSignedBid_not_Panic:
  assumes "signs_as C ks a"
  shows "signer_ConstructSignedBid C ks th amt bn ds de \<noteq> Panic"
proof
  assume "signer_ConstructSignedBid C ks th amt bn ds de = Panic"
  then obtain b h sig where "GetBidHash C b = Ok h" "SignHash ks h = Inr sig" "transform_v sig = Panic"
    by (auto simp: signer_ConstructSignedBid_def Let_def obind_eq_Panic split: if_splits)
  with assms show False by (metis GetBidHash_keccak wire_signature outcome.distinct(3))
qed

text \<open>Making a preconfirmation panics when verifying the bid it is for does, and only then.\<close>

lemma ConstructPreConfirmation_Panic_iff:
  assumes "signs_as C ks a"
  shows "signer_ConstructPreConfirmation C ks pb = Panic \<longleftrightarrow> signer_VerifyBid C pb = Panic"
proof (cases "signer_VerifyBid C pb")
  case (Ok x)
  then obtain b where b: "pb = Some b" by (auto dest: VerifyBid_Some)
  with Ok obtain pc where "signer_ConstructPreConfirmation C ks pb = Ok pc"
    by (auto elim: ConstructPreConfirmation_verifies [OF assms])
  with Ok show ?thesis by simp
qed (simp_all add: signer_ConstructPreConfirmation_def)

section \<open>The contract of the Signer interface\<close>

text \<open>
  What the users of the interface rely on. \<open>S i\<close> is the signer of node \<open>i\<close>;
  \<open>good i a\<close> says that the node's key signer signs as address \<open>a\<close>; nodes with
  \<open>same i j\<close> use one library, so they verify alike.
\<close>

locale signer_contract =
  fixes S :: "'i \<Rightarrow> signer"
    and good :: "'i \<Rightarrow> address \<Rightarrow> bool"
    and same :: "'i \<Rightarrow> 'i \<Rightarrow> bool"
  assumes construct_ok:
      "good i a \<Longrightarrow> th \<noteq> [] \<Longrightarrow> bn \<noteq> 0 \<Longrightarrow> set_string10 amt = Some n \<Longrightarrow>
         \<exists>b. ConstructSignedBid (S i) th amt bn ds de = Ok b \<and> VerifyBid (S i) (Some b) = Ok a \<and>
             TxHash b = th \<and> BidAmount b = amt \<and> BlockNumber b = bn \<and>
             DecayStartTimestamp b = ds \<and> DecayEndTimestamp b = de"
    and commit_ok:
      "good i a \<Longrightarrow> VerifyBid (S i) (Some b) = Ok bidder \<Longrightarrow>
         \<exists>pc. ConstructPreConfirmation (S i) (Some b) = Ok pc \<and> pc_Bid pc = Some b \<and>
              VerifyPreConfirmation (S i) pc = Ok a"
    and commit_bid:
      "ConstructPreConfirmation (S i) (Some b) = Ok pc \<Longrightarrow> pc_Bid pc = Some b"
    and verify_same:
      "same i j \<Longrightarrow> VerifyBid (S i) = VerifyBid (S j) \<and>
                     VerifyPreConfirmation (S i) = VerifyPreConfirmation (S j)"
    and verify_address:
      "VerifyPreConfirmation (S i) (pc\<lparr> pc_ProviderAddress := p \<rparr>) =
         VerifyPreConfirmation (S i) pc"
    and verify_amount:
      "VerifyBid (S i) (Some b) = Ok a \<Longrightarrow> \<exists>n. set_string10 (BidAmount b) = Some n"
    and verify_commit_bid:
      "VerifyPreConfirmation (S i) pc = Ok a \<Longrightarrow>
         \<exists>b x. pc_Bid pc = Some b \<and> VerifyBid (S i) (Some b) = Ok x"
begin

lemma commit_verifies_elsewhere:
  assumes "good j p" "same i j" "VerifyBid (S i) (Some b) = Ok bidder"
  obtains pc where "ConstructPreConfirmation (S j) (Some b) = Ok pc"
    and "pc_Bid pc = Some b" and "VerifyPreConfirmation (S i) pc = Ok p"
proof -
  from assms(3) verify_same [OF assms(2)] have "VerifyBid (S j) (Some b) = Ok bidder" by simp
  with commit_ok [OF assms(1)] obtain pc where
    "ConstructPreConfirmation (S j) (Some b) = Ok pc" "pc_Bid pc = Some b"
    "VerifyPreConfirmation (S j) pc = Ok p" by blast
  with verify_same [OF assms(2)] show thesis by (intro that [of pc]) simp_all
qed

end

lemma VerifyPreConfirmation_bid:
  "signer_VerifyPreConfirmation C pc = Ok a \<Longrightarrow>
     \<exists>b x. pc_Bid pc = Some b \<and> signer_VerifyBid C (Some b) = Ok x"
  by (cases "pc_Bid pc")
     (auto simp: signer_VerifyPreConfirmation_def signer_VerifyBid_def [of _ None] split: if_splits)

lemma ConstructPreConfirmation_bid:
  "signer_ConstructPreConfirmation C ks pb = Ok pc \<Longrightarrow> pc_Bid pc = pb"
  by (auto simp: signer_ConstructPreConfirmation_def Let_def)

lemma VerifyPreConfirmation_address:
  "signer_VerifyPreConfirmation C (pc\<lparr> pc_ProviderAddress := p \<rparr>) =
     signer_VerifyPreConfirmation C pc"
  by (simp add: signer_VerifyPreConfirmation_def GetPreConfirmationHash_def)

interpretation pks: signer_contract
  "\<lambda>(C, ks). NewSigner C ks" "\<lambda>(C, ks) a. signs_as C ks a" "\<lambda>i j. fst i = fst j"
proof (unfold_locales, goal_cases)
  case (1 i a th bn amt n ds de)
  then show ?case
    by (cases i)
       (auto simp: NewSigner_def elim!: ConstructSignedBid_verifies [where ds = ds and de = de])
next
  case (2 i a b bidder)
  then show ?case
    by (cases i) (auto simp: NewSigner_def elim!: ConstructPreConfirmation_verifies)
next
  case (3 i b pc)
  then show ?case
    by (cases i) (auto simp: NewSigner_def dest: ConstructPreConfirmation_bid)
next
  case (4 i j)
  then show ?case by (cases i; cases j) (simp add: NewSigner_def)
next
  case (5 i pc p)
  then show ?case by (cases i) (simp add: NewSigner_def VerifyPreConfirmation_address)
next
  case (6 i b a)
  then show ?case by (cases i) (auto simp: NewSigner_def dest: VerifyBid_amount)
next
  case (7 i pc a)
  then show ?case by (cases i) (auto simp: NewSigner_def dest: VerifyPreConfirmation_bid)
qed

section \<open>The digest binds the fields\<close>

text \<open>
  Two byte strings collide when they differ and have one hash. The binding theorems name
  the strings that collide: those hashed while the two digests were computed.
\<close>

definition collide :: "('key, 'pub) eth_lib \<Rightarrow> bytes list \<Rightarrow> bytes list \<Rightarrow> bool" where
  "collide C xs ys \<longleftrightarrow>
     (\<exists>x \<in> set xs. \<exists>y \<in> set ys. x \<noteq> y \<and> keccak256 C x = keccak256 C y)"

definition bid_preimages :: "('key, 'pub) eth_lib \<Rightarrow> int \<Rightarrow> bid \<Rightarrow> bytes list" where
  "bid_preimages C n b =
     (let data = encode_fields C bid_type n b
      in [string_bytes (TxHash b), data,
          [0x19, 0x01] @ domainSeparator C ''PreConfBid'' @ keccak256 C data])"

definition same_terms :: "int \<Rightarrow> bid \<Rightarrow> int \<Rightarrow> bid \<Rightarrow> bool" where
  "same_terms n b n' b' \<longleftrightarrow>
     TxHash b = TxHash b' \<and> n mod 2 ^ 256 = n' mod 2 ^ 256 \<and>
     BlockNumber b = BlockNumber b' \<and>
     DecayStartTimestamp b = DecayStartTimestamp b' \<and>
     DecayEndTimestamp b = DecayEndTimestamp b'"

lemma sint_mod_256_inj:
  fixes x y :: i64
  assumes "sint x mod 2 ^ 256 = sint y mod 2 ^ 256"
  shows "x = y"
proof -
  have r: "- (2 ^ 63) \<le> sint z \<and> sint z < 2 ^ 63" for z :: i64
    using sint_range_size [of z] by (simp add: word_size)
  have "(2::int) ^ 256 dvd sint x - sint y"
    using assms by (simp add: mod_eq_dvd_iff)
  moreover have "\<bar>sint x - sint y\<bar> < 2 ^ 256" using r [of x] r [of y] by (auto simp: abs_less_iff)
  ultimately have "sint x - sint y = 0" using zdvd_imp_le [of "2 ^ 256"]
    by (smt (verit, best) dvd_minus_iff)
  then show ?thesis by (simp add: signed_word_eqI)
qed

lemma append_eq_same_length:
  "length xs = length xs' \<Longrightarrow> xs @ ys = xs' @ ys' \<longleftrightarrow> xs = xs' \<and> ys = ys'"
  by simp

lemma encode_fields_inj:
  assumes "keccak_ok C" "u256_ok C"
    and "encode_fields C typ n b = encode_fields C typ' n' b'"
  shows "keccak256 C (string_bytes typ) = keccak256 C (string_bytes typ')"
    and "keccak256 C (string_bytes (TxHash b)) = keccak256 C (string_bytes (TxHash b'))"
    and "n mod 2 ^ 256 = n' mod 2 ^ 256" and "BlockNumber b = BlockNumber b'"
    and "DecayStartTimestamp b = DecayStartTimestamp b'"
    and "DecayEndTimestamp b = DecayEndTimestamp b'"
proof -
  have k: "length (keccak256 C x) = length (keccak256 C y)" for x y
    using assms(1) by (simp add: keccak_ok_def)
  have u: "length (u256_bytes C i) = length (u256_bytes C j)" for i j
    using assms(2) by (simp add: u256_ok_def)
  have eq: "u256_bytes C i = u256_bytes C j \<longleftrightarrow> i mod 2 ^ 256 = j mod 2 ^ 256" for i j
    using assms(2) by (simp only: u256_ok_def)
  from assms(3)
  have *: "keccak256 C (string_bytes typ) = keccak256 C (string_bytes typ')"
    "keccak256 C (string_bytes (TxHash b)) = keccak256 C (string_bytes (TxHash b'))"
    "u256_bytes C n = u256_bytes C n'"
    "u256_bytes C (sint (BlockNumber b)) = u256_bytes C (sint (BlockNumber b'))"
    "u256_bytes C (sint (DecayStartTimestamp b)) = u256_bytes C (sint (DecayStartTimestamp b'))"
    "u256_bytes C (sint (DecayEndTimestamp b)) = u256_bytes C (sint (DecayEndTimestamp b'))"
    unfolding encode_fields_def append_eq_same_length [OF k] append_eq_same_length [OF u]
    by blast+
  then show "keccak256 C (string_bytes typ) = keccak256 C (string_bytes typ')"
    and "keccak256 C (string_bytes (TxHash b)) = keccak256 C (string_bytes (TxHash b'))"
    and "n mod 2 ^ 256 = n' mod 2 ^ 256"
    unfolding eq by blast+
  from * show "BlockNumber b = BlockNumber b'"
    and "DecayStartTimestamp b = DecayStartTimestamp b'"
    and "DecayEndTimestamp b = DecayEndTimestamp b'"
    unfolding eq by (blast intro: sint_mod_256_inj)+
qed

lemma final_hash_data:
  assumes "keccak_ok C" and "final_hash C name d = final_hash C name' d'"
  shows "([0x19, 0x01] @ domainSeparator C name @ keccak256 C d \<noteq>
            [0x19, 0x01] @ domainSeparator C name' @ keccak256 C d' \<and>
          keccak256 C ([0x19, 0x01] @ domainSeparator C name @ keccak256 C d) =
            keccak256 C ([0x19, 0x01] @ domainSeparator C name' @ keccak256 C d')) \<or>
         (domainSeparator C name = domainSeparator C name' \<and> keccak256 C d = keccak256 C d')"
proof -
  have "length (domainSeparator C m) = 32" for m
    using assms(1) by (simp add: domainSeparator_def keccak_ok_def Let_def)
  with assms show ?thesis
    by (auto simp: final_hash_def Let_def append_eq_same_length)
qed

lemma bid_hash_binds:
  assumes "keccak_ok C" "u256_ok C"
    and n: "set_string10 (BidAmount b) = Some n" and n': "set_string10 (BidAmount b') = Some n'"
    and eq: "GetBidHash C b = GetBidHash C b'"
  shows "same_terms n b n' b' \<or> collide C (bid_preimages C n b) (bid_preimages C n' b')"
proof (rule disjCI)
  assume nc: "\<not> collide C (bid_preimages C n b) (bid_preimages C n' b')"
  let ?d = "encode_fields C bid_type n b" and ?d' = "encode_fields C bid_type n' b'"
  have inj: "x = y" if "x \<in> set (bid_preimages C n b)" "y \<in> set (bid_preimages C n' b')"
    "keccak256 C x = keccak256 C y" for x y
    using nc that by (auto simp: collide_def)
  have mem: "string_bytes (TxHash b) \<in> set (bid_preimages C n b)"
    "string_bytes (TxHash b') \<in> set (bid_preimages C n' b')"
    "?d \<in> set (bid_preimages C n b)" "?d' \<in> set (bid_preimages C n' b')"
    "[0x19, 0x01] @ domainSeparator C ''PreConfBid'' @ keccak256 C ?d \<in> set (bid_preimages C n b)"
    "[0x19, 0x01] @ domainSeparator C ''PreConfBid'' @ keccak256 C ?d' \<in> set (bid_preimages C n' b')"
    by (simp_all add: bid_preimages_def Let_def)
  have "final_hash C ''PreConfBid'' ?d = final_hash C ''PreConfBid'' ?d'"
    using eq n n' by (simp add: GetBidHash_def)
  then have "keccak256 C ?d = keccak256 C ?d'"
    using final_hash_data [OF assms(1)] inj [OF mem(5,6)] by blast
  then have d: "?d = ?d'" by (rule inj [OF mem(3,4)])
  note f = encode_fields_inj [OF assms(1,2) d]
  have "TxHash b = TxHash b'" using inj [OF mem(1,2) f(2)] by (simp add: string_bytes_inj)
  with f show "same_terms n b n' b'" by (simp add: same_terms_def)
qed

end
