(* ===== verification/Preconf.thy ===== *)
theory Preconf
  imports Bid_Signer
begin

text \<open>
  \<open>pkg/preconfirmation/preconfirmation.go\<close>: the provider's handler \<open>handleBid\<close> and the
  bidder's \<open>SendBid\<close>. The handler is a function of the interfaces it is constructed with
  and returns, beside its outcome, the calls it made in order. \<open>SendBid\<close> starts one
  worker per provider; the worker is a function, and the workers with their channel are a
  transition system, because they finish in any order.
\<close>

section \<open>The provider: handleBid\<close>

text \<open>
  The arguments of \<open>StoreCommitment\<close>. The amount is a pointer, \<open>None\<close> for \<open>nil\<close>.
\<close>

record commitment_args =
  ca_bid :: "int option"
  ca_blockNumber :: u64
  ca_txHash :: string
  ca_decayStart :: u64
  ca_decayEnd :: u64
  ca_bidSignature :: "bytes option"
  ca_commitmentSignature :: "bytes option"

text \<open>
  What the \<open>select\<close> after \<open>ProcessBid\<close> sees: a status from the channel, or the end of
  the context (five seconds, or the peer's disconnect) with its error.
\<close>

datatype status_event = StatusOf bid_status | CtxDone go_error

record bid_services =
  CheckBidderAllowance :: "address \<Rightarrow> bool"
  ProcessBid :: "bid \<Rightarrow> nat outcome"
  select_status :: "nat \<Rightarrow> status_event"
  StoreCommitment :: "commitment_args \<Rightarrow> unit outcome"

record bid_stream =
  bs_ReadMsg :: "bid outcome"
  bs_WriteMsg :: "pre_confirmation \<Rightarrow> unit outcome"

datatype effect =
    EffAllowance address
  | EffProcess bid
  | EffStore commitment_args
  | EffWrite pre_confirmation

definition commitment_of :: "int option \<Rightarrow> bid \<Rightarrow> pre_confirmation \<Rightarrow> commitment_args" where
  "commitment_of bidAmt b pc =
     \<lparr> ca_bid = bidAmt, ca_blockNumber = BlockNumber b, ca_txHash = TxHash b,
       ca_decayStart = DecayStartTimestamp b, ca_decayEnd = DecayEndTimestamp b,
       ca_bidSignature = Signature b, ca_commitmentSignature = pc_Signature pc \<rparr>"

definition accept_bid ::
  "signer \<Rightarrow> bid_services \<Rightarrow> bid_stream \<Rightarrow> int option \<Rightarrow> bid \<Rightarrow> unit outcome \<times> effect list" where
  "accept_bid S P str bidAmt b =
     emit [] (\<lambda>e. Err_Status Internal ''failed to construct preconfirmation'')
       (ConstructPreConfirmation S (Some b)) (\<lambda>preConfirmation.
       case pc_Bid preConfirmation of
         None \<Rightarrow> (Panic, [])
       | Some pb \<Rightarrow>
           (let args = commitment_of bidAmt pb preConfirmation
            in emit [EffStore args] (\<lambda>e. Err_Status Internal ''failed to store commitment'')
                 (StoreCommitment P args) (\<lambda>_.
                 emit [EffWrite preConfirmation] id (bs_WriteMsg str preConfirmation)
                   (\<lambda>_. (Ok (), [])))))"

fun handle_status ::
  "signer \<Rightarrow> bid_services \<Rightarrow> bid_stream \<Rightarrow> int option \<Rightarrow> bid \<Rightarrow> status_event \<Rightarrow>
     unit outcome \<times> effect list" where
  "handle_status S P str bidAmt b (CtxDone e) = (Fail e, [])"
| "handle_status S P str bidAmt b (StatusOf STATUS_REJECTED) =
     (Fail (Err_Status Internal ''bid rejected''), [])"
| "handle_status S P str bidAmt b (StatusOf STATUS_ACCEPTED) = accept_bid S P str bidAmt b"
| "handle_status S P str bidAmt b (StatusOf STATUS_UNSPECIFIED) = (Ok (), [])"
| "handle_status S P str bidAmt b (StatusOf (STATUS_OTHER n)) = (Ok (), [])"

definition handleBid ::
  "signer \<Rightarrow> bid_services \<Rightarrow> peer \<Rightarrow> bid_stream \<Rightarrow> unit outcome \<times> effect list" where
  "handleBid S P peer str =
     (if Type peer \<noteq> PeerTypeBidder then (Fail (Err_Sentinel ErrInvalidBidderTypeForBid), [])
      else emit [] id (bs_ReadMsg str) (\<lambda>b.
           emit [] (\<lambda>e. Err_Status InvalidArgument ''invalid bid'') (VerifyBid S (Some b))
             (\<lambda>ethAddress.
           emit [EffAllowance ethAddress] id (Ok (CheckBidderAllowance P ethAddress))
             (\<lambda>allowed.
             if \<not> allowed then (Fail (Err_Status FailedPrecondition ''bidder not allowed''), [])
             else
               let bidAmt = set_string10 (BidAmount b)
               in emit [EffProcess b] id (ProcessBid P b) (\<lambda>statusC.
                    handle_status S P str bidAmt b (select_status P statusC))))))"

section \<open>The bidder: one worker of SendBid\<close>

record bid_conn =
  bc_NewStream :: "unit outcome"
  bc_WriteMsg :: "bid \<Rightarrow> unit outcome"
  bc_ReadMsg :: "pre_confirmation outcome"

datatype bid_effect = SWrite bid | SSentBid | SReset | SClose | SReceived

text \<open>
  The result is the preconfirmation the worker puts on the channel, if any; every error
  ends the worker quietly. \<open>SSentBid\<close> and \<open>SReceived\<close> are the two metric counters.
\<close>

definition bid_worker ::
  "signer \<Rightarrow> bid \<Rightarrow> bid_conn \<Rightarrow> pre_confirmation option outcome \<times> bid_effect list" where
  "bid_worker S signedBid conn =
     (case bc_NewStream conn of
        Panic \<Rightarrow> (Panic, [])
      | Fail _ \<Rightarrow> (Ok None, [])
      | Ok _ \<Rightarrow>
     (case bc_WriteMsg conn signedBid of
        Panic \<Rightarrow> (Panic, [SWrite signedBid])
      | Fail _ \<Rightarrow> (Ok None, [SWrite signedBid, SReset])
      | Ok _ \<Rightarrow>
     (case bc_ReadMsg conn of
        Panic \<Rightarrow> (Panic, [SWrite signedBid, SSentBid])
      | Fail _ \<Rightarrow> (Ok None, [SWrite signedBid, SSentBid, SReset])
      | Ok preConfirmation \<Rightarrow>
     (case VerifyPreConfirmation S preConfirmation of
        Panic \<Rightarrow> (Panic, [SWrite signedBid, SSentBid, SClose])
      | Fail _ \<Rightarrow> (Ok None, [SWrite signedBid, SSentBid, SClose])
      | Ok providerAddress \<Rightarrow>
          (Ok (Some (preConfirmation\<lparr> pc_ProviderAddress := Some (addr_bytes providerAddress) \<rparr>)),
           [SWrite signedBid, SSentBid, SClose, SReceived])))))"

section \<open>SendBid and its workers\<close>

definition SendBid ::
  "signer \<Rightarrow> peer list \<Rightarrow> string \<Rightarrow> string \<Rightarrow> i64 \<Rightarrow> i64 \<Rightarrow> i64 \<Rightarrow> (bid \<times> peer list) outcome" where
  "SendBid S providers txHash bidAmt blockNumber decayStart decayEnd =
     obind (ConstructSignedBid S txHash bidAmt blockNumber decayStart decayEnd) (\<lambda>signedBid.
       if providers = [] then Fail (Err_Msg ''no providers available'')
       else Ok (signedBid, providers))"

text \<open>
  The workers of one call: those still running, the buffered channel (its capacity is the
  number of providers), whether it is closed, what the caller has received, and whether a
  worker panicked (which ends the process).
\<close>

record bid_run =
  br_pending :: "peer list"
  br_chan :: "pre_confirmation list"
  br_closed :: bool
  br_received :: "pre_confirmation list"
  br_crashed :: bool

datatype bid_label = WDeliver peer | WQuiet peer | WCtxDone peer | WCrash peer | WClose | WRecv

definition bid_start :: "peer list \<Rightarrow> bid_run \<Rightarrow> bool" where
  "bid_start providers s \<longleftrightarrow>
     s = \<lparr> br_pending = providers, br_chan = [], br_closed = False, br_received = [],
           br_crashed = False \<rparr>"

definition worker_result :: "signer \<Rightarrow> bid \<Rightarrow> (peer \<Rightarrow> bid_conn) \<Rightarrow> peer \<Rightarrow> pre_confirmation option outcome" where
  "worker_result S b conn p = fst (bid_worker S b (conn p))"

inductive bid_step ::
  "signer \<Rightarrow> bid \<Rightarrow> (peer \<Rightarrow> bid_conn) \<Rightarrow> peer list \<Rightarrow> bid_run \<Rightarrow> bid_label \<Rightarrow> bid_run \<Rightarrow> bool"
  for S b conn providers where
  deliver: "\<not> br_crashed s \<Longrightarrow> p \<in> set (br_pending s) \<Longrightarrow>
     worker_result S b conn p = Ok (Some pc) \<Longrightarrow>
     length (br_chan s) < length providers \<Longrightarrow> \<not> br_closed s \<Longrightarrow>
     bid_step S b conn providers s (WDeliver p)
       (s\<lparr> br_pending := remove1 p (br_pending s), br_chan := br_chan s @ [pc] \<rparr>)"
| send_closed: "\<not> br_crashed s \<Longrightarrow> p \<in> set (br_pending s) \<Longrightarrow>
     worker_result S b conn p = Ok (Some pc) \<Longrightarrow> br_closed s \<Longrightarrow>
     bid_step S b conn providers s (WCrash p) (s\<lparr> br_crashed := True \<rparr>)"
| ctx_done: "\<not> br_crashed s \<Longrightarrow> p \<in> set (br_pending s) \<Longrightarrow>
     worker_result S b conn p = Ok (Some pc) \<Longrightarrow>
     bid_step S b conn providers s (WCtxDone p) (s\<lparr> br_pending := remove1 p (br_pending s) \<rparr>)"
| quiet: "\<not> br_crashed s \<Longrightarrow> p \<in> set (br_pending s) \<Longrightarrow>
     worker_result S b conn p = Ok None \<Longrightarrow>
     bid_step S b conn providers s (WQuiet p) (s\<lparr> br_pending := remove1 p (br_pending s) \<rparr>)"
| crash: "\<not> br_crashed s \<Longrightarrow> p \<in> set (br_pending s) \<Longrightarrow>
     worker_result S b conn p = Panic \<Longrightarrow>
     bid_step S b conn providers s (WCrash p) (s\<lparr> br_crashed := True \<rparr>)"
| close: "\<not> br_crashed s \<Longrightarrow> br_pending s = [] \<Longrightarrow> \<not> br_closed s \<Longrightarrow>
     bid_step S b conn providers s WClose (s\<lparr> br_closed := True \<rparr>)"
| recv: "\<not> br_crashed s \<Longrightarrow> br_chan s = pc # pcs \<Longrightarrow>
     bid_step S b conn providers s WRecv
       (s\<lparr> br_chan := pcs, br_received := br_received s @ [pc] \<rparr>)"

section \<open>What handleBid does on every branch\<close>

text \<open>The trace of a handler that wrote a preconfirmation, with every guard it passed.\<close>

definition committed_run ::
  "signer \<Rightarrow> bid_services \<Rightarrow> peer \<Rightarrow> bid_stream \<Rightarrow> pre_confirmation \<Rightarrow> effect list \<Rightarrow> bool" where
  "committed_run S P peer str pc es \<longleftrightarrow>
     Type peer = PeerTypeBidder \<and>
     (\<exists>b a c pb.
        bs_ReadMsg str = Ok b \<and> VerifyBid S (Some b) = Ok a \<and> CheckBidderAllowance P a \<and>
        ProcessBid P b = Ok c \<and> select_status P c = StatusOf STATUS_ACCEPTED \<and>
        ConstructPreConfirmation S (Some b) = Ok pc \<and> pc_Bid pc = Some pb \<and>
        StoreCommitment P (commitment_of (set_string10 (BidAmount b)) pb pc) = Ok () \<and>
        es = [EffAllowance a, EffProcess b,
              EffStore (commitment_of (set_string10 (BidAmount b)) pb pc), EffWrite pc])"

lemma accept_bid_write:
  assumes "EffWrite pc \<in> set (snd (accept_bid S P str amt b))"
  shows "\<exists>pb. ConstructPreConfirmation S (Some b) = Ok pc \<and> pc_Bid pc = Some pb \<and>
           StoreCommitment P (commitment_of amt pb pc) = Ok () \<and>
           snd (accept_bid S P str amt b) = [EffStore (commitment_of amt pb pc), EffWrite pc]"
  using assms
  by (auto simp: accept_bid_def in_snd_emit snd_emit Let_def split: option.splits outcome.splits)

lemma handle_status_effects:
  "e \<in> set (snd (handle_status S P str amt b ev)) \<longleftrightarrow>
     ev = StatusOf STATUS_ACCEPTED \<and> e \<in> set (snd (accept_bid S P str amt b))"
proof (cases ev)
  case (StatusOf st)
  then show ?thesis by (cases st) simp_all
qed simp

lemma handleBid_write:
  assumes "EffWrite pc \<in> set (snd (handleBid S P peer str))"
  shows "committed_run S P peer str pc (snd (handleBid S P peer str))"
proof -
  from assms have ty: "Type peer = PeerTypeBidder" by (auto simp: handleBid_def split: if_splits)
  with assms obtain b a c where run: "bs_ReadMsg str = Ok b" "VerifyBid S (Some b) = Ok a"
    "CheckBidderAllowance P a" "ProcessBid P b = Ok c"
    "select_status P c = StatusOf STATUS_ACCEPTED"
    "EffWrite pc \<in> set (snd (accept_bid S P str (set_string10 (BidAmount b)) b))"
    by (auto simp: handleBid_def in_snd_emit Let_def handle_status_effects split: if_split_asm)
  then show ?thesis
    using ty accept_bid_write [OF run(6)]
    by (auto simp: committed_run_def handleBid_def Let_def)
qed

lemma accept_bid_store:
  "EffStore args \<in> set (snd (accept_bid S P str amt b)) \<Longrightarrow>
     \<exists>pc pb. ConstructPreConfirmation S (Some b) = Ok pc \<and> pc_Bid pc = Some pb \<and>
             args = commitment_of amt pb pc"
  by (auto simp: accept_bid_def in_snd_emit Let_def split: option.split_asm)

context signer_contract
begin

text \<open>
  A provider whose services answer well accepts the bid it received, stores exactly the
  bid's terms with both signatures, and only then writes the preconfirmation.
\<close>

lemma handleBid_accepts:
  assumes "good i prov" "Type peer = PeerTypeBidder" "bs_ReadMsg str = Ok b"
    and "VerifyBid (S i) (Some b) = Ok a" "CheckBidderAllowance P a" "ProcessBid P b = Ok c"
    and "select_status P c = StatusOf STATUS_ACCEPTED"
    and "\<And>pc. StoreCommitment P (commitment_of (set_string10 (BidAmount b)) b pc) = Ok ()"
    and "\<And>pc. ConstructPreConfirmation (S i) (Some b) = Ok pc \<Longrightarrow> bs_WriteMsg str pc = Ok ()"
  obtains pc where
    "handleBid (S i) P peer str =
       (Ok (), [EffAllowance a, EffProcess b,
                EffStore (commitment_of (set_string10 (BidAmount b)) b pc), EffWrite pc])"
    and "pc_Bid pc = Some b" and "VerifyPreConfirmation (S i) pc = Ok prov"
proof -
  from commit_ok [OF assms(1,4)] obtain pc where
    "ConstructPreConfirmation (S i) (Some b) = Ok pc" "pc_Bid pc = Some b"
    "VerifyPreConfirmation (S i) pc = Ok prov" by blast
  with assms show thesis
    by (intro that [of pc]) (simp_all add: handleBid_def accept_bid_def Let_def)
qed

lemma worker_Some:
  assumes "worker_result (S i) b conn p = Ok (Some pc)"
  shows "\<exists>a. VerifyPreConfirmation (S i) pc = Ok a \<and>
             pc_ProviderAddress pc = Some (addr_bytes a)"
  using assms
  by (auto simp: worker_result_def bid_worker_def verify_address split: outcome.splits)

end

section \<open>Invariants of the workers\<close>

definition forwarded_ok :: "signer \<Rightarrow> pre_confirmation \<Rightarrow> bool" where
  "forwarded_ok S pc \<longleftrightarrow>
     (\<exists>a. VerifyPreConfirmation S pc = Ok a \<and> pc_ProviderAddress pc = Some (addr_bytes a))"

definition bid_inv :: "signer \<Rightarrow> peer list \<Rightarrow> bid_run \<Rightarrow> bool" where
  "bid_inv S providers s \<longleftrightarrow>
     length (br_pending s) + length (br_chan s) + length (br_received s) \<le> length providers \<and>
     set (br_pending s) \<subseteq> set providers \<and>
     (br_closed s \<longrightarrow> br_pending s = []) \<and>
     (\<forall>pc \<in> set (br_chan s) \<union> set (br_received s). forwarded_ok S pc)"

lemma bid_inv_step:
  assumes "bid_inv S providers s" and "bid_step S b conn providers s l s'"
    and fw: "\<And>p pc. worker_result S b conn p = Ok (Some pc) \<Longrightarrow> forwarded_ok S pc"
  shows "bid_inv S providers s'"
  using assms(2,1)
proof (induction rule: bid_step.induct)
  case (deliver s p pc)
  then show ?case
    using fw [OF deliver(3)] length_remove1_mem [OF deliver(2)]
    by (auto simp: bid_inv_def dest: notin_set_remove1 set_remove1_subset [THEN subsetD])
next
  case (ctx_done s p pc)
  then show ?case
    using length_remove1_mem [OF ctx_done(2)]
    by (auto simp: bid_inv_def dest: set_remove1_subset [THEN subsetD])
next
  case (quiet s p)
  then show ?case
    using length_remove1_mem [OF quiet(2)]
    by (auto simp: bid_inv_def dest: set_remove1_subset [THEN subsetD])
qed (auto simp: bid_inv_def)

lemma NewSigner_forwarded:
  "worker_result (NewSigner C ks) b conn p = Ok (Some pc) \<Longrightarrow> forwarded_ok (NewSigner C ks) pc"
  using pks.worker_Some [of "(C, ks)" b conn p pc] by (simp add: forwarded_ok_def)

interpretation workers: invariant_system
  "bid_start providers" "bid_step (NewSigner C ks) b conn providers"
  "bid_inv (NewSigner C ks) providers"
  for C :: "('key, 'pub) eth_lib" and ks b conn providers
proof unfold_locales
  show "bid_inv (NewSigner C ks) providers s" if "bid_start providers s" for s
    using that by (simp add: bid_start_def bid_inv_def)
  show "bid_inv (NewSigner C ks) providers s'"
    if "bid_inv (NewSigner C ks) providers s"
      "bid_step (NewSigner C ks) b conn providers s l s'" for s l s'
    using that by (rule bid_inv_step) (rule NewSigner_forwarded)
qed

end
