(* ===== verification/Registries.thy ===== *)
theory Registries
  imports Evm_Types Preconf
begin

text \<open>
  The contract clients of \<open>pkg/contracts\<close>: the bidder registry, the provider registry and
  the commitment store. Each packs a call, runs it through the EVM client and reads the
  result. ABI packing is a library (\<open>go-ethereum/accounts/abi\<close>) and the contracts' ABIs
  are another module, so both are a parameter.
\<close>

section \<open>The ABI library and the contract clients\<close>

datatype abi_arg =
    AAddress address
  | AUint64 u64
  | AString string
  | ABytes "bytes option"

record abi =
  abi_Pack :: "string \<Rightarrow> abi_arg list \<Rightarrow> go_error + bytes"
  abi_Unpack :: "string \<Rightarrow> bytes \<Rightarrow> go_error + int list"

record 'w contract_client =
  cc_abi :: abi
  cc_addr :: address
  cc_client :: "'w evm_interface"

definition call_request :: "address \<Rightarrow> bytes \<Rightarrow> int option \<Rightarrow> tx_request" where
  "call_request addr callData v =
     empty_request\<lparr> tr_To := Some addr, tr_CallData := callData, tr_Value := v \<rparr>"

text \<open>
  A view call: pack, call, unpack, and take the first result, a panic if there is none
  (\<open>results[0]\<close>). The two registries repeat it for each of their view methods.
\<close>

definition view_call ::
  "'w contract_client \<Rightarrow> string \<Rightarrow> abi_arg list \<Rightarrow> ('w, int) act" where
  "view_call r method args =
     abind (alift (of_sum (abi_Pack (cc_abi r) method args))) (\<lambda>callData.
     abind (ei_Call (cc_client r) (call_request (cc_addr r) callData None)) (\<lambda>result.
     abind (alift (of_sum (abi_Unpack (cc_abi r) method result))) (\<lambda>results.
       alift (case results of [] \<Rightarrow> Panic | x # _ \<Rightarrow> Ok x))))"

text \<open>
  A paid call: pack, send with the amount, wait for the receipt. When the receipt's status
  is not success the Go code returns \<open>err\<close>, which is \<open>nil\<close> there.
\<close>

definition paid_call ::
  "'w contract_client \<Rightarrow> string \<Rightarrow> int option \<Rightarrow> ('w, unit) act" where
  "paid_call r method amount =
     abind (alift (of_sum (abi_Pack (cc_abi r) method []))) (\<lambda>callData.
     abind (ei_Send (cc_client r) (call_request (cc_addr r) callData amount)) (\<lambda>txnHash.
     abind (ei_WaitForReceipt (cc_client r) txnHash) (\<lambda>rc.
       if rc_Status rc \<noteq> ReceiptStatusSuccessful then aret () else aret ())))"

section \<open>bidder_registry.go\<close>

definition PrepayAllowance :: "'w contract_client \<Rightarrow> int option \<Rightarrow> ('w, unit) act" where
  "PrepayAllowance r amount = paid_call r ''prepay'' amount"

definition GetAllowance :: "'w contract_client \<Rightarrow> address \<Rightarrow> ('w, int) act" where
  "GetAllowance r a = view_call r ''getAllowance'' [AAddress a]"

definition GetMinAllowance :: "'w contract_client \<Rightarrow> ('w, int) act" where
  "GetMinAllowance r = view_call r ''minAllowance'' []"

text \<open>Both checks ask for the minimum first and answer \<open>false\<close> on any error.\<close>

definition check_at_least :: "('w, int) act \<Rightarrow> ('w, int) act \<Rightarrow> ('w, bool) act" where
  "check_at_least get_min get = (\<lambda>w.
     case get_min w of
       (Panic, w1) \<Rightarrow> (Panic, w1)
     | (Fail _, w1) \<Rightarrow> (Ok False, w1)
     | (Ok minStake, w1) \<Rightarrow>
        (case get w1 of
           (Panic, w2) \<Rightarrow> (Panic, w2)
         | (Fail _, w2) \<Rightarrow> (Ok False, w2)
         | (Ok stake, w2) \<Rightarrow> (Ok (stake \<ge> minStake), w2)))"

definition registry_CheckBidderAllowance ::
  "'w contract_client \<Rightarrow> address \<Rightarrow> ('w, bool) act" where
  "registry_CheckBidderAllowance r a = check_at_least (GetMinAllowance r) (GetAllowance r a)"

section \<open>provider_registry/registry.go\<close>

definition RegisterProvider :: "'w contract_client \<Rightarrow> int option \<Rightarrow> ('w, unit) act" where
  "RegisterProvider r amount = paid_call r ''registerAndStake'' amount"

definition GetStake :: "'w contract_client \<Rightarrow> address \<Rightarrow> ('w, int) act" where
  "GetStake r a = view_call r ''checkStake'' [AAddress a]"

definition GetMinStake :: "'w contract_client \<Rightarrow> ('w, int) act" where
  "GetMinStake r = view_call r ''minStake'' []"

definition registry_CheckProviderRegistered ::
  "'w contract_client \<Rightarrow> address \<Rightarrow> ('w, bool) act" where
  "registry_CheckProviderRegistered r a = check_at_least (GetMinStake r) (GetStake r a)"

section \<open>preconf/preconf.go\<close>

text \<open>
  \<open>big.Int.Int64\<close> takes the low 64 bits of the absolute value and negates them for a
  negative number, which is the integer modulo \<open>2^64\<close>; on a \<open>nil\<close> pointer it panics.
\<close>

definition big_Int64 :: "int option \<Rightarrow> i64 outcome" where
  "big_Int64 i = (case i of None \<Rightarrow> Panic | Some n \<Rightarrow> Ok (word_of_int n))"

definition preconf_StoreCommitment ::
  "'w contract_client \<Rightarrow> commitment_args \<Rightarrow> ('w, unit) act" where
  "preconf_StoreCommitment p c =
     abind (alift (big_Int64 (ca_bid c))) (\<lambda>amt.
     abind (alift (of_sum (abi_Pack (cc_abi p) ''storeCommitment''
              [AUint64 amt, AUint64 (ca_blockNumber c), AString (ca_txHash c),
               AUint64 (ca_decayStart c), AUint64 (ca_decayEnd c),
               ABytes (ca_bidSignature c), ABytes (ca_commitmentSignature c)]))) (\<lambda>callData.
     abind (ei_Send (cc_client p) (call_request (cc_addr p) callData None)) (\<lambda>txnHash.
       aret ())))"

section \<open>What the calls guarantee\<close>

lemma paid_call_ignores_status:
  assumes "abi_Pack (cc_abi r) method [] = Inr callData"
    and "ei_Send (cc_client r) (call_request (cc_addr r) callData amount) w = (Ok h, w1)"
    and "ei_WaitForReceipt (cc_client r) h w1 = (Ok rc, w2)"
  shows "paid_call r method amount w = (Ok (), w2)"
  using assms by (simp add: paid_call_def abind_def)

lemma check_at_least_True:
  "check_at_least get_min get w = (Ok True, w2) \<longleftrightarrow>
     (\<exists>m s w1. get_min w = (Ok m, w1) \<and> get w1 = (Ok s, w2) \<and> m \<le> s)"
  by (auto simp: check_at_least_def split: prod.splits outcome.splits)

lemma check_at_least_no_Fail: "check_at_least get_min get w \<noteq> (Fail e, w')"
  by (auto simp: check_at_least_def split: prod.splits outcome.splits)

lemma big_Int64_exact:
  "0 \<le> n \<Longrightarrow> n < 2 ^ 64 \<Longrightarrow> big_Int64 (Some n) = Ok v \<Longrightarrow> uint v = n"
  by (auto simp: big_Int64_def uint_word_of_int)

lemma big_Int64_mod: "big_Int64 (Some n) = Ok v \<Longrightarrow> uint v = n mod 2 ^ 64"
  by (auto simp: big_Int64_def uint_word_of_int)

end
