(* ===== verification/Provider_Api.thy ===== *)
theory Provider_Api
  imports P2p_Types
begin

text \<open>
  \<open>pkg/rpc/provider/service.go\<close>. The hand-off of bids between the node and the provider's
  client is a transition system: \<open>ProcessBid\<close> registers a callback under the bid's digest
  and offers the bid on an unbuffered channel, \<open>ReceiveBids\<close> streams take it, and
  \<open>SendProcessedBids\<close> streams look the callback up and run it. The locks make each map
  access one step; everything between two of them may interleave.
\<close>

section \<open>The service's state\<close>

record prov_bid =
  pb_TxHashes :: "string list"
  pb_BidAmount :: string
  pb_BlockNumber :: i64
  pb_BidDigest :: "bytes option"
  pb_DecayStart :: i64
  pb_DecayEnd :: i64

definition to_prov_bid :: "bid \<Rightarrow> prov_bid" where
  "to_prov_bid b =
     \<lparr> pb_TxHashes = split_on CHR '','' (TxHash b), pb_BidAmount = BidAmount b,
       pb_BlockNumber = BlockNumber b, pb_BidDigest = Digest b,
       pb_DecayStart = DecayStartTimestamp b, pb_DecayEnd = DecayEndTimestamp b \<rparr>"

text \<open>
  \<open>bidsInProcess\<close> maps a digest to the channel its callback writes; \<open>ps_offering\<close> holds
  the \<open>ProcessBid\<close> calls that wait for a receiver; \<open>ps_calling\<close> the callbacks taken out of
  the map and not run yet. The fields from \<open>ps_digest\<close> on record history: the digest each
  channel was made for, the validated responses of the client, the bids streamed out.
\<close>

record prov_state =
  bidsInProcess :: "bytes \<rightharpoonup> nat"
  ps_chans :: "nat \<Rightarrow> bid_status chan"
  ps_next :: nat
  ps_offering :: "nat \<rightharpoonup> prov_bid"
  ps_calling :: "(nat \<times> bid_status) list"
  ps_crashed :: bool
  BidsSentToProviderCount :: nat
  BidsAcceptedByProviderCount :: nat
  BidsRejectedByProviderCount :: nat
  ps_digest :: "nat \<Rightarrow> bytes"
  ps_responses :: "(bytes \<times> bid_status) list"
  ps_streamed :: "prov_bid list"

definition new_prov_state :: prov_state where
  "new_prov_state =
     \<lparr> bidsInProcess = Map.empty, ps_chans = (\<lambda>_. new_chan), ps_next = 0,
       ps_offering = Map.empty, ps_calling = [], ps_crashed = False,
       BidsSentToProviderCount = 0, BidsAcceptedByProviderCount = 0,
       BidsRejectedByProviderCount = 0, ps_digest = (\<lambda>_. []), ps_responses = [],
       ps_streamed = [] \<rparr>"

section \<open>The operations\<close>

text \<open>
  \<open>validBid\<close> and \<open>validResponse\<close> stand for the generated validators
  (\<open>protovalidate\<close>). A validated \<open>ProcessBid\<close> makes the channel and the callback.
\<close>

definition ProcessBid_register :: "bid \<Rightarrow> prov_state \<Rightarrow> prov_state" where
  "ProcessBid_register b s =
     (let k = ps_next s; d = bval (Digest b)
      in s\<lparr> bidsInProcess := (bidsInProcess s)(d \<mapsto> k),
            ps_chans := (ps_chans s)(k := new_chan),
            ps_next := Suc k,
            ps_offering := (ps_offering s)(k \<mapsto> to_prov_bid b),
            ps_digest := (ps_digest s)(k := d) \<rparr>)"

text \<open>The context of a waiting \<open>ProcessBid\<close> ends: it deletes the map entry of its digest.\<close>

definition ProcessBid_cancel :: "nat \<Rightarrow> prov_state \<Rightarrow> prov_state" where
  "ProcessBid_cancel k s =
     (case ps_offering s k of
        None \<Rightarrow> s
      | Some m \<Rightarrow>
          s\<lparr> bidsInProcess := (bidsInProcess s)(bval (pb_BidDigest m) := None),
             ps_offering := (ps_offering s)(k := None) \<rparr>)"

text \<open>A stream of \<open>ReceiveBids\<close> takes the offered bid; \<open>sent\<close> is whether \<open>srv.Send\<close> worked.\<close>

definition ReceiveBids_take :: "nat \<Rightarrow> bool \<Rightarrow> prov_state \<Rightarrow> prov_state" where
  "ReceiveBids_take k sent s =
     (case ps_offering s k of
        None \<Rightarrow> s
      | Some m \<Rightarrow>
          s\<lparr> ps_offering := (ps_offering s)(k := None),
             ps_streamed := (if sent then ps_streamed s @ [m] else ps_streamed s),
             BidsSentToProviderCount :=
               (if sent then Suc (BidsSentToProviderCount s) else BidsSentToProviderCount s) \<rparr>)"

text \<open>A validated response: the callback is looked up and deleted under the lock.\<close>

definition SendProcessedBids_lookup :: "bytes \<Rightarrow> bid_status \<Rightarrow> prov_state \<Rightarrow> prov_state" where
  "SendProcessedBids_lookup d st s =
     (let s' = s\<lparr> bidsInProcess := (bidsInProcess s)(d := None),
                  ps_responses := ps_responses s @ [(d, st)] \<rparr>
      in case bidsInProcess s d of
           None \<Rightarrow> s'
         | Some k \<Rightarrow> s'\<lparr> ps_calling := ps_calling s @ [(k, st)] \<rparr>)"

text \<open>The callback: send the status, close the channel, count it. \<open>None\<close>: it blocks.\<close>

definition callback_run :: "nat \<Rightarrow> bid_status \<Rightarrow> prov_state \<Rightarrow> prov_state option" where
  "callback_run k st s =
     (case chan_send 1 (ps_chans s k) st of
        SendPanic \<Rightarrow> Some (s\<lparr> ps_crashed := True \<rparr>)
      | SendBlock \<Rightarrow> None
      | Sent c \<Rightarrow>
         (case chan_close c of
            Ok c' \<Rightarrow>
              Some (s\<lparr> ps_chans := (ps_chans s)(k := c'),
                       ps_calling := remove1 (k, st) (ps_calling s),
                       BidsAcceptedByProviderCount :=
                         BidsAcceptedByProviderCount s + (if st = STATUS_ACCEPTED then 1 else 0),
                       BidsRejectedByProviderCount :=
                         BidsRejectedByProviderCount s + (if st = STATUS_ACCEPTED then 0 else 1) \<rparr>)
          | _ \<Rightarrow> Some (s\<lparr> ps_crashed := True \<rparr>)))"

text \<open>The handler of the bid reads its channel.\<close>

definition status_take :: "nat \<Rightarrow> prov_state \<Rightarrow> (bid_status \<times> prov_state) option" where
  "status_take k s =
     (case ch_buf (ps_chans s k) of
        st # rest \<Rightarrow>
          Some (st, s\<lparr> ps_chans := (ps_chans s)(k := (ps_chans s k)\<lparr> ch_buf := rest \<rparr>) \<rparr>)
      | [] \<Rightarrow> if ch_closed (ps_chans s k) then Some (STATUS_UNSPECIFIED, s) else None)"

datatype prov_label =
    LProcess bid
  | LCancel nat
  | LReceive nat bool
  | LRespond bytes bid_status
  | LCallback nat bid_status
  | LTake nat bid_status

inductive prov_step ::
  "(prov_bid \<Rightarrow> bool) \<Rightarrow> (bid_status \<Rightarrow> bool) \<Rightarrow> prov_state \<Rightarrow> prov_label \<Rightarrow> prov_state \<Rightarrow> bool"
  for validBid validResponse where
  process: "\<not> ps_crashed s \<Longrightarrow> validBid (to_prov_bid b) \<Longrightarrow>
     prov_step validBid validResponse s (LProcess b) (ProcessBid_register b s)"
| cancel: "\<not> ps_crashed s \<Longrightarrow> ps_offering s k = Some m \<Longrightarrow>
     prov_step validBid validResponse s (LCancel k) (ProcessBid_cancel k s)"
| receive: "\<not> ps_crashed s \<Longrightarrow> ps_offering s k = Some m \<Longrightarrow>
     prov_step validBid validResponse s (LReceive k sent) (ReceiveBids_take k sent s)"
| respond: "\<not> ps_crashed s \<Longrightarrow> validResponse st \<Longrightarrow>
     prov_step validBid validResponse s (LRespond d st) (SendProcessedBids_lookup d st s)"
| callback: "\<not> ps_crashed s \<Longrightarrow> (k, st) \<in> set (ps_calling s) \<Longrightarrow> callback_run k st s = Some s' \<Longrightarrow>
     prov_step validBid validResponse s (LCallback k st) s'"
| take_status: "\<not> ps_crashed s \<Longrightarrow> k < ps_next s \<Longrightarrow> ps_offering s k = None \<Longrightarrow>
     status_take k s = Some (st, s') \<Longrightarrow>
     prov_step validBid validResponse s (LTake k st) s'"

definition prov_start :: "prov_state \<Rightarrow> bool" where
  "prov_start s \<longleftrightarrow> s = new_prov_state"

section \<open>The invariant\<close>

text \<open>
  Every channel has at most one user: the map entry of its own digest, or one callback on
  its way. Until the callback runs the channel is new; what a channel holds was a response
  to its digest.
\<close>

definition prov_inv :: "prov_state \<Rightarrow> bool" where
  "prov_inv s \<longleftrightarrow>
     \<not> ps_crashed s \<and>
     (\<forall>d k. bidsInProcess s d = Some k \<longrightarrow>
        k < ps_next s \<and> ps_chans s k = new_chan \<and> k \<notin> fst ` set (ps_calling s) \<and>
        ps_digest s k = d) \<and>
     (\<forall>k st. (k, st) \<in> set (ps_calling s) \<longrightarrow>
        k < ps_next s \<and> ps_chans s k = new_chan \<and> (ps_digest s k, st) \<in> set (ps_responses s)) \<and>
     distinct (map fst (ps_calling s)) \<and>
     (\<forall>k st. st \<in> set (ch_buf (ps_chans s k)) \<longrightarrow>
        k < ps_next s \<and> (ps_digest s k, st) \<in> set (ps_responses s)) \<and>
     (\<forall>k m. ps_offering s k = Some m \<longrightarrow>
        k < ps_next s \<and> bval (pb_BidDigest m) = ps_digest s k)"

lemma prov_inv_mapD:
  assumes "prov_inv s" "bidsInProcess s d = Some k"
  shows "k < ps_next s" "ps_chans s k = new_chan" "k \<notin> fst ` set (ps_calling s)" "ps_digest s k = d"
  using assms by (auto simp: prov_inv_def)

lemma prov_inv_callingD:
  assumes "prov_inv s" "(k, st) \<in> set (ps_calling s)"
  shows "k < ps_next s" "ps_chans s k = new_chan" "(ps_digest s k, st) \<in> set (ps_responses s)"
  using assms by (auto simp: prov_inv_def)

lemma prov_inv_bufD:
  assumes "prov_inv s" "st \<in> set (ch_buf (ps_chans s k))"
  shows "k < ps_next s" "(ps_digest s k, st) \<in> set (ps_responses s)"
  using assms by (auto simp: prov_inv_def)

lemma prov_inv_offerD:
  assumes "prov_inv s" "ps_offering s k = Some m"
  shows "k < ps_next s" "bval (pb_BidDigest m) = ps_digest s k"
  using assms by (auto simp: prov_inv_def)

lemma prov_inv_map_inj:
  "prov_inv s \<Longrightarrow> bidsInProcess s d = Some k \<Longrightarrow> bidsInProcess s d' = Some k \<Longrightarrow> d = d'"
  by (metis prov_inv_mapD(4))

lemma prov_inv_start: "prov_start s \<Longrightarrow> prov_inv s"
  by (simp add: prov_start_def prov_inv_def new_prov_state_def)

lemma prov_inv_register:
  assumes "prov_inv s"
  shows "prov_inv (ProcessBid_register b s)"
proof -
  from assms have fresh: "\<And>st. (ps_next s, st) \<notin> set (ps_calling s)"
    by (auto simp: prov_inv_def)
  with assms show ?thesis
    by (auto simp: prov_inv_def ProcessBid_register_def to_prov_bid_def Let_def less_Suc_eq
        image_iff)
qed

lemma prov_inv_cancel: "prov_inv s \<Longrightarrow> prov_inv (ProcessBid_cancel k s)"
  by (auto simp: prov_inv_def ProcessBid_cancel_def split: option.splits)

lemma prov_inv_receive: "prov_inv s \<Longrightarrow> prov_inv (ReceiveBids_take k sent s)"
  by (auto simp: prov_inv_def ReceiveBids_take_def split: option.splits)

lemma prov_inv_lookup: "prov_inv s \<Longrightarrow> prov_inv (SendProcessedBids_lookup d st s)"
proof (cases "bidsInProcess s d")
  case None
  assume "prov_inv s"
  with None show ?thesis by (auto simp: prov_inv_def SendProcessedBids_lookup_def Let_def)
next
  case (Some k)
  assume inv: "prov_inv s"
  note k = prov_inv_mapD [OF inv Some]
  have "bidsInProcess s d' \<noteq> Some k" if "d' \<noteq> d" for d'
    using prov_inv_map_inj [OF inv Some] that by blast
  with inv k Some show ?thesis
    by (auto simp: prov_inv_def SendProcessedBids_lookup_def Let_def)
qed

lemma callback_runs:
  assumes "prov_inv s" and "(k, st) \<in> set (ps_calling s)"
  shows "callback_run k st s =
    Some (s\<lparr> ps_chans := (ps_chans s)(k := \<lparr> ch_buf = [st], ch_closed = True \<rparr>),
             ps_calling := remove1 (k, st) (ps_calling s),
             BidsAcceptedByProviderCount :=
               BidsAcceptedByProviderCount s + (if st = STATUS_ACCEPTED then 1 else 0),
             BidsRejectedByProviderCount :=
               BidsRejectedByProviderCount s + (if st = STATUS_ACCEPTED then 0 else 1) \<rparr>)"
proof -
  from assms have "ps_chans s k = new_chan" by (auto simp: prov_inv_def)
  then show ?thesis
    by (simp add: callback_run_def chan_send_def chan_close_def new_chan_def)
qed

lemma fst_remove1_notin:
  "distinct (map fst xs) \<Longrightarrow> (k, v) \<in> set xs \<Longrightarrow> k \<notin> fst ` set (remove1 (k, v) xs)"
  by (induction xs) (auto simp: image_iff)

lemma distinct_map_remove1: "distinct (map f xs) \<Longrightarrow> distinct (map f (remove1 x xs))"
  by (induction xs) (auto simp: image_iff dest: set_remove1_subset [THEN subsetD])

lemma prov_inv_callback:
  assumes inv: "prov_inv s" and mem: "(k, st) \<in> set (ps_calling s)"
    and run: "callback_run k st s = Some s'"
  shows "prov_inv s'"
proof -
  let ?c = "remove1 (k, st) (ps_calling s)"
  let ?ch = "(ps_chans s)(k := \<lparr> ch_buf = [st], ch_closed = True \<rparr>)"
  from inv have d: "distinct (map fst (ps_calling s))" by (simp add: prov_inv_def)
  have sub: "set ?c \<subseteq> set (ps_calling s)" by (rule set_remove1_subset)
  have s': "bidsInProcess s' = bidsInProcess s" "ps_chans s' = ?ch" "ps_next s' = ps_next s"
    "ps_offering s' = ps_offering s" "ps_calling s' = ?c" "ps_crashed s' = ps_crashed s"
    "ps_digest s' = ps_digest s" "ps_responses s' = ps_responses s"
    using run by (auto simp: callback_runs [OF inv mem])
  have "k' < ps_next s \<and> ?ch k' = new_chan \<and> k' \<notin> fst ` set ?c \<and> ps_digest s k' = dg"
    if "bidsInProcess s dg = Some k'" for dg k'
    using prov_inv_mapD [OF inv that] mem sub by force
  moreover have "k' < ps_next s \<and> ?ch k' = new_chan \<and> (ps_digest s k', st') \<in> set (ps_responses s)"
    if "(k', st') \<in> set ?c" for k' st'
  proof -
    from that sub have "(k', st') \<in> set (ps_calling s)" by blast
    moreover from that fst_remove1_notin [OF d mem] have "k' \<noteq> k" by force
    ultimately show ?thesis using prov_inv_callingD [OF inv] by simp
  qed
  moreover have "k' < ps_next s \<and> (ps_digest s k', st') \<in> set (ps_responses s)"
    if "st' \<in> set (ch_buf (?ch k'))" for k' st'
    using that prov_inv_bufD [OF inv] prov_inv_callingD [OF inv mem] by (cases "k' = k") auto
  ultimately show ?thesis
    unfolding prov_inv_def s' using inv d
    by (simp add: distinct_map_remove1 prov_inv_def)
qed

lemma prov_inv_take:
  assumes inv: "prov_inv s" and take: "status_take k s = Some (st, s')"
  shows "prov_inv s'"
proof (cases "ch_buf (ps_chans s k)")
  case Nil
  with take inv show ?thesis by (auto simp: status_take_def split: if_splits)
next
  case (Cons x xs)
  let ?ch = "(ps_chans s)(k := (ps_chans s k)\<lparr> ch_buf := xs \<rparr>)"
  from Cons have n: "ps_chans s k \<noteq> new_chan" by auto
  from take Cons have s': "s' = s\<lparr> ps_chans := ?ch \<rparr>" by (simp add: status_take_def)
  have "set (ch_buf (?ch k')) \<subseteq> set (ch_buf (ps_chans s k'))" for k'
    using Cons by (cases "k' = k") auto
  then have "k' < ps_next s \<and> (ps_digest s k', st') \<in> set (ps_responses s)"
    if "st' \<in> set (ch_buf (?ch k'))" for k' st'
    using that prov_inv_bufD [OF inv] by blast
  with inv n show ?thesis unfolding s' by (auto simp: prov_inv_def)
qed

lemma prov_inv_step:
  assumes "prov_step vb vr s l s'" and "prov_inv s"
  shows "prov_inv s'"
  using assms
  by (induction rule: prov_step.induct)
     (auto intro: prov_inv_register prov_inv_cancel prov_inv_receive prov_inv_lookup
        prov_inv_callback prov_inv_take)

interpretation provider: invariant_system prov_start "prov_step vb vr" prov_inv
  for vb vr
  by unfold_locales (auto intro: prov_inv_start prov_inv_step)

section \<open>Orphaned channels\<close>

text \<open>
  A channel that neither the map nor a running callback refers to will never hold a
  status: its handler can only wait for the end of its context.
\<close>

definition orphaned :: "nat \<Rightarrow> prov_state \<Rightarrow> bool" where
  "orphaned k s \<longleftrightarrow>
     k < ps_next s \<and> ps_chans s k = new_chan \<and> k \<notin> ran (bidsInProcess s) \<and>
     k \<notin> fst ` set (ps_calling s)"

lemma orphaned_no_status: "orphaned k s \<Longrightarrow> status_take k s = None"
  by (simp add: orphaned_def status_take_def)

lemma ran_upd_None: "x \<notin> ran m \<Longrightarrow> x \<notin> ran (m(k := None))"
  by (auto simp: ran_def)

lemma orphaned_callback:
  assumes "orphaned k s" "(k', st) \<in> set (ps_calling s)" "callback_run k' st s = Some s'"
  shows "orphaned k s'"
proof -
  from assms have "k' \<noteq> k" by (force simp: orphaned_def)
  with assms show ?thesis
    by (auto simp: orphaned_def callback_run_def image_iff
        split: send_result.splits outcome.splits dest: notin_set_remove1)
qed

lemma orphaned_step:
  assumes "prov_step vb vr s l s'" and "orphaned k s"
  shows "orphaned k s'"
  using assms
proof (induction rule: prov_step.induct)
  case (process s b)
  then show ?case
    by (auto simp: orphaned_def ProcessBid_register_def Let_def ran_def split: if_splits)
next
  case (cancel s k' m)
  then show ?case by (auto simp: orphaned_def ProcessBid_cancel_def ran_upd_None)
next
  case (receive s k' m sent)
  then show ?case by (simp add: orphaned_def ReceiveBids_take_def)
next
  case (respond s st d)
  then have "bidsInProcess s d \<noteq> Some k" by (auto simp: orphaned_def ran_def)
  with respond show ?case
    by (cases "bidsInProcess s d")
       (auto simp: orphaned_def SendProcessedBids_lookup_def Let_def ran_upd_None)
next
  case (callback s k' st s')
  then show ?case by (auto intro: orphaned_callback)
next
  case (take_status s k' st s')
  then show ?case
    by (auto simp: orphaned_def status_take_def split: list.splits if_splits)
qed

lemma orphaned_steps: "steps (prov_step vb vr) s ls t \<Longrightarrow> orphaned k s \<Longrightarrow> orphaned k t"
  by (induction rule: steps.induct) (auto intro: orphaned_step)

lemma resubmission_orphans:
  assumes inv: "prov_inv s" and reg: "bidsInProcess s (bval (Digest b)) = Some k"
  shows "orphaned k (ProcessBid_register b s)"
proof -
  note k = prov_inv_mapD [OF inv reg]
  have "bidsInProcess s d = Some k \<Longrightarrow> d = bval (Digest b)" for d
    using prov_inv_map_inj [OF inv _ reg] .
  with k show ?thesis
    by (auto simp: orphaned_def ProcessBid_register_def Let_def ran_def)
qed


text \<open>
  A cancelled \<open>ProcessBid\<close> deletes the entry of its digest, whoever registered it last.
\<close>

lemma cancel_orphans:
  assumes inv: "prov_inv s" and off: "ps_offering s k = Some m"
    and reg: "bidsInProcess s (ps_digest s k) = Some k'"
  shows "orphaned k' (ProcessBid_cancel k s)"
proof -
  note k = prov_inv_mapD [OF inv reg]
  have d: "bval (pb_BidDigest m) = ps_digest s k" by (rule prov_inv_offerD [OF inv off])
  have "bidsInProcess s d = Some k' \<Longrightarrow> d = ps_digest s k" for d
    using prov_inv_map_inj [OF inv _ reg] .
  with k off d show ?thesis
    by (auto simp: orphaned_def ProcessBid_cancel_def ran_def)
qed

end
