(* ===== verification/Tx_Monitor.thy ===== *)
theory Tx_Monitor
  imports Evm_Types
begin

text \<open>
  \<open>pkg/evmclient/txmonitor.go\<close>: the map of waiters, the two loops that watch the chain
  and fetch receipts, and shutdown. The operations under the mutex are functions on the
  monitor's state. The goroutines are a transition system: a check takes its snapshot,
  fetches receipts and notifies in separate steps, and shutdown may come between them.
\<close>

section \<open>State\<close>

text \<open>\<open>Result\<close>: a receipt or an error.\<close>

datatype tx_result = TxReceipt receipt | TxErr go_error

text \<open>
  A channel is named by a number; all channels have capacity 1. \<open>tm_fault\<close> records a send
  that panicked (on a closed channel) or would block for ever with the mutex held.
\<close>

datatype fault = NoFault | Panicked | Deadlocked

record txmonitor =
  waitMap :: "u64 \<rightharpoonup> (hash \<rightharpoonup> nat list)"
  tm_chans :: "nat \<Rightarrow> tx_result chan"
  tm_next :: nat
  lastConfirmedNonce :: u64
  tm_fault :: fault

definition newTxMonitor :: txmonitor where
  "newTxMonitor =
     \<lparr> waitMap = Map.empty, tm_chans = (\<lambda>_. new_chan), tm_next = 0,
       lastConfirmedNonce = 0, tm_fault = NoFault \<rparr>"

definition maxSentTxs :: u64 where
  "maxSentTxs = 1024"

definition batchSize :: nat where
  "batchSize = 64"

section \<open>Operations under the mutex\<close>

definition waiters :: "txmonitor \<Rightarrow> u64 \<Rightarrow> hash \<Rightarrow> nat list" where
  "waiters t nonce txn =
     (case waitMap t nonce of
        None \<Rightarrow> []
      | Some v \<Rightarrow> (case v txn of None \<Rightarrow> [] | Some cs \<Rightarrow> cs))"

definition allowNonce :: "u64 \<Rightarrow> txmonitor \<Rightarrow> bool" where
  "allowNonce nonce t \<longleftrightarrow> nonce \<le> lastConfirmedNonce t + maxSentTxs"

text \<open>
  \<open>watchTx\<close> registers a new channel and wakes the watch loop if it is listening; it
  always succeeds.
\<close>

definition watchTx :: "hash \<Rightarrow> u64 \<Rightarrow> txmonitor \<Rightarrow> nat \<times> txmonitor" where
  "watchTx txHash nonce t =
     (let v = (case waitMap t nonce of None \<Rightarrow> Map.empty | Some v \<Rightarrow> v);
          c = tm_next t
      in (c, t\<lparr> waitMap := (waitMap t)(nonce \<mapsto>
                  v(txHash \<mapsto> (case v txHash of None \<Rightarrow> [] | Some cs \<Rightarrow> cs) @ [c])),
                tm_chans := (tm_chans t)(c := new_chan),
                tm_next := Suc c \<rparr>))"

text \<open>One \<open>c <- res; close(c)\<close>; after a fault nothing more happens.\<close>

definition send_close :: "tx_result \<Rightarrow> nat \<Rightarrow> txmonitor \<Rightarrow> txmonitor" where
  "send_close res c t =
     (if tm_fault t \<noteq> NoFault then t
      else case chan_send 1 (tm_chans t c) res of
             SendPanic \<Rightarrow> t\<lparr> tm_fault := Panicked \<rparr>
           | SendBlock \<Rightarrow> t\<lparr> tm_fault := Deadlocked \<rparr>
           | Sent ch \<Rightarrow>
              (case chan_close ch of
                 Ok ch' \<Rightarrow> t\<lparr> tm_chans := (tm_chans t)(c := ch') \<rparr>
               | _ \<Rightarrow> t\<lparr> tm_fault := Panicked \<rparr>))"

definition send_all :: "tx_result \<Rightarrow> nat list \<Rightarrow> txmonitor \<Rightarrow> txmonitor" where
  "send_all res cs t = fold (send_close res) cs t"

definition notify :: "u64 \<Rightarrow> hash \<Rightarrow> tx_result \<Rightarrow> txmonitor \<Rightarrow> txmonitor" where
  "notify nonce txn res t =
     (let t' = send_all res (waiters t nonce txn) t
      in if tm_fault t' \<noteq> NoFault then t'
         else case waitMap t' nonce of
                None \<Rightarrow> t'
              | Some v \<Rightarrow>
                  (let v' = v(txn := None)
                   in if v' = Map.empty
                      then t'\<lparr> waitMap := (waitMap t')(nonce := None) \<rparr>
                      else t'\<lparr> waitMap := (waitMap t')(nonce \<mapsto> v') \<rparr>))"

text \<open>
  \<open>getOlderTxns\<close> collects the transactions with a nonce below the given one. Go builds a
  map from nonces to hash lists and visits it in any order, so the result is any list of
  groups that fits; \<open>older_groups\<close> says which fit.
\<close>

definition older_groups :: "txmonitor \<Rightarrow> u64 \<Rightarrow> (u64 \<times> hash list) list \<Rightarrow> bool" where
  "older_groups t nonce gs \<longleftrightarrow>
     enumerates (map fst gs)
       {k. k < nonce \<and> (\<exists>v. waitMap t k = Some v \<and> dom v \<noteq> {})} \<and>
     (\<forall>(k, hs) \<in> set gs. \<exists>v. waitMap t k = Some v \<and> enumerates hs (dom v))"

section \<open>The check: batches of receipts\<close>

datatype batch_elem = BError go_error | BResult "receipt option"

text \<open>
  The work of one check before any notification: the hashes in visiting order, and the
  nonce of each (a later entry of the loop overwrites an earlier one).
\<close>

definition check_hashes :: "(u64 \<times> hash list) list \<Rightarrow> hash list" where
  "check_hashes gs = concat (map snd gs)"

definition check_nonces :: "(u64 \<times> hash list) list \<Rightarrow> hash \<rightharpoonup> u64" where
  "check_nonces gs = fold (\<lambda>(n, hs) m. fold (\<lambda>h m. m(h \<mapsto> n)) hs m) gs Map.empty"

text \<open>
  What one answered element leads to: a notification or nothing. A receipt that is not
  found means that another transaction took the nonce. (\<open>nonceMap[tHash]\<close> of a missing
  key would be 0.)
\<close>

definition elem_notice :: "hash \<Rightarrow> batch_elem \<Rightarrow> tx_result option" where
  "elem_notice tHash e =
     (case e of
        BError err \<Rightarrow>
          if errors_is err ErrNotFound then Some (TxErr (Err_Sentinel ErrTxnCancelled)) else None
      | BResult None \<Rightarrow> None
      | BResult (Some r) \<Rightarrow> Some (TxReceipt r))"

text \<open>
  Any other error is logged with a trace when the client is a \<open>Debugger\<close> (\<open>dbg\<close>) and tracing
  succeeds. \<open>None\<close>: nothing is logged; \<open>Some None\<close>: a log line with a nil trace.
\<close>

definition failure_trace ::
  "(hash \<Rightarrow> transaction_trace outcome) option \<Rightarrow> hash \<Rightarrow> batch_elem \<Rightarrow> transaction_trace option option" where
  "failure_trace dbg tHash e =
     (case e of
        BResult _ \<Rightarrow> None
      | BError err \<Rightarrow>
          if errors_is err ErrNotFound then None
          else Some (case dbg of
                       None \<Rightarrow> None
                     | Some trace \<Rightarrow> (case trace tHash of Ok t \<Rightarrow> Some t | _ \<Rightarrow> None)))"

text \<open>An element is notified, logged, or (a missing receipt) left for the next check.\<close>

lemma elem_outcomes:
  "elem_notice h e = None \<or> failure_trace dbg h e = None"
  "elem_notice h e = None \<and> failure_trace dbg h e = None \<longleftrightarrow> e = BResult None"
  by (auto simp: elem_notice_def failure_trace_def split: batch_elem.splits option.splits)

definition nonce_of :: "(hash \<rightharpoonup> u64) \<Rightarrow> hash \<Rightarrow> u64" where
  "nonce_of m h = (case m h of None \<Rightarrow> 0 | Some n \<Rightarrow> n)"

text \<open>
  The loop over the batches: \<open>fetch\<close> answers a batch with an error, which ends the check,
  or an element per index. The loop advances by \<open>batchSize\<close>.
\<close>

function check_loop ::
  "(hash list \<Rightarrow> go_error + (nat \<Rightarrow> batch_elem)) \<Rightarrow> (hash \<rightharpoonup> u64) \<Rightarrow> hash list \<Rightarrow> nat \<Rightarrow>
     (u64 \<times> hash \<times> tx_result) list" where
  "check_loop fetch nonceMap txHashes start =
     (if start < length txHashes then
        let stop = min (start + batchSize) (length txHashes);
            batch = take (stop - start) (drop start txHashes)
        in case fetch batch of
             Inl _ \<Rightarrow> []
           | Inr elem \<Rightarrow>
               List.map_filter
                 (\<lambda>(i, h). map_option (\<lambda>r. (nonce_of nonceMap h, h, r)) (elem_notice h (elem i)))
                 (enumerate 0 batch)
               @ check_loop fetch nonceMap txHashes (start + batchSize)
      else [])"
  by pat_completeness auto
termination
  by (relation "measure (\<lambda>(f, m, hs, start). length hs - start)") (auto simp: batchSize_def)

declare check_loop.simps [simp del]

definition check_notices ::
  "(hash list \<Rightarrow> go_error + (nat \<Rightarrow> batch_elem)) \<Rightarrow> (u64 \<times> hash list) list \<Rightarrow>
     (u64 \<times> hash \<times> tx_result) list" where
  "check_notices fetch gs =
     (if gs = [] then [] else check_loop fetch (check_nonces gs) (check_hashes gs) 0)"

definition run_notices :: "(u64 \<times> hash \<times> tx_result) list \<Rightarrow> txmonitor \<Rightarrow> txmonitor" where
  "run_notices ns t = fold (\<lambda>(n, h, r). notify n h r) ns t"

definition check ::
  "(hash list \<Rightarrow> go_error + (nat \<Rightarrow> batch_elem)) \<Rightarrow> (u64 \<times> hash list) list \<Rightarrow> txmonitor \<Rightarrow> txmonitor" where
  "check fetch gs t = run_notices (check_notices fetch gs) t"

section \<open>The watch loop and shutdown\<close>

text \<open>
  One turn of \<open>watchLoop\<close>: \<open>newTx\<close> is whether \<open>watchTx\<close> woke it (else the ticker did).
  The result is the loop's last block, the monitor, and the nonce and block it offers to the
  checker. Any error leaves everything as it was.
\<close>

definition watch_turn ::
  "go_error + u64 \<Rightarrow> (u64 \<Rightarrow> go_error + u64) \<Rightarrow> bool \<Rightarrow> u64 \<Rightarrow> txmonitor \<Rightarrow>
     u64 \<times> txmonitor \<times> (u64 \<times> u64) option" where
  "watch_turn blockNumber nonceAt newTx lastBlock t =
     (case blockNumber of
        Inl _ \<Rightarrow> (lastBlock, t, None)
      | Inr currentBlock \<Rightarrow>
          if currentBlock \<le> lastBlock \<and> \<not> newTx then (lastBlock, t, None)
          else (case nonceAt currentBlock of
                  Inl _ \<Rightarrow> (lastBlock, t, None)
                | Inr lastNonce \<Rightarrow>
                    (currentBlock, t\<lparr> lastConfirmedNonce := lastNonce \<rparr>,
                     Some (lastNonce, currentBlock))))"

text \<open>
  When the watch loop ends it sends \<open>ErrMonitorClosed\<close> to every waiting channel and closes
  it. The map keeps its entries.
\<close>

definition waiting_chans :: "txmonitor \<Rightarrow> nat set" where
  "waiting_chans t = {c. \<exists>n h. c \<in> set (waiters t n h)}"

definition drain :: "nat list \<Rightarrow> txmonitor \<Rightarrow> txmonitor" where
  "drain cs t = send_all (TxErr (Err_Sentinel ErrMonitorClosed)) cs t"

section \<open>The goroutines\<close>

text \<open>
  \<open>ms_check\<close> is a nonce the checker has received and not looked at, \<open>ms_todo\<close> the
  notifications it has still to make, \<open>ms_drained\<close> whether the watch loop has ended.
\<close>

record mon_state =
  ms_mon :: txmonitor
  ms_lastBlock :: u64
  ms_check :: "u64 option"
  ms_todo :: "(u64 \<times> hash \<times> tx_result) list"
  ms_drained :: bool

definition mon_start :: "mon_state \<Rightarrow> bool" where
  "mon_start s \<longleftrightarrow>
     s = \<lparr> ms_mon = newTxMonitor, ms_lastBlock = 0, ms_check = None, ms_todo = [],
           ms_drained = False \<rparr>"

datatype mon_label =
    MWatch hash u64
  | MTurn bool
  | MSnapshot
  | MNotify
  | MDrain

inductive mon_step :: "mon_state \<Rightarrow> mon_label \<Rightarrow> mon_state \<Rightarrow> bool" where
  watch: "tm_fault (ms_mon s) = NoFault \<Longrightarrow>
     mon_step s (MWatch h n) (s\<lparr> ms_mon := snd (watchTx h n (ms_mon s)) \<rparr>)"
| turn: "tm_fault (ms_mon s) = NoFault \<Longrightarrow> \<not> ms_drained s \<Longrightarrow>
     watch_turn bn na newTx (ms_lastBlock s) (ms_mon s) = (b, t, upd) \<Longrightarrow>
     chk = ms_check s \<or> ms_check s = None \<and> ms_todo s = [] \<and> chk = map_option fst upd \<Longrightarrow>
     mon_step s (MTurn newTx) (s\<lparr> ms_mon := t, ms_lastBlock := b, ms_check := chk \<rparr>)"
| snapshot: "tm_fault (ms_mon s) = NoFault \<Longrightarrow> ms_check s = Some n \<Longrightarrow> ms_todo s = [] \<Longrightarrow>
     older_groups (ms_mon s) n gs \<Longrightarrow>
     mon_step s MSnapshot (s\<lparr> ms_check := None, ms_todo := check_notices fetch gs \<rparr>)"
| notice: "tm_fault (ms_mon s) = NoFault \<Longrightarrow> ms_todo s = (n, h, r) # rest \<Longrightarrow>
     mon_step s MNotify (s\<lparr> ms_mon := notify n h r (ms_mon s), ms_todo := rest \<rparr>)"
| drain: "tm_fault (ms_mon s) = NoFault \<Longrightarrow> \<not> ms_drained s \<Longrightarrow>
     enumerates cs (waiting_chans (ms_mon s)) \<Longrightarrow>
     mon_step s MDrain (s\<lparr> ms_mon := drain cs (ms_mon s), ms_drained := True \<rparr>)"

text \<open>
  \<open>Close\<close> cancels the context, which lets both loops end, and waits for them at most ten
  seconds; \<open>ended\<close> says whether they end in time.
\<close>

definition txmonitor_Close :: "bool \<Rightarrow> unit outcome" where
  "txmonitor_Close ended =
     (if ended then Ok () else Fail (Err_Msg ''failed to close txmonitor''))"

section \<open>Notifications\<close>

lemma send_close_new:
  "tm_fault t = NoFault \<Longrightarrow> tm_chans t c = new_chan \<Longrightarrow>
     send_close r c t =
       t\<lparr> tm_chans := (tm_chans t)(c := \<lparr> ch_buf = [r], ch_closed = True \<rparr>) \<rparr>"
  by (simp add: send_close_def chan_send_def chan_close_def new_chan_def)

lemma send_close_closed:
  "tm_fault t = NoFault \<Longrightarrow> ch_closed (tm_chans t c) \<Longrightarrow>
     send_close r c t = t\<lparr> tm_fault := Panicked \<rparr>"
  by (simp add: send_close_def chan_send_def)

lemma send_all_new:
  assumes "tm_fault t = NoFault" "distinct cs" "\<forall>c \<in> set cs. tm_chans t c = new_chan"
  shows "send_all r cs t =
    t\<lparr> tm_chans := (\<lambda>c. if c \<in> set cs then \<lparr> ch_buf = [r], ch_closed = True \<rparr>
                         else tm_chans t c) \<rparr>"
  using assms
proof (induction cs arbitrary: t)
  case Nil
  then show ?case by (simp add: send_all_def)
next
  case (Cons c cs)
  let ?t = "t\<lparr> tm_chans := (tm_chans t)(c := \<lparr> ch_buf = [r], ch_closed = True \<rparr>) \<rparr>"
  from Cons.prems have "send_all r (c # cs) t = send_all r cs ?t"
    by (simp add: send_all_def send_close_new)
  also have "\<dots> = ?t\<lparr> tm_chans := (\<lambda>d. if d \<in> set cs then \<lparr> ch_buf = [r], ch_closed = True \<rparr>
                                     else tm_chans ?t d) \<rparr>"
    using Cons.prems by (intro Cons.IH) auto
  also have "\<dots> = t\<lparr> tm_chans := (\<lambda>d. if d \<in> set (c # cs) then \<lparr> ch_buf = [r], ch_closed = True \<rparr>
                                    else tm_chans t d) \<rparr>"
    by (auto simp: fun_eq_iff)
  finally show ?case .
qed

text \<open>The monitor's invariant: every registered channel is new and registered once.\<close>

definition tm_inv :: "txmonitor \<Rightarrow> bool" where
  "tm_inv t \<longleftrightarrow>
     tm_fault t = NoFault \<and>
     (\<forall>n h. distinct (waiters t n h)) \<and>
     (\<forall>n h c. c \<in> set (waiters t n h) \<longrightarrow> c < tm_next t \<and> tm_chans t c = new_chan) \<and>
     (\<forall>n h n' h' c. c \<in> set (waiters t n h) \<longrightarrow> c \<in> set (waiters t n' h') \<longrightarrow> n = n' \<and> h = h')"

lemma tm_invD:
  assumes "tm_inv t"
  shows "tm_fault t = NoFault" "distinct (waiters t n h)"
    and "c \<in> set (waiters t n h) \<Longrightarrow> c < tm_next t"
    and "c \<in> set (waiters t n h) \<Longrightarrow> tm_chans t c = new_chan"
    and "c \<in> set (waiters t n h) \<Longrightarrow> c \<in> set (waiters t n' h') \<Longrightarrow> n = n' \<and> h = h'"
  using assms unfolding tm_inv_def by blast+

lemma tm_invI:
  assumes "tm_fault t = NoFault" "\<And>n h. distinct (waiters t n h)"
    and "\<And>n h c. c \<in> set (waiters t n h) \<Longrightarrow> c < tm_next t \<and> tm_chans t c = new_chan"
    and "\<And>n h n' h' c. c \<in> set (waiters t n h) \<Longrightarrow> c \<in> set (waiters t n' h') \<Longrightarrow> n = n' \<and> h = h'"
  shows "tm_inv t"
  using assms unfolding tm_inv_def by blast

lemma waiters_watchTx:
  "waiters (snd (watchTx h n t)) n' h' =
     waiters t n' h' @ (if n' = n \<and> h' = h then [tm_next t] else [])"
  by (auto simp: waiters_def watchTx_def Let_def split: option.splits)

lemma watchTx_sel [simp]:
  "fst (watchTx h n t) = tm_next t"
  "tm_chans (snd (watchTx h n t)) = (tm_chans t)(tm_next t := new_chan)"
  "tm_next (snd (watchTx h n t)) = Suc (tm_next t)"
  "tm_fault (snd (watchTx h n t)) = tm_fault t"
  "lastConfirmedNonce (snd (watchTx h n t)) = lastConfirmedNonce t"
  by (simp_all add: watchTx_def Let_def)

lemma tm_inv_new: "tm_inv newTxMonitor"
  by (simp add: tm_inv_def newTxMonitor_def waiters_def)

lemma tm_inv_watchTx:
  assumes "tm_inv t"
  shows "tm_inv (snd (watchTx h n t))"
proof (rule tm_invI)
  note inv = tm_invD [OF assms]
  have fresh: "tm_next t \<notin> set (waiters t n' h')" for n' h'
    using inv(3) by blast
  show "tm_fault (snd (watchTx h n t)) = NoFault" by (simp add: inv)
  show "distinct (waiters (snd (watchTx h n t)) n' h')" for n' h'
    using fresh inv(2) by (cases "n' = n \<and> h' = h") (auto simp: waiters_watchTx)
  show "c < tm_next (snd (watchTx h n t)) \<and> tm_chans (snd (watchTx h n t)) c = new_chan"
    if "c \<in> set (waiters (snd (watchTx h n t)) n' h')" for n' h' c
    using that inv(3,4) by (auto simp: waiters_watchTx less_Suc_eq split: if_splits)
  show "n1 = n2 \<and> h1 = h2"
    if "c \<in> set (waiters (snd (watchTx h n t)) n1 h1)"
      "c \<in> set (waiters (snd (watchTx h n t)) n2 h2)" for n1 h1 n2 h2 c
    using that fresh inv(5) by (auto simp: waiters_watchTx split: if_splits)
qed


text \<open>
  What \<open>notify\<close> does when the invariant holds: each waiter of the transaction gets the
  result once and is closed, the transaction is unregistered, nothing else changes.
\<close>

abbreviation answered :: "tx_result \<Rightarrow> tx_result chan" where
  "answered r \<equiv> \<lparr> ch_buf = [r], ch_closed = True \<rparr>"

lemma waiters_chans_upd [simp]: "waiters (t\<lparr> tm_chans := cs \<rparr>) n h = waiters t n h"
  by (simp add: waiters_def)

lemma send_all_waiters:
  assumes "tm_inv t"
  shows "send_all r (waiters t n h) t =
    t\<lparr> tm_chans := (\<lambda>c. if c \<in> set (waiters t n h) then answered r else tm_chans t c) \<rparr>"
  using tm_invD [OF assms] by (intro send_all_new) auto

lemma notify_sel:
  assumes "tm_inv t"
  shows "tm_fault (notify n h r t) = NoFault"
    and "tm_next (notify n h r t) = tm_next t"
    and "tm_chans (notify n h r t) =
           (\<lambda>c. if c \<in> set (waiters t n h) then answered r else tm_chans t c)"
    and "lastConfirmedNonce (notify n h r t) = lastConfirmedNonce t"
  using tm_invD(1) [OF assms]
  by (simp_all add: notify_def send_all_waiters [OF assms] Let_def split: option.split)

lemma notify_waiters:
  assumes "tm_inv t"
  shows "waiters (notify n h r t) n' h' = (if n' = n \<and> h' = h then [] else waiters t n' h')"
proof (cases "waitMap t n")
  case None
  then show ?thesis
    using tm_invD(1) [OF assms]
    by (auto simp: notify_def send_all_waiters [OF assms] Let_def) (simp add: waiters_def)
next
  case (Some v)
  have "v h' = None" if "v(h := None) = Map.empty" "h' \<noteq> h"
    using fun_cong [OF that(1), of h'] that(2) by simp
  with Some show ?thesis
    using tm_invD(1) [OF assms]
    by (auto simp: notify_def send_all_waiters [OF assms] Let_def) (auto simp: waiters_def)
qed

lemma tm_inv_notify:
  assumes "tm_inv t"
  shows "tm_inv (notify n h r t)"
proof (rule tm_invI)
  note inv = tm_invD [OF assms]
  note sel = notify_sel [OF assms] notify_waiters [OF assms]
  show "tm_fault (notify n h r t) = NoFault" by (rule sel)
  show "distinct (waiters (notify n h r t) n' h')" for n' h'
    by (simp add: sel inv)
  show "c < tm_next (notify n h r t) \<and> tm_chans (notify n h r t) c = new_chan"
    if "c \<in> set (waiters (notify n h r t) n' h')" for n' h' c
    using that inv(3,4,5) by (auto simp: sel split: if_splits)
  show "n1 = n2 \<and> h1 = h2"
    if "c \<in> set (waiters (notify n h r t) n1 h1)" "c \<in> set (waiters (notify n h r t) n2 h2)"
    for n1 h1 n2 h2 c
    using that inv(5) by (auto simp: sel split: if_splits)
qed

lemma tm_inv_run_notices: "tm_inv t \<Longrightarrow> tm_inv (run_notices ns t)"
  unfolding run_notices_def by (induction ns arbitrary: t) (auto intro: tm_inv_notify)

lemma watch_turn_tm:
  "watch_turn bn na newTx b0 t = (b, t', upd) \<Longrightarrow>
     t' = t \<or> (\<exists>n. t' = t\<lparr> lastConfirmedNonce := n \<rparr>)"
  by (auto simp: watch_turn_def split: sum.splits if_splits)

lemma tm_inv_lastConfirmed [simp]: "tm_inv (t\<lparr> lastConfirmedNonce := n \<rparr>) = tm_inv t"
  by (simp add: tm_inv_def waiters_def)

text \<open>Shutdown before any check is on its way answers every waiter once.\<close>

lemma drain_answers:
  assumes "tm_inv t" and "enumerates cs (waiting_chans t)"
  shows "drain cs t = t\<lparr> tm_chans := (\<lambda>c. if c \<in> waiting_chans t
           then answered (TxErr (Err_Sentinel ErrMonitorClosed)) else tm_chans t c) \<rparr>"
proof -
  have "\<forall>c \<in> set cs. tm_chans t c = new_chan"
    using enumeratesD(2) [OF assms(2)] tm_invD(4) [OF assms(1)] by (auto simp: waiting_chans_def)
  then show ?thesis
    using assms tm_invD(1) [OF assms(1)] enumeratesD [OF assms(2)]
    by (simp add: drain_def send_all_new)
qed

section \<open>The invariant of the goroutines\<close>

definition mon_inv :: "mon_state \<Rightarrow> bool" where
  "mon_inv s \<longleftrightarrow> (\<not> ms_drained s \<longrightarrow> tm_inv (ms_mon s))"

lemma mon_inv_step:
  assumes "mon_step s l s'" and "mon_inv s"
  shows "mon_inv s'"
  using assms
proof (induction rule: mon_step.induct)
  case (turn s bn na newTx b t upd chk)
  then show ?case using watch_turn_tm [OF turn(3)] by (auto simp: mon_inv_def)
qed (auto simp: mon_inv_def intro: tm_inv_watchTx tm_inv_notify)

interpretation monitor: invariant_system mon_start mon_step mon_inv
proof unfold_locales
  show "mon_inv s" if "mon_start s" for s
    using that by (simp add: mon_start_def mon_inv_def tm_inv_new)
  show "mon_inv s'" if "mon_inv s" "mon_step s l s'" for s l s'
    using that(2,1) by (rule mon_inv_step)
qed

section \<open>Batching\<close>

text \<open>
  With a batch call that answers each hash on its own, the loop over batches notifies like
  one pass over all hashes: the batch boundaries lose and repeat nothing.
\<close>

definition single_pass ::
  "(hash \<Rightarrow> batch_elem) \<Rightarrow> (hash \<rightharpoonup> u64) \<Rightarrow> hash list \<Rightarrow> (u64 \<times> hash \<times> tx_result) list" where
  "single_pass e m hs =
     List.map_filter (\<lambda>h. map_option (\<lambda>r. (nonce_of m h, h, r)) (elem_notice h (e h))) hs"

lemma map_filter_enumerate:
  "(\<And>j. j < length xs \<Longrightarrow> f (j + k, xs ! j) = g (xs ! j)) \<Longrightarrow>
     List.map_filter f (enumerate k xs) = List.map_filter g xs"
proof (induction xs arbitrary: k)
  case (Cons x xs)
  have "List.map_filter f (enumerate (Suc k) xs) = List.map_filter g xs"
    using Cons.prems [of "Suc j" for j] by (intro Cons.IH) auto
  moreover have "f (k, x) = g x" using Cons.prems [of 0] by simp
  ultimately show ?case by (simp add: List.map_filter_simps split: option.split)
qed (simp add: List.map_filter_simps)

lemma map_filter_append:
  "List.map_filter f (xs @ ys) = List.map_filter f xs @ List.map_filter f ys"
  by (simp add: List.map_filter_def)

lemma check_loop_single_pass:
  assumes "\<And>hs. length hs \<le> batchSize \<Longrightarrow> fetch hs = Inr (\<lambda>i. e (hs ! i))"
  shows "check_loop fetch m hs start = single_pass e m (drop start hs)"
proof (induction "length hs - start" arbitrary: start rule: less_induct)
  case less
  show ?case
  proof (cases "start < length hs")
    case False
    then show ?thesis by (subst check_loop.simps) (simp add: single_pass_def List.map_filter_simps)
  next
    case True
    define batch where "batch = take batchSize (drop start hs)"
    have len: "length batch \<le> batchSize" by (simp add: batch_def)
    have take: "take (min (start + batchSize) (length hs) - start) (drop start hs) = batch"
      by (simp add: batch_def min_def)
    have rest: "check_loop fetch m hs (start + batchSize) = single_pass e m (drop (start + batchSize) hs)"
      using True by (intro less) (simp add: batchSize_def)
    have "check_loop fetch m hs start =
        List.map_filter (\<lambda>(i, h). map_option (\<lambda>r. (nonce_of m h, h, r)) (elem_notice h (e (batch ! i))))
          (enumerate 0 batch) @ check_loop fetch m hs (start + batchSize)"
      using True by (subst check_loop.simps) (simp add: take assms [OF len] Let_def)
    also have "\<dots> = single_pass e m batch @ single_pass e m (drop (start + batchSize) hs)"
      by (simp add: rest single_pass_def map_filter_enumerate)
    also have "\<dots> = single_pass e m (batch @ drop batchSize (drop start hs))"
      by (simp add: single_pass_def map_filter_append add.commute)
    also have "batch @ drop batchSize (drop start hs) = drop start hs"
      unfolding batch_def by (rule append_take_drop_id)
    finally show ?thesis .
  qed
qed


section \<open>A whole check\<close>

text \<open>A result key: the first notification for a transaction decides.\<close>

definition notice_map :: "(u64 \<times> hash \<times> tx_result) list \<Rightarrow> u64 \<times> hash \<rightharpoonup> tx_result" where
  "notice_map ns = map_of (map (\<lambda>(n, h, r). ((n, h), r)) ns)"

lemma notice_map_simps [simp]:
  "notice_map [] k = None"
  "notice_map ((n, h, r) # ns) k = (if k = (n, h) then Some r else notice_map ns k)"
  by (auto simp: notice_map_def)

lemma run_notices_silent:
  "tm_inv t \<Longrightarrow> (\<And>k h. c \<notin> set (waiters t k h)) \<Longrightarrow>
     tm_chans (run_notices ns t) c = tm_chans t c"
proof (induction ns arbitrary: t)
  case (Cons x ns)
  obtain n h r where x: "x = (n, h, r)" by (cases x)
  have "tm_chans (run_notices ns (notify n h r t)) c = tm_chans (notify n h r t) c"
    using Cons.prems by (intro Cons.IH) (auto simp: notify_waiters intro: tm_inv_notify)
  with x Cons.prems show ?case by (simp add: run_notices_def notify_sel)
qed (simp add: run_notices_def)

lemma run_notices_waiter:
  "tm_inv t \<Longrightarrow> c \<in> set (waiters t k h) \<Longrightarrow>
     tm_chans (run_notices ns t) c =
       (case notice_map ns (k, h) of None \<Rightarrow> new_chan | Some r \<Rightarrow> answered r)"
proof (induction ns arbitrary: t)
  case Nil
  then show ?case by (simp add: run_notices_def tm_invD)
next
  case (Cons x ns)
  obtain n h' r where x: "x = (n, h', r)" by (cases x)
  let ?t = "notify n h' r t"
  have run: "run_notices (x # ns) t = run_notices ns ?t" by (simp add: run_notices_def x)
  have inv: "tm_inv ?t" using Cons.prems by (intro tm_inv_notify)
  show ?case
  proof (cases "n = k \<and> h' = h")
    case True
    then have "c \<notin> set (waiters ?t k1 h1)" for k1 h1
      using Cons.prems tm_invD(5) [OF Cons.prems(1)] by (auto simp: notify_waiters)
    then have "tm_chans (run_notices ns ?t) c = tm_chans ?t c"
      using inv by (intro run_notices_silent)
    with True Cons.prems show ?thesis by (simp only: run) (simp add: x notify_sel)
  next
    case False
    then have "c \<in> set (waiters ?t k h)" using Cons.prems by (auto simp: notify_waiters)
    with inv have "tm_chans (run_notices ns ?t) c =
        (case notice_map ns (k, h) of None \<Rightarrow> new_chan | Some r \<Rightarrow> answered r)"
      by (rule Cons.IH)
    with False show ?thesis by (simp only: run) (auto simp: x)
  qed
qed

lemma notice_map_single_pass:
  "notice_map (single_pass e m hs) (k, h) =
     (if h \<in> set hs \<and> nonce_of m h = k then elem_notice h (e h) else None)"
proof (induction hs)
  case (Cons x hs)
  then show ?case
    by (cases "elem_notice x (e x)")
       (auto simp: single_pass_def List.map_filter_simps)
qed (simp add: single_pass_def List.map_filter_simps)

lemma fold_upd_other: "h \<notin> set hs \<Longrightarrow> fold (\<lambda>h m. m(h \<mapsto> n)) hs m h = m h"
  by (induction hs arbitrary: m) auto

lemma fold_upd_in: "h \<in> set hs \<Longrightarrow> fold (\<lambda>h m. m(h \<mapsto> n)) hs m h = Some n"
proof (induction hs arbitrary: m)
  case (Cons x hs)
  then show ?case
    by (cases "h \<in> set hs") (auto simp: fold_upd_other fun_upd_same simp del: fun_upd_apply)
qed simp

lemma check_nonces_fold:
  assumes "\<And>k hs h. (k, hs) \<in> set gs \<Longrightarrow> h \<in> set hs \<Longrightarrow> nu h = k"
  shows "fold (\<lambda>(n, hs) m. fold (\<lambda>h m. m(h \<mapsto> n)) hs m) gs m h =
           (if h \<in> set (check_hashes gs) then Some (nu h) else m h)"
  using assms
proof (induction gs arbitrary: m)
  case (Cons g gs)
  obtain k hs where g: "g = (k, hs)" by (cases g)
  have IH: "fold (\<lambda>(n, hs) m. fold (\<lambda>h m. m(h \<mapsto> n)) hs m) gs m' h =
      (if h \<in> set (check_hashes gs) then Some (nu h) else m' h)" for m'
    using Cons.prems by (intro Cons.IH) auto
  have nu: "nu h = k" if "h \<in> set hs" using Cons.prems [of k hs h] that g by simp
  have "check_hashes (g # gs) = hs @ check_hashes gs" by (simp add: g check_hashes_def)
  moreover have "fold (\<lambda>(n, hs) m. fold (\<lambda>h m. m(h \<mapsto> n)) hs m) (g # gs) m h =
      (if h \<in> set (check_hashes gs) then Some (nu h)
       else fold (\<lambda>h m. m(h \<mapsto> k)) hs m h)"
    by (simp only: g fold_simps comp_apply prod.case IH)
  ultimately show ?case
    using nu by (cases "h \<in> set hs") (simp_all add: fold_upd_in fold_upd_other del: fun_upd_apply)
qed (simp add: check_hashes_def)

text \<open>
  The waiters below the confirmed nonce get their answer, all others stay as they were.
  \<open>nu\<close> gives the nonce a transaction hash belongs to.
\<close>

lemma check_answers_waiters:
  assumes inv: "tm_inv t" and gs: "older_groups t n gs"
    and nu: "\<And>k v h. waitMap t k = Some v \<Longrightarrow> v h \<noteq> None \<Longrightarrow> nu h = k"
    and fetch: "\<And>hs. length hs \<le> batchSize \<Longrightarrow> fetch hs = Inr (\<lambda>i. e (hs ! i))"
    and c: "c \<in> set (waiters t k h)"
  shows "tm_chans (check fetch gs t) c =
    (if k < n then case elem_notice h (e h) of None \<Rightarrow> new_chan | Some r \<Rightarrow> answered r
     else new_chan)"
proof -
  from c obtain v where v: "waitMap t k = Some v" "v h \<noteq> None"
    by (cases "waitMap t k"; cases "the (waitMap t k) h") (auto simp: waiters_def)
  have group: "\<exists>v. waitMap t k' = Some v \<and> set hs = dom v \<and> k' < n"
    if "(k', hs) \<in> set gs" for k' hs
    using gs that unfolding older_groups_def enumerates_def by force
  have grp_nu: "nu h' = k'" if "(k', hs) \<in> set gs" "h' \<in> set hs" for k' hs h'
    using group [OF that(1)] that(2) nu by blast
  have "h \<in> set (check_hashes gs) \<longleftrightarrow> k < n"
  proof
    assume "h \<in> set (check_hashes gs)"
    then obtain k' hs where g: "(k', hs) \<in> set gs" "h \<in> set hs"
      by (auto simp: check_hashes_def)
    with grp_nu have "nu h = k'" by blast
    with nu v have "k' = k" by blast
    with group [OF g(1)] show "k < n" by blast
  next
    assume "k < n"
    with v have "k \<in> set (map fst gs)"
      using gs unfolding older_groups_def enumerates_def by auto
    then obtain hs where g: "(k, hs) \<in> set gs" by auto
    with group v have "h \<in> set hs" by fastforce
    with g show "h \<in> set (check_hashes gs)" by (force simp: check_hashes_def)
  qed
  moreover have "check_nonces gs h = (if h \<in> set (check_hashes gs) then Some (nu h) else None)"
    unfolding check_nonces_def by (subst check_nonces_fold [where nu = nu]) (auto intro: grp_nu)
  moreover have "nu h = k" using nu v by blast
  moreover have "check_notices fetch gs = single_pass e (check_nonces gs) (check_hashes gs)"
    using check_loop_single_pass [where fetch = fetch and e = e and start = 0, OF fetch]
    by (simp add: check_notices_def single_pass_def check_hashes_def List.map_filter_simps)
  ultimately show ?thesis
    by (auto simp: check_def run_notices_waiter [OF inv c] notice_map_single_pass nonce_of_def)
qed

end
