(* ===== verification/Evm_Client.thy ===== *)
theory Evm_Client
  imports Tx_Monitor "HOL-Library.Multiset"
begin

text \<open>
  \<open>pkg/evmclient/evmclient.go\<close>: the client that assigns nonces, sends and cancels
  transactions, keeps the map of sent transactions and one goroutine per transaction that
  waits for its receipt. The chain (\<open>EVM\<close>, an \<open>ethclient\<close>) answers each call; its
  answers during one operation are a record.
\<close>

section \<open>The chain and the client\<close>

record call_msg =
  cm_From :: address
  cm_To :: "address option"
  cm_Data :: bytes
  cm_Gas :: u64
  cm_GasPrice :: "int option"
  cm_Value :: "int option"

record evm =
  PendingNonceAt :: "address \<Rightarrow> go_error + u64"
  EstimateGas :: "call_msg \<Rightarrow> go_error + u64"
  SuggestGasPrice :: "go_error + int"
  SuggestGasTipCap :: "go_error + int"
  SignTx :: "eth_tx \<Rightarrow> int \<Rightarrow> go_error + signed_tx"
  SendTransaction :: "signed_tx \<Rightarrow> go_error + unit"
  CallContract :: "call_msg \<Rightarrow> go_error + bytes"
  TransactionByHash :: "hash \<Rightarrow> go_error + (eth_tx \<times> bool)"

record txn_details =
  td_nonce :: u64
  td_created :: string

text \<open>
  \<open>ec_spawned\<close> are the goroutines of \<open>waitForTxn\<close> that have not called \<open>watchTx\<close> yet,
  \<open>ec_watching\<close> those that wait on their channel. \<open>ec_log\<close> records the transactions the
  chain accepted.
\<close>

record evm_client =
  chainID :: int
  owner :: address
  nonce :: u64
  sentTxs :: "hash \<rightharpoonup> txn_details"
  monitor :: txmonitor
  AttemptedTxCount :: nat
  SentTxCount :: nat
  SuccessfulTxCount :: nat
  FailedTxCount :: nat
  CancelledTxCount :: nat
  NotFoundDuringCancelCount :: nat
  LastUsedNonce :: u64
  ec_spawned :: "(hash \<times> u64) list"
  ec_watching :: "(hash \<times> nat) list"
  ec_log :: "eth_tx list"

definition evmclient_New :: "go_error + int \<Rightarrow> address \<Rightarrow> evm_client outcome" where
  "evmclient_New networkID address =
     (case networkID of
        Inl err \<Rightarrow> Fail (Err_Wrap ''failed to get chain id'' err)
      | Inr cid \<Rightarrow> Ok
          \<lparr> chainID = cid, owner = address, nonce = 0, sentTxs = Map.empty,
            monitor = newTxMonitor, AttemptedTxCount = 0, SentTxCount = 0,
            SuccessfulTxCount = 0, FailedTxCount = 0, CancelledTxCount = 0,
            NotFoundDuringCancelCount = 0, LastUsedNonce = 0, ec_spawned = [],
            ec_watching = [], ec_log = [] \<rparr>)"

section \<open>Building a transaction\<close>

definition suggestMaxFeeAndTipCap :: "evm \<Rightarrow> int option \<Rightarrow> (int \<times> int) outcome" where
  "suggestMaxFeeAndTipCap E gasPrice =
     (case SuggestGasTipCap E of
        Inl err \<Rightarrow> Fail (Err_Wrap ''failed to suggest gas tip cap'' err)
      | Inr gasTipCap \<Rightarrow>
         (case gasPrice of
            Some p \<Rightarrow> Ok (p, gasTipCap)
          | None \<Rightarrow>
             (case SuggestGasPrice E of
                Inl err \<Rightarrow> Fail (Err_Wrap ''failed to suggest gas price'' err)
              | Inr p \<Rightarrow> Ok (p, gasTipCap))))"

definition newTx :: "evm \<Rightarrow> evm_client \<Rightarrow> tx_request \<Rightarrow> u64 \<Rightarrow> eth_tx outcome" where
  "newTx E c req n =
     obind (if tr_GasLimit req = 0
            then (case EstimateGas E \<lparr> cm_From = owner c, cm_To = tr_To req,
                          cm_Data = tr_CallData req, cm_Gas = 0, cm_GasPrice = None,
                          cm_Value = tr_Value req \<rparr> of
                    Inl err \<Rightarrow> Fail (Err_Wrap ''failed to estimate gas'' err)
                  | Inr g \<Rightarrow> Ok g)
            else Ok (tr_GasLimit req)) (\<lambda>gasLimit.
       case suggestMaxFeeAndTipCap E (tr_GasPrice req) of
         Panic \<Rightarrow> Panic
       | Fail err \<Rightarrow> Fail (Err_Wrap ''failed to suggest max fee and tip cap'' err)
       | Ok (gasFeeCap, gasTipCap) \<Rightarrow> Ok
           \<lparr> tx_Nonce = n, tx_ChainID = chainID c, tx_To = tr_To req, tx_Value = tr_Value req,
             tx_Gas = gasLimit, tx_GasFeeCap = gasFeeCap, tx_GasTipCap = gasTipCap,
             tx_Data = tr_CallData req \<rparr>)"

section \<open>Nonces and sending\<close>

definition getNonce :: "evm \<Rightarrow> (evm_client, u64) act" where
  "getNonce E = (\<lambda>c.
     case PendingNonceAt E (owner c) of
       Inl err \<Rightarrow> (Fail (Err_Wrap ''failed to get nonce'' err), c)
     | Inr accountNonce \<Rightarrow>
         if accountNonce = 0 then (Ok 0, c)
         else
           let c1 = (if nonce c = 0 then c\<lparr> nonce := accountNonce \<rparr> else c);
               c2 = (if accountNonce > nonce c1 then c1\<lparr> nonce := accountNonce \<rparr> else c1)
           in (Ok (nonce c2), c2\<lparr> LastUsedNonce := nonce c2 \<rparr>))"

text \<open>\<open>waitForTxn\<close> starts a goroutine.\<close>

definition waitForTxn :: "hash \<Rightarrow> u64 \<Rightarrow> evm_client \<Rightarrow> evm_client" where
  "waitForTxn txnHash n c = c\<lparr> ec_spawned := ec_spawned c @ [(txnHash, n)] \<rparr>"

text \<open>
  What \<open>Send\<close> does once the chain took the transaction. \<open>txnString\<close> calls
  \<open>tx.To().Hex()\<close>, which panics on a transaction without receiver, after the nonce was
  increased and before the transaction is recorded.
\<close>

definition Send_record :: "string \<Rightarrow> signed_tx \<Rightarrow> u64 \<Rightarrow> (evm_client, hash) act" where
  "Send_record now signedTx n = (\<lambda>c.
     let c1 = c\<lparr> SentTxCount := Suc (SentTxCount c), nonce := nonce c + 1,
                 ec_log := ec_log c @ [st_Tx signedTx] \<rparr>
     in if tx_To (st_Tx signedTx) = None then (Panic, c1)
        else (Ok (st_Hash signedTx),
              waitForTxn (st_Hash signedTx) n
                (c1\<lparr> sentTxs := (sentTxs c1)(st_Hash signedTx \<mapsto>
                       \<lparr> td_nonce = n, td_created = now \<rparr>) \<rparr>)))"

definition Send_with :: "evm \<Rightarrow> string \<Rightarrow> tx_request \<Rightarrow> u64 \<Rightarrow> (evm_client, hash) act" where
  "Send_with E now tx n = (\<lambda>c.
     if \<not> allowNonce n (monitor c)
     then (Fail (Err_Msg ''too many pending transactions''), c)
     else case newTx E c tx n of
       Panic \<Rightarrow> (Panic, c)
     | Fail err \<Rightarrow> (Fail err, c)
     | Ok txnData \<Rightarrow>
        (case SignTx E txnData (chainID c) of
           Inl err \<Rightarrow> (Fail (Err_Wrap ''failed to sign tx'' err), c)
         | Inr signedTx \<Rightarrow>
            (case SendTransaction E signedTx of
               Inl err \<Rightarrow> (Fail err, c)
             | Inr _ \<Rightarrow> Send_record now signedTx n c)))"

definition Send :: "evm \<Rightarrow> string \<Rightarrow> tx_request \<Rightarrow> (evm_client, hash) act" where
  "Send E now tx = (\<lambda>c.
     abind (awrap (Err_Wrap ''failed to get nonce'') (getNonce E)) (Send_with E now tx)
       (c\<lparr> AttemptedTxCount := Suc (AttemptedTxCount c) \<rparr>))"

section \<open>The goroutine of waitForTxn\<close>

definition waitForTxn_watch :: "hash \<Rightarrow> u64 \<Rightarrow> evm_client \<Rightarrow> evm_client" where
  "waitForTxn_watch txnHash n c =
     (case watchTx txnHash n (monitor c) of
        (ch, mon) \<Rightarrow>
          c\<lparr> monitor := mon, ec_spawned := remove1 (txnHash, n) (ec_spawned c),
             ec_watching := ec_watching c @ [(txnHash, ch)] \<rparr>)"

definition err_is :: "go_error option \<Rightarrow> sentinel \<Rightarrow> bool" where
  "err_is err s = (case err of None \<Rightarrow> False | Some e \<Rightarrow> errors_is e s)"

text \<open>
  The goroutine has its result. The test for \<open>ErrTxnCancelled\<close> reads \<open>err\<close>, the error
  of \<open>watchTx\<close>, which is \<open>nil\<close> here, and not the receipt's error. The last log line
  dereferences \<open>receipt.Receipt\<close>.
\<close>

definition waitForTxn_done :: "hash \<Rightarrow> tx_result \<Rightarrow> (evm_client, unit) act" where
  "waitForTxn_done txnHash res = (\<lambda>c.
     let err = None
     in case res of
          TxErr e \<Rightarrow>
            if \<not> err_is err ErrTxnCancelled then (Ok (), c)
            else (Panic, c\<lparr> sentTxs := (sentTxs c)(txnHash := None) \<rparr>)
        | TxReceipt r \<Rightarrow>
            (Ok (),
             c\<lparr> SuccessfulTxCount := SuccessfulTxCount c +
                  (if rc_Status r = ReceiptStatusSuccessful then 1 else 0),
                FailedTxCount := FailedTxCount c +
                  (if rc_Status r = ReceiptStatusFailed then 1 else 0),
                sentTxs := (sentTxs c)(txnHash := None) \<rparr>))"

section \<open>WaitForReceipt, Call, CancelTx, PendingTxns\<close>

text \<open>\<open>WaitForReceipt\<close> up to its \<open>select\<close>, which sees a result or the context's end.\<close>

definition WaitForReceipt_watch :: "hash \<Rightarrow> (evm_client, nat) act" where
  "WaitForReceipt_watch txHash = (\<lambda>c.
     case sentTxs c txHash of
       None \<Rightarrow> (Fail (Err_Msg ''tx not found''), c)
     | Some d \<Rightarrow>
        (case watchTx txHash (td_nonce d) (monitor c) of
           (ch, mon) \<Rightarrow> (Ok ch, c\<lparr> monitor := mon \<rparr>)))"

definition WaitForReceipt_select :: "go_error + tx_result \<Rightarrow> receipt outcome" where
  "WaitForReceipt_select ev =
     (case ev of
        Inl ctxErr \<Rightarrow> Fail ctxErr
      | Inr (TxErr e) \<Rightarrow> Fail (Err_Wrap ''failed to get receipt'' e)
      | Inr (TxReceipt r) \<Rightarrow> Ok r)"

definition Call :: "evm \<Rightarrow> evm_client \<Rightarrow> tx_request \<Rightarrow> bytes outcome" where
  "Call E c tx =
     (let msg = \<lparr> cm_From = owner c, cm_To = tr_To tx, cm_Data = tr_CallData tx,
                  cm_Gas = tr_GasLimit tx, cm_GasPrice = tr_GasPrice tx,
                  cm_Value = tr_Value tx \<rparr>
      in case CallContract E msg of
           Inl err \<Rightarrow> Fail (Err_Wrap ''failed to call contract'' err)
         | Inr result \<Rightarrow> Ok result)"

text \<open>
  The fees of a cancelling transaction. \<open>big.Int.Div\<close> by the positive 100 is Euclidean,
  like \<open>div\<close>. (\<open>GasPrice()\<close> of a transaction is its fee cap.)
\<close>

definition cancel_fees :: "eth_tx \<Rightarrow> int \<times> int \<Rightarrow> int \<times> int" where
  "cancel_fees txn suggested =
     (let (gasFeeCap, gasTipCap) = suggested;
          fee = (if gasFeeCap \<le> tx_GasFeeCap txn then tx_GasFeeCap txn else gasFeeCap);
          tip = (if gasTipCap \<le> tx_GasTipCap txn then tx_GasTipCap txn else gasTipCap);
          tip' = tip * 110 div 100
      in (fee + tip', tip'))"

definition cancel_tx :: "evm_client \<Rightarrow> eth_tx \<Rightarrow> int \<times> int \<Rightarrow> eth_tx" where
  "cancel_tx c txn fees =
     \<lparr> tx_Nonce = tx_Nonce txn, tx_ChainID = chainID c, tx_To = Some (owner c),
       tx_Value = Some 0, tx_Gas = 21000, tx_GasFeeCap = fst fees, tx_GasTipCap = snd fees,
       tx_Data = [] \<rparr>"

definition CancelTx_send :: "evm \<Rightarrow> string \<Rightarrow> eth_tx \<Rightarrow> eth_tx \<Rightarrow> (evm_client, hash) act" where
  "CancelTx_send E now txn tx = (\<lambda>c.
     case SignTx E tx (chainID c) of
       Inl err \<Rightarrow> (Fail (Err_Wrap ''failed to sign cancel tx'' err), c)
     | Inr signedTx \<Rightarrow>
        (case SendTransaction E signedTx of
           Inl err \<Rightarrow> (Fail err, c)
         | Inr _ \<Rightarrow>
            (Ok (st_Hash signedTx),
             waitForTxn (st_Hash signedTx) (tx_Nonce txn)
               (c\<lparr> CancelledTxCount := Suc (CancelledTxCount c),
                  ec_log := ec_log c @ [st_Tx signedTx],
                  sentTxs := (sentTxs c)(st_Hash signedTx \<mapsto>
                    \<lparr> td_nonce = tx_Nonce txn, td_created = now \<rparr>) \<rparr>))))"

definition CancelTx :: "evm \<Rightarrow> string \<Rightarrow> hash \<Rightarrow> (evm_client, hash) act" where
  "CancelTx E now txnHash = (\<lambda>c.
     let notFound = c\<lparr> NotFoundDuringCancelCount := Suc (NotFoundDuringCancelCount c) \<rparr>
     in case TransactionByHash E txnHash of
       Inl err \<Rightarrow>
         (Fail (Err_Wrap ''failed to get transaction'' err),
          if errors_is err ErrNotFound then notFound else c)
     | Inr (txn, isPending) \<Rightarrow>
         if \<not> isPending then (Fail (Err_Sentinel ErrNotFound), notFound)
         else (case suggestMaxFeeAndTipCap E (Some (tx_GasFeeCap txn)) of
           Panic \<Rightarrow> (Panic, c)
         | Fail err \<Rightarrow> (Fail (Err_Wrap ''failed to suggest max fee and tip cap'' err), c)
         | Ok suggested \<Rightarrow> CancelTx_send E now txn (cancel_tx c txn (cancel_fees txn suggested)) c))"

record txn_info =
  ti_Hash :: hash
  ti_Nonce :: u64
  ti_Created :: string

text \<open>
  \<open>PendingTxns\<close> ranges over the map (in the order \<open>hs\<close>) and sorts by nonce.
\<close>

definition PendingTxns :: "hash list \<Rightarrow> evm_client \<Rightarrow> txn_info list" where
  "PendingTxns hs c =
     sort_key ti_Nonce
       (List.map_filter (\<lambda>h. map_option
          (\<lambda>d. \<lparr> ti_Hash = h, ti_Nonce = td_nonce d, ti_Created = td_created d \<rparr>)
          (sentTxs c h)) hs)"


section \<open>Nonces\<close>

text \<open>A key signer returns the transaction it was given, with a signature.\<close>

definition sign_ok :: "evm \<Rightarrow> bool" where
  "sign_ok E \<longleftrightarrow> (\<forall>tx cid s. SignTx E tx cid = Inr s \<longrightarrow> st_Tx s = tx)"

lemma getNonce_max:
  assumes "PendingNonceAt E (owner c) = Inr a" and "a \<noteq> 0"
  shows "getNonce E c =
    (Ok (max (nonce c) a), c\<lparr> nonce := max (nonce c) a, LastUsedNonce := max (nonce c) a \<rparr>)"
  using assms by (cases c) (auto simp: getNonce_def Let_def max_def)

lemma getNonce_zero:
  "PendingNonceAt E (owner c) = Inr 0 \<Longrightarrow> getNonce E c = (Ok 0, c)"
  by (simp add: getNonce_def)

lemma getNonce_frame:
  assumes "getNonce E c = (r, c')"
  shows "monitor c' = monitor c" "sentTxs c' = sentTxs c" "ec_log c' = ec_log c"
    "ec_spawned c' = ec_spawned c" "owner c' = owner c" "chainID c' = chainID c"
    "SentTxCount c' = SentTxCount c"
  using assms by (auto simp: getNonce_def Let_def split: sum.splits if_splits)

lemma newTx_fields:
  "newTx E c req n = Ok t \<Longrightarrow>
     tx_Nonce t = n \<and> tx_To t = tr_To req \<and> tx_Value t = tr_Value req \<and>
     tx_Data t = tr_CallData req \<and> tx_ChainID t = chainID c"
  by (cases "suggestMaxFeeAndTipCap E (tr_GasPrice req)") (auto simp: newTx_def)

text \<open>A successful \<open>Send\<close>, in terms of the client after the nonce was chosen.\<close>

lemma Send_with_Ok:
  assumes "Send_with E now tx n c = (Ok h, c')" and "sign_ok E"
  obtains t where "newTx E c tx n = Ok t" and "tx_Nonce t = n" and "allowNonce n (monitor c)"
    and "c' = c\<lparr> SentTxCount := Suc (SentTxCount c), nonce := nonce c + 1,
               ec_log := ec_log c @ [t],
               sentTxs := (sentTxs c)(h \<mapsto> \<lparr> td_nonce = n, td_created = now \<rparr>),
               ec_spawned := ec_spawned c @ [(h, n)] \<rparr>"
  using assms newTx_fields [of E c tx n]
  by (fastforce simp: Send_with_def Send_record_def waitForTxn_def Let_def sign_ok_def
      split: if_splits outcome.splits sum.splits)

lemma Send_with_failed:
  "Send_with E now tx n c = (Fail e, c') \<Longrightarrow> c' = c"
  by (auto simp: Send_with_def Send_record_def Let_def
      split: if_splits outcome.splits sum.splits)

lemma Send_Ok:
  assumes "Send E now tx c = (Ok h, c')" and "sign_ok E"
  obtains n c1 t where "getNonce E (c\<lparr> AttemptedTxCount := Suc (AttemptedTxCount c) \<rparr>) = (Ok n, c1)"
    and "tx_Nonce t = n" and "allowNonce n (monitor c)"
    and "tx_To t = tr_To tx" and "tx_Data t = tr_CallData tx"
    and "nonce c' = nonce c1 + 1" and "ec_log c' = ec_log c @ [t]"
    and "sentTxs c' = (sentTxs c)(h \<mapsto> \<lparr> td_nonce = n, td_created = now \<rparr>)"
    and "ec_spawned c' = ec_spawned c @ [(h, n)]"
proof -
  from assms(1) obtain n c1 where
    g: "getNonce E (c\<lparr> AttemptedTxCount := Suc (AttemptedTxCount c) \<rparr>) = (Ok n, c1)"
    and w: "Send_with E now tx n c1 = (Ok h, c')"
    by (auto simp: Send_def abind_eq_Ok)
  from w assms(2) show thesis
    by (rule Send_with_Ok) (use getNonce_frame [OF g] g newTx_fields in \<open>auto intro!: that\<close>)
qed

text \<open>
  The nonce of the transaction a successful \<open>Send\<close> appends to the log, and the nonce it
  leaves, when the account's nonce is known.
\<close>

lemma Send_nonce:
  assumes "Send E now tx c = (Ok h, c')" and "sign_ok E"
    and a: "PendingNonceAt E (owner c) = Inr a" "a \<noteq> 0"
  obtains t where "ec_log c' = ec_log c @ [t]" and "tx_Nonce t = max (nonce c) a"
    and "nonce c' = max (nonce c) a + 1"
proof -
  obtain n c1 t where s: "getNonce E (c\<lparr> AttemptedTxCount := Suc (AttemptedTxCount c) \<rparr>) = (Ok n, c1)"
    "tx_Nonce t = n" "nonce c' = nonce c1 + 1" "ec_log c' = ec_log c @ [t]"
    using assms(1,2) by (rule Send_Ok)
  then show thesis
    using a by (intro that [of t]) (auto simp: getNonce_max)
qed

lemma Send_nonce_first:
  assumes "Send E now tx c = (Ok h, c')" and "sign_ok E"
    and a: "PendingNonceAt E (owner c) = Inr 0"
  obtains t where "ec_log c' = ec_log c @ [t]" and "tx_Nonce t = 0" and "nonce c' = nonce c + 1"
proof -
  obtain n c1 t where s: "getNonce E (c\<lparr> AttemptedTxCount := Suc (AttemptedTxCount c) \<rparr>) = (Ok n, c1)"
    "tx_Nonce t = n" "nonce c' = nonce c1 + 1" "ec_log c' = ec_log c @ [t]"
    using assms(1,2) by (rule Send_Ok)
  then show thesis
    using a by (intro that [of t]) (auto simp: getNonce_zero)
qed

lemma Send_owner: "owner (snd (Send E now tx c)) = owner c"
  by (cases "getNonce E (c\<lparr> AttemptedTxCount := Suc (AttemptedTxCount c) \<rparr>)")
     (auto simp: Send_def abind_def awrap_def Send_with_def Send_record_def waitForTxn_def Let_def
        dest: getNonce_frame split: outcome.splits sum.splits)

lemma Send_not_Ok_log:
  assumes "Send E now tx c = (Fail e, c')" and "\<And>a. PendingNonceAt E (owner c) = Inr a \<Longrightarrow> P a"
  shows "ec_log c' = ec_log c"
    and "nonce c' = nonce c \<or> (\<exists>a. P a \<and> nonce c' = max (nonce c) a)"
    and "sentTxs c' = sentTxs c" and "ec_spawned c' = ec_spawned c"
proof -
  let ?c = "c\<lparr> AttemptedTxCount := Suc (AttemptedTxCount c) \<rparr>"
  from assms(1) consider e' where "getNonce E ?c = (Fail e', c')"
    | n where "getNonce E ?c = (Ok n, c')"
    by (auto simp: Send_def abind_def awrap_def dest!: Send_with_failed
        split: prod.splits outcome.splits)
  then obtain r where g: "getNonce E ?c = (r, c')" by blast
  note f = getNonce_frame [OF g]
  show "ec_log c' = ec_log c" "sentTxs c' = sentTxs c" "ec_spawned c' = ec_spawned c"
    by (simp_all add: f)
  show "nonce c' = nonce c \<or> (\<exists>a. P a \<and> nonce c' = max (nonce c) a)"
  proof (cases "PendingNonceAt E (owner c)")
    case (Inl err)
    with g show ?thesis by (auto simp: getNonce_def)
  next
    case (Inr a)
    with g assms(2) show ?thesis
      by (cases "a = 0") (auto simp: getNonce_zero getNonce_max)
  qed
qed


lemma newTx_not_Panic: "newTx E c req n \<noteq> Panic"
  by (auto simp: newTx_def suggestMaxFeeAndTipCap_def obind_eq_Panic
      split: sum.splits option.splits if_splits)

lemma Send_not_Panic:
  assumes "sign_ok E" and "tr_To tx \<noteq> None"
  shows "fst (Send E now tx c) \<noteq> Panic"
proof -
  have "getNonce E c' \<noteq> (Panic, c'')" for c' c''
    by (auto simp: getNonce_def Let_def split: sum.splits)
  moreover have "fst (Send_with E now tx n c') \<noteq> Panic" for n c'
    using assms newTx_fields [of E c' tx n] newTx_not_Panic [of E c' tx n]
    by (auto simp: Send_with_def Send_record_def sign_ok_def Let_def
        split: outcome.splits sum.splits)
  ultimately show ?thesis
    by (auto simp: Send_def abind_def awrap_def split: prod.splits outcome.splits)
qed

text \<open>A sequence of sends, each with the chain's answers during it.\<close>

definition run_sends :: "(evm \<times> string \<times> tx_request) list \<Rightarrow> evm_client \<Rightarrow> evm_client" where
  "run_sends xs c = fold (\<lambda>(E, now, tx) c. snd (Send E now tx c)) xs c"

definition sendable :: "address \<Rightarrow> u64 \<Rightarrow> evm \<times> string \<times> tx_request \<Rightarrow> bool" where
  "sendable o' B x = (case x of (E, now, tx) \<Rightarrow>
     sign_ok E \<and> tr_To tx \<noteq> None \<and>
     (\<forall>a. PendingNonceAt E o' = Inr a \<longrightarrow> a \<noteq> 0 \<and> a \<le> B))"

definition nonces_below :: "evm_client \<Rightarrow> bool" where
  "nonces_below c \<longleftrightarrow>
     sorted_wrt (<) (map tx_Nonce (ec_log c)) \<and> (\<forall>t \<in> set (ec_log c). tx_Nonce t < nonce c)"

lemma nonces_below_mono:
  "nonces_below c \<Longrightarrow> ec_log c' = ec_log c \<Longrightarrow> nonce c \<le> nonce c' \<Longrightarrow> nonces_below c'"
  by (auto simp: nonces_below_def)

lemma nonces_below_append:
  assumes "nonces_below c" "ec_log c' = ec_log c @ [t]" "nonce c \<le> tx_Nonce t" "tx_Nonce t < nonce c'"
  shows "nonces_below c'"
proof -
  have "tx_Nonce u < tx_Nonce t" if "u \<in> set (ec_log c)" for u
    using assms(1,3) that by (auto simp: nonces_below_def)
  with assms show ?thesis
    by (auto simp: nonces_below_def sorted_wrt_append)
qed

lemma Send_nonces_below:
  assumes s: "sendable (owner c) B (E, now, tx)" and below: "nonces_below c"
    and bnd: "unat (nonce c) \<le> M" "unat B \<le> M" "Suc M < 2 ^ 64"
  shows "nonces_below (snd (Send E now tx c)) \<and> unat (nonce (snd (Send E now tx c))) \<le> Suc M"
proof (cases "Send E now tx c")
  case (Pair r c')
  have so: "sign_ok E" "tr_To tx \<noteq> None" using s by (simp_all add: sendable_def)
  have acct: "a \<noteq> 0 \<and> unat a \<le> M" if "PendingNonceAt E (owner c) = Inr a" for a
  proof -
    from that s have "a \<noteq> 0" "a \<le> B" by (simp_all add: sendable_def)
    with bnd(2) show ?thesis by (simp add: word_le_nat_alt)
  qed
  have mx: "unat (max (nonce c) a) \<le> M" if "PendingNonceAt E (owner c) = Inr a" for a
    using acct [OF that] bnd(1) by (simp add: max_def)
  show ?thesis
  proof (cases r)
    case (Ok h)
    with Pair obtain a where a: "PendingNonceAt E (owner c) = Inr a"
      using Send_Ok [of E now tx c h c'] so
      by (cases "PendingNonceAt E (owner c)") (auto simp: getNonce_def)
    from Pair Ok so(1) a acct obtain t where t: "ec_log c' = ec_log c @ [t]"
      "tx_Nonce t = max (nonce c) a" "nonce c' = max (nonce c) a + 1"
      by (metis Send_nonce)
    have "unat (max (nonce c) a + 1) = Suc (unat (max (nonce c) a))"
      using mx [OF a] bnd(3) by (intro unat_u64_Suc) simp
    with t mx [OF a] have "unat (nonce c') \<le> Suc M" "tx_Nonce t < nonce c'"
      by (simp_all add: word_less_nat_alt)
    with t below show ?thesis
      unfolding Pair by (auto intro!: nonces_below_append [of c c' t])
  next
    case (Fail e)
    with Pair have run: "Send E now tx c = (Fail e, c')" by simp
    note f = Send_not_Ok_log [OF run, where P = "\<lambda>a. unat (max (nonce c) a) \<le> M", OF mx]
    from f(2) bnd(1) have "nonce c \<le> nonce c'" "unat (nonce c') \<le> Suc M" by auto
    with f(1) below show ?thesis unfolding Pair by (auto intro: nonces_below_mono)
  next
    case Panic
    with Pair Send_not_Panic [OF so, of now c] show ?thesis by simp
  qed
qed

lemma run_sends_nonces:
  assumes "\<And>x. x \<in> set xs \<Longrightarrow> sendable (owner c) B x" and "nonces_below c"
    and "unat (nonce c) \<le> M" "unat B \<le> M" "M + length xs < 2 ^ 64"
  shows "nonces_below (run_sends xs c)"
  using assms
proof (induction xs arbitrary: c M)
  case (Cons x xs)
  obtain E now tx where x: "x = (E, now, tx)" by (cases x)
  let ?c = "snd (Send E now tx c)"
  have "nonces_below ?c \<and> unat (nonce ?c) \<le> Suc M"
    using Cons.prems x by (intro Send_nonces_below [of c B]) auto
  then have "nonces_below (run_sends xs ?c)"
    using Cons.prems by (intro Cons.IH [of _ "Suc M"]) (auto simp: Send_owner)
  then show ?case by (simp add: run_sends_def x)
qed (simp add: run_sends_def)

section \<open>Cancelling, pending transactions\<close>

lemma CancelTx_Ok:
  assumes "CancelTx E now txnHash c = (Ok h, c')" and "sign_ok E"
  obtains txn p tip t where "TransactionByHash E txnHash = Inr (txn, True)"
    and "SuggestGasTipCap E = Inr tip"
    and "t = cancel_tx c txn (cancel_fees txn (tx_GasFeeCap txn, tip))"
    and "ec_log c' = ec_log c @ [t]" and "nonce c' = nonce c"
    and "sentTxs c' = (sentTxs c)(h \<mapsto> \<lparr> td_nonce = tx_Nonce txn, td_created = now \<rparr>)"
    and "ec_spawned c' = ec_spawned c @ [(h, tx_Nonce txn)]"
  using assms
  by (fastforce simp: CancelTx_def CancelTx_send_def suggestMaxFeeAndTipCap_def waitForTxn_def
      sign_ok_def Let_def split: sum.splits prod.splits if_splits outcome.splits)

lemma cancel_fees_bump:
  assumes "cancel_fees txn (fee, tip) = (fee', tip')" and "0 \<le> tx_GasTipCap txn"
  shows "tip' = max (tx_GasTipCap txn) tip * 110 div 100"
    and "fee' = max (tx_GasFeeCap txn) fee + tip'"
    and "tx_GasTipCap txn \<le> tip'"
    and "10 \<le> tx_GasTipCap txn \<Longrightarrow> tx_GasTipCap txn < tip'"
proof -
  show tip: "tip' = max (tx_GasTipCap txn) tip * 110 div 100"
    and "fee' = max (tx_GasFeeCap txn) fee + tip'"
    using assms(1) by (auto simp: cancel_fees_def Let_def max_def)
  show "tx_GasTipCap txn \<le> tip'" using assms(2) unfolding tip by (auto simp: max_def)
  show "tx_GasTipCap txn < tip'" if "10 \<le> tx_GasTipCap txn"
    using that unfolding tip by (auto simp: max_def)
qed

lemma PendingTxns_sorted: "sorted (map ti_Nonce (PendingTxns hs c))"
  by (simp add: PendingTxns_def)

lemma PendingTxns_set:
  assumes "enumerates hs (dom (sentTxs c))"
  shows "set (PendingTxns hs c) =
    {\<lparr> ti_Hash = h, ti_Nonce = td_nonce d, ti_Created = td_created d \<rparr> |h d. sentTxs c h = Some d}"
  using enumeratesD(2) [OF assms]
  by (force simp: PendingTxns_def List.map_filter_def)

lemma map_filter_hash:
  "(\<And>h. h \<in> set hs \<Longrightarrow> m h \<noteq> None) \<Longrightarrow>
     map ti_Hash (List.map_filter (\<lambda>h. map_option
        (\<lambda>d. \<lparr> ti_Hash = h, ti_Nonce = td_nonce d, ti_Created = td_created d \<rparr>) (m h)) hs) = hs"
  by (induction hs) (auto simp: List.map_filter_simps split: option.split)

lemma PendingTxns_distinct:
  assumes "enumerates hs (dom (sentTxs c))"
  shows "distinct (map ti_Hash (PendingTxns hs c))"
proof -
  let ?xs = "List.map_filter (\<lambda>h. map_option
        (\<lambda>d. \<lparr> ti_Hash = h, ti_Nonce = td_nonce d, ti_Created = td_created d \<rparr>) (sentTxs c h)) hs"
  have "map ti_Hash ?xs = hs" using enumeratesD(2) [OF assms] by (intro map_filter_hash) auto
  then have "distinct (map ti_Hash ?xs)" using enumeratesD(1) [OF assms] by simp
  moreover have "mset (map ti_Hash (PendingTxns hs c)) = mset (map ti_Hash ?xs)"
    by (simp add: PendingTxns_def)
  ultimately show ?thesis using mset_eq_imp_distinct_iff by blast
qed


section \<open>The client as a transition system\<close>

text \<open>
  The operations hold the client's mutex, so each is a step; the goroutine of a transaction
  registers its waiter and later gets its result. \<open>CMonitor\<close> is any step of the monitor.
\<close>

datatype client_label =
    CSend tx_request
  | CCancel hash
  | CWatch hash u64
  | CDone hash tx_result
  | CWait hash
  | CMonitor

inductive client_step :: "evm_client \<Rightarrow> client_label \<Rightarrow> evm_client \<Rightarrow> bool" where
  send: "Send E now tx c = (r, c') \<Longrightarrow> client_step c (CSend tx) c'"
| cancel: "CancelTx E now h c = (r, c') \<Longrightarrow> client_step c (CCancel h) c'"
| watch: "(h, n) \<in> set (ec_spawned c) \<Longrightarrow> client_step c (CWatch h n) (waitForTxn_watch h n c)"
| finish: "(h, ch) \<in> set (ec_watching c) \<Longrightarrow> ch_buf (tm_chans (monitor c) ch) = [res] \<Longrightarrow>
     waitForTxn_done h res c = (Ok (), c') \<Longrightarrow>
     client_step c (CDone h res) (c'\<lparr> ec_watching := remove1 (h, ch) (ec_watching c') \<rparr>)"
| wait: "WaitForReceipt_watch h c = (r, c') \<Longrightarrow> client_step c (CWait h) c'"
| monitor: "client_step c CMonitor (c\<lparr> monitor := t \<rparr>)"

lemma Send_sentTxs:
  assumes "Send E now tx c = (r, c')"
  shows "dom (sentTxs c) \<subseteq> dom (sentTxs c')"
proof -
  let ?c = "c\<lparr> AttemptedTxCount := Suc (AttemptedTxCount c) \<rparr>"
  have with_sub: "dom (sentTxs c1) \<subseteq> dom (sentTxs (snd (Send_with E now tx n c1)))" for n c1
    by (auto simp: Send_with_def Send_record_def waitForTxn_def Let_def
        split: outcome.splits sum.splits)
  obtain r1 c1 where g: "getNonce E ?c = (r1, c1)" by (cases "getNonce E ?c")
  then have c1: "sentTxs c1 = sentTxs c" using getNonce_frame(2) [OF g] by simp
  show ?thesis
  proof (cases r1)
    case (Ok n)
    with assms g have "c' = snd (Send_with E now tx n c1)" by (simp add: Send_def abind_def awrap_def)
    with with_sub [of c1 n] c1 show ?thesis by simp
  qed (use assms g c1 in \<open>auto simp: Send_def abind_def awrap_def\<close>)
qed

lemma CancelTx_sentTxs: "dom (sentTxs c) \<subseteq> dom (sentTxs (snd (CancelTx E now h c)))"
  by (auto simp: CancelTx_def CancelTx_send_def suggestMaxFeeAndTipCap_def waitForTxn_def Let_def
      split: sum.splits prod.splits option.splits)

lemma waitForTxn_done_err: "waitForTxn_done h (TxErr e) c = (Ok (), c)"
  by (simp add: waitForTxn_done_def err_is_def)

text \<open>Only a receipt removes a transaction from the pending ones.\<close>

lemma sentTxs_step:
  assumes "client_step c l c'" and "h \<in> dom (sentTxs c)" and "\<And>r. l \<noteq> CDone h (TxReceipt r)"
  shows "h \<in> dom (sentTxs c')"
  using assms
proof (induction rule: client_step.induct)
  case (send E now tx c r c')
  then show ?case using Send_sentTxs [OF send(1)] by blast
next
  case (cancel E now h' c r c')
  then show ?case using CancelTx_sentTxs [of c E now h'] by auto
next
  case (finish h' ch c res c')
  show ?case
  proof (cases res)
    case (TxReceipt r)
    with finish.prems(2) have "h' \<noteq> h" by blast
    with TxReceipt finish show ?thesis by (auto simp: waitForTxn_done_def)
  next
    case (TxErr e)
    with finish show ?thesis by (simp add: waitForTxn_done_err)
  qed
next
  case (wait h' c r c')
  then show ?case by (auto simp: WaitForReceipt_watch_def split: option.splits prod.splits)
qed (auto simp: waitForTxn_watch_def split: prod.splits)

lemma sentTxs_steps:
  "steps client_step c ls c' \<Longrightarrow> h \<in> dom (sentTxs c) \<Longrightarrow>
     (\<And>r. CDone h (TxReceipt r) \<notin> set ls) \<Longrightarrow> h \<in> dom (sentTxs c')"
proof (induction rule: steps.induct)
  case (steps_Cons s l s' ls s'')
  have "h \<in> dom (sentTxs s')"
    using steps_Cons.prems by (intro sentTxs_step [OF steps_Cons.hyps(1)]) auto
  with steps_Cons show ?case by auto
qed

end
