(* ===== verification/Rpc_Services.thy ===== *)
theory Rpc_Services
  imports Registries Provider_Api Evm_Client
begin

text \<open>
  The gRPC services that clients call: \<open>pkg/rpc/bidder/service.go\<close> and the unary methods
  of \<open>pkg/rpc/provider/service.go\<close>. A request's validator (\<open>protovalidate\<close>) is an
  argument, as are the stream the responses go to and the registry contract.
\<close>

section \<open>The bidder's SendBid\<close>

record rpc_bid =
  rb_TxHashes :: "string list"
  rb_Amount :: string
  rb_BlockNumber :: i64
  rb_DecayStart :: i64
  rb_DecayEnd :: i64

record rpc_commitment =
  rc_TxHashes :: "string list"
  rc_BidAmount :: string
  rc_BlockNumber :: i64
  rc_ReceivedBidDigest :: string
  rc_ReceivedBidSignature :: string
  rc_CommitmentDigest :: string
  rc_CommitmentSignature :: string
  rc_ProviderAddress :: string
  rc_DecayStart :: i64
  rc_DecayEnd :: i64

definition rpc_commitment_of :: "pre_confirmation \<Rightarrow> bid \<Rightarrow> rpc_commitment" where
  "rpc_commitment_of resp b =
     \<lparr> rc_TxHashes = split_on CHR '','' (TxHash b), rc_BidAmount = BidAmount b,
       rc_BlockNumber = BlockNumber b,
       rc_ReceivedBidDigest = hex_encode (bval (Digest b)),
       rc_ReceivedBidSignature = hex_encode (bval (Signature b)),
       rc_CommitmentDigest = hex_encode (bval (pc_Digest resp)),
       rc_CommitmentSignature = hex_encode (bval (pc_Signature resp)),
       rc_ProviderAddress = hex_encode (bval (pc_ProviderAddress resp)),
       rc_DecayStart = DecayStartTimestamp b, rc_DecayEnd = DecayEndTimestamp b \<rparr>"

text \<open>
  The loop over the response channel, as the list of what it delivers until it is closed.
  \<open>send\<close> is the stream's \<open>Send\<close>. The result has the commitments that were sent; their
  number is what \<open>ReceivedPreconfsCount\<close> grows by.
\<close>

fun send_commitments ::
  "(rpc_commitment \<Rightarrow> go_error option) \<Rightarrow> pre_confirmation list \<Rightarrow> unit outcome \<times> rpc_commitment list" where
  "send_commitments send [] = (Ok (), [])"
| "send_commitments send (resp # respC) =
     (case pc_Bid resp of
        None \<Rightarrow> (Panic, [])
      | Some b \<Rightarrow>
         (case send (rpc_commitment_of resp b) of
            Some err \<Rightarrow> (Fail err, [])
          | None \<Rightarrow>
             (case send_commitments send respC of
                (r, cs) \<Rightarrow> (r, rpc_commitment_of resp b # cs))))"

definition bidderapi_SendBid ::
  "(rpc_bid \<Rightarrow> go_error option) \<Rightarrow>
   (string \<Rightarrow> string \<Rightarrow> i64 \<Rightarrow> i64 \<Rightarrow> i64 \<Rightarrow> pre_confirmation list outcome) \<Rightarrow>
   (rpc_commitment \<Rightarrow> go_error option) \<Rightarrow> rpc_bid \<Rightarrow> unit outcome \<times> rpc_commitment list" where
  "bidderapi_SendBid validate sendBid send b =
     (case validate b of
        Some _ \<Rightarrow> (Fail (Err_Status InvalidArgument ''validating bid''), [])
      | None \<Rightarrow>
         let txnsStr = join_with '','' (rb_TxHashes b)
         in (case sendBid txnsStr (rb_Amount b) (rb_BlockNumber b) (rb_DecayStart b) (rb_DecayEnd b) of
              Panic \<Rightarrow> (Panic, [])
            | Fail _ \<Rightarrow> (Fail (Err_Status Internal ''error sending bid''), [])
            | Ok respC \<Rightarrow> send_commitments send respC))"

section \<open>Stakes and allowances\<close>

text \<open>An amount in a response is the text of a \<open>big.Int\<close>.\<close>

definition get_amount :: "string \<Rightarrow> ('w, int) act \<Rightarrow> ('w, string) act" where
  "get_amount msg get =
     abind (awrap (\<lambda>_. Err_Status Internal msg) get) (\<lambda>stakeAmount. aret (show_int stakeAmount))"

definition bidderapi_PrepayAllowance ::
  "(string \<Rightarrow> go_error option) \<Rightarrow> 'w contract_client \<Rightarrow> address \<Rightarrow> string \<Rightarrow> ('w, string) act" where
  "bidderapi_PrepayAllowance validate r own amountText =
     (case validate amountText of
        Some _ \<Rightarrow> alift (Fail (Err_Status InvalidArgument ''validating prepay request''))
      | None \<Rightarrow>
         (case set_string10 amountText of
            None \<Rightarrow> alift (Fail (Err_Status InvalidArgument ''parsing amount''))
          | Some amount \<Rightarrow>
              abind (awrap (\<lambda>_. Err_Status Internal ''prepaying allowance'')
                       (PrepayAllowance r (Some amount))) (\<lambda>_.
                get_amount ''getting allowance'' (GetAllowance r own))))"

definition bidderapi_GetAllowance :: "'w contract_client \<Rightarrow> address \<Rightarrow> ('w, string) act" where
  "bidderapi_GetAllowance r own = get_amount ''getting allowance'' (GetAllowance r own)"

definition bidderapi_GetMinAllowance :: "'w contract_client \<Rightarrow> ('w, string) act" where
  "bidderapi_GetMinAllowance r = get_amount ''getting min allowance'' (GetMinAllowance r)"

definition providerapi_RegisterStake ::
  "(string \<Rightarrow> go_error option) \<Rightarrow> 'w contract_client \<Rightarrow> address \<Rightarrow> string \<Rightarrow> ('w, string) act" where
  "providerapi_RegisterStake validate r own amountText =
     (case validate amountText of
        Some _ \<Rightarrow> alift (Fail (Err_Status InvalidArgument ''validate stake request''))
      | None \<Rightarrow>
         (case set_string10 amountText of
            None \<Rightarrow> alift (Fail (Err_Status InvalidArgument ''parsing amount''))
          | Some amount \<Rightarrow>
              abind (awrap (\<lambda>_. Err_Status Internal ''registering stake'')
                       (RegisterProvider r (Some amount))) (\<lambda>_.
                get_amount ''getting stake'' (GetStake r own))))"

definition providerapi_GetStake :: "'w contract_client \<Rightarrow> address \<Rightarrow> ('w, string) act" where
  "providerapi_GetStake r own = get_amount ''getting stake'' (GetStake r own)"

definition providerapi_GetMinStake :: "'w contract_client \<Rightarrow> ('w, string) act" where
  "providerapi_GetMinStake r = get_amount ''getting min stake'' (GetMinStake r)"

section \<open>Transactions of the provider\<close>

record transaction_info =
  tri_TxHash :: string
  tri_Nonce :: i64
  tri_Created :: string

text \<open>\<open>hashHex\<close> and \<open>HexToHash\<close> are go-ethereum's hash printing and parsing.\<close>

definition GetPendingTxns :: "(hash \<Rightarrow> string) \<Rightarrow> txn_info list \<Rightarrow> transaction_info list" where
  "GetPendingTxns hashHex txns =
     map (\<lambda>t. \<lparr> tri_TxHash = hashHex (ti_Hash t), tri_Nonce = ti_Nonce t,
                tri_Created = ti_Created t \<rparr>) txns"

definition CancelTransaction ::
  "(hash \<Rightarrow> string) \<Rightarrow> (string \<Rightarrow> hash) \<Rightarrow> (hash \<Rightarrow> ('w, hash) act) \<Rightarrow> string \<Rightarrow> ('w, string) act" where
  "CancelTransaction hashHex HexToHash cancelTx txHash =
     abind (awrap (\<lambda>_. Err_Status Internal ''cancelling transaction'') (cancelTx (HexToHash txHash)))
       (\<lambda>cHash. aret (hashHex cHash))"

section \<open>Transaction hashes survive the trip\<close>

text \<open>
  The hashes of a bid are joined for the protocol and split for the provider and for the
  answer; validated hashes contain no comma and a bid has at least one.
\<close>

definition hashes_ok :: "string list \<Rightarrow> bool" where
  "hashes_ok hs \<longleftrightarrow> hs \<noteq> [] \<and> (\<forall>h \<in> set hs. CHR '','' \<notin> set h)"

lemma split_joined: "hashes_ok hs \<Longrightarrow> split_on CHR '','' (join_with '','' hs) = hs"
  by (auto simp: hashes_ok_def intro!: split_join)

lemma send_commitments_all:
  assumes "\<And>pc. pc \<in> set respC \<Longrightarrow> pc_Bid pc \<noteq> None" and "\<And>c. send c = None"
  shows "send_commitments send respC =
    (Ok (), map (\<lambda>pc. rpc_commitment_of pc (the (pc_Bid pc))) respC)"
  using assms(1)
proof (induction respC)
  case (Cons pc respC)
  from Cons.prems [of pc] obtain b where "pc_Bid pc = Some b" by auto
  with Cons assms(2) show ?case by simp
qed simp

section \<open>Amounts\<close>

lemma get_amount_Ok:
  "get_amount msg get w = (Ok s, w') \<longleftrightarrow> (\<exists>n. get w = (Ok n, w') \<and> s = show_int n)"
  by (auto simp: get_amount_def abind_eq_Ok)

text \<open>An amount that is returned reads back as the amount on chain.\<close>

lemma get_amount_reads:
  "get_amount msg get w = (Ok s, w') \<Longrightarrow> \<exists>n. get w = (Ok n, w') \<and> set_string10 s = Some n"
  by (auto simp: get_amount_Ok set_string10_show)

text \<open>
  A registration whose transaction was mined and failed is answered with the stake, as a
  success.
\<close>

lemma RegisterStake_reverted:
  assumes "validate txt = None" and "set_string10 txt = Some n"
    and "abi_Pack (cc_abi r) ''registerAndStake'' [] = Inr callData"
    and "ei_Send (cc_client r) (call_request (cc_addr r) callData (Some n)) w = (Ok h, w1)"
    and "ei_WaitForReceipt (cc_client r) h w1 = (Ok \<lparr> rc_Status = ReceiptStatusFailed \<rparr>, w2)"
    and "GetStake r own w2 = (Ok st, w3)"
  shows "providerapi_RegisterStake validate r own txt w = (Ok (show_int st), w3)"
proof -
  have "RegisterProvider r (Some n) w = (Ok (), w2)"
    using assms(3-5) unfolding RegisterProvider_def by (rule paid_call_ignores_status)
  with assms(1,2,6) show ?thesis
    by (simp add: providerapi_RegisterStake_def abind_def awrap_def get_amount_def)
qed

end
