(* ===== verification/Message_Rules.thy ===== *)
theory Message_Rules
  imports Rpc_Services Bid_Signer
begin

text \<open>
  The validation rules of the two client APIs, as \<open>rpc/bidderapi/v1/bidderapi.proto\<close> and
  \<open>rpc/providerapi/v1/providerapi.proto\<close> state them (CEL expressions and field constraints,
  which \<open>protovalidate\<close> evaluates; an expression that cannot be evaluated refuses the
  message). The lemmas relate the rules of the two nodes: what the bidder's node accepts can
  be signed, and the provider's node does not refuse it for its format.
\<close>

section \<open>The expressions\<close>

text \<open>\<open>matches('^[a-fA-F0-9]{64}$')\<close>.\<close>

definition hex_char :: "char \<Rightarrow> bool" where
  "hex_char c \<longleftrightarrow> c \<in> set ''0123456789abcdefABCDEF''"

definition hash_rule :: "string \<Rightarrow> bool" where
  "hash_rule r \<longleftrightarrow> length r = 64 \<and> list_all hex_char r"

definition hashes_rule :: "string list \<Rightarrow> bool" where
  "hashes_rule hs \<longleftrightarrow> list_all hash_rule hs \<and> 0 < length hs"

text \<open>
  \<open>matches('^[0-9]+$') && uint(this) > 0\<close>: the conversion to a 64-bit number fails on a text
  that does not fit.
\<close>

definition uint_of_text :: "string \<Rightarrow> nat option" where
  "uint_of_text s =
     (case scan_nat s of
        None \<Rightarrow> None
      | Some n \<Rightarrow> if n < 2 ^ 64 then Some n else None)"

definition amount_rule :: "string \<Rightarrow> bool" where
  "amount_rule s \<longleftrightarrow>
     s \<noteq> [] \<and> list_all (\<lambda>c. digit_val c \<noteq> None) s \<and>
     (case uint_of_text s of None \<Rightarrow> False | Some n \<Rightarrow> 0 < n)"

text \<open>\<open>uint(this) > 0\<close> on an \<open>int64\<close>: the conversion of a negative number fails.\<close>

definition positive_rule :: "i64 \<Rightarrow> bool" where
  "positive_rule x \<longleftrightarrow> 0 \<le> sint x \<and> 0 < unat x"

section \<open>The messages\<close>

definition bidder_bid_rule :: "rpc_bid \<Rightarrow> bool" where
  "bidder_bid_rule b \<longleftrightarrow>
     hashes_rule (rb_TxHashes b) \<and> amount_rule (rb_Amount b) \<and> positive_rule (rb_BlockNumber b) \<and>
     positive_rule (rb_DecayStart b) \<and> positive_rule (rb_DecayEnd b)"

definition provider_bid_rule :: "prov_bid \<Rightarrow> bool" where
  "provider_bid_rule m \<longleftrightarrow>
     hashes_rule (pb_TxHashes m) \<and> amount_rule (pb_BidAmount m) \<and> 0 < sint (pb_BlockNumber m) \<and>
     1 \<le> length (bval (pb_BidDigest m)) \<and> length (bval (pb_BidDigest m)) \<le> 64 \<and>
     positive_rule (pb_DecayStart m) \<and> positive_rule (pb_DecayEnd m)"

fun response_rule :: "bid_status \<Rightarrow> bool" where
  "response_rule STATUS_ACCEPTED = True"
| "response_rule STATUS_REJECTED = True"
| "response_rule STATUS_UNSPECIFIED = False"
| "response_rule (STATUS_OTHER n) = False"

text \<open>A validator for a rule, as the services take it.\<close>

definition validate_by :: "('m \<Rightarrow> bool) \<Rightarrow> 'm \<Rightarrow> go_error option" where
  "validate_by rule m = (if rule m then None else Some (Err_Lib ''validation error''))"

lemma validate_by_None [simp]: "validate_by rule m = None \<longleftrightarrow> rule m"
  by (simp add: validate_by_def)

section \<open>What the rules give\<close>

lemma positive_rule_iff: "positive_rule x \<longleftrightarrow> 0 < sint x"
proof -
  have "x = 0 \<longleftrightarrow> sint x = 0" by (metis signed_0 signed_word_eqI)
  then have "0 < unat x \<longleftrightarrow> sint x \<noteq> 0" by (simp add: unat_gt_0)
  then show ?thesis unfolding positive_rule_def by linarith
qed

lemma positive_rule_small:
  assumes "unat x < 2 ^ 63"
  shows "positive_rule x \<longleftrightarrow> 0 < unat x"
proof -
  from assms have "int (unat x) < int (2 ^ 63)" by (simp only: of_nat_less_iff)
  then have "uint x < 2 ^ 63" by (simp only: uint_nat of_nat_power of_nat_numeral)
  then have "signed_take_bit (LENGTH(64) - Suc 0) (uint x) = uint x"
    by (intro signed_take_bit_int_eq_self) (simp_all add: order_trans [of _ 0])
  then have "sint x = uint x" by (simp only: sint_uint)
  then have "0 \<le> sint x" by simp
  then show ?thesis by (simp add: positive_rule_def)
qed

lemma hash_rule_no_comma: "hash_rule r \<Longrightarrow> CHR '','' \<notin> set r"
proof -
  have "\<not> hex_char CHR '',''" by (simp add: hex_char_def)
  then show "hash_rule r \<Longrightarrow> ?thesis" by (auto simp: hash_rule_def list_all_iff)
qed

lemma hashes_rule_ok: "hashes_rule hs \<Longrightarrow> hashes_ok hs"
  by (auto simp: hashes_rule_def hashes_ok_def list_all_iff dest: hash_rule_no_comma)

lemma hashes_rule_joined: "hashes_rule hs \<Longrightarrow> join_with '','' hs \<noteq> []"
  by (cases hs; cases "tl hs") (auto simp: hashes_rule_def hash_rule_def)

lemma set_string10_digits:
  assumes "s \<noteq> []" "list_all (\<lambda>c. digit_val c \<noteq> None) s"
  shows "set_string10 s = map_option int (scan_nat s)"
  using assms by (cases s) (auto simp: set_string10_def sign_not_digit)

lemma amount_rule_number:
  assumes "amount_rule s"
  obtains n where "set_string10 s = Some (int n)" "0 < n" "n < 2 ^ 64"
  using assms set_string10_digits [of s]
  by (auto simp: amount_rule_def uint_of_text_def split: option.splits if_splits)

lemma amount_rule_show: "amount_rule (show_nat n) \<longleftrightarrow> 0 < n \<and> n < 2 ^ 64"
  using show_nat_digits
  by (auto simp: amount_rule_def uint_of_text_def scan_nat_def scan_digits_show list_all_iff)

section \<open>The rules of the two nodes\<close>

text \<open>
  A bid that the bidder's node made from a request which passed its rules passes the rules
  that the provider's node checks before it hands the bid to its client.
\<close>

lemma signed_bid_passes:
  assumes "signs_as C ks a" and "bidder_bid_rule rb"
    and "signer_ConstructSignedBid C ks (join_with '','' (rb_TxHashes rb)) (rb_Amount rb)
           (rb_BlockNumber rb) (rb_DecayStart rb) (rb_DecayEnd rb) = Ok b"
  shows "provider_bid_rule (to_prov_bid b) \<and> pb_TxHashes (to_prov_bid b) = rb_TxHashes rb"
proof -
  have "bid_wf b" using ConstructSignedBid_wf [OF assms(1,3)] .
  then have "length (bval (Digest b)) = 32"
    by (auto simp: bid_wf_def wire_ok_def split: option.splits)
  moreover have "TxHash b = join_with '','' (rb_TxHashes rb)" "BidAmount b = rb_Amount rb"
    "BlockNumber b = rb_BlockNumber rb" "DecayStartTimestamp b = rb_DecayStart rb"
    "DecayEndTimestamp b = rb_DecayEnd rb"
    using assms(3) by (auto simp: signer_ConstructSignedBid_def Let_def split: if_splits)
  ultimately show ?thesis
    using assms(2) split_joined [OF hashes_rule_ok]
    by (simp add: provider_bid_rule_def bidder_bid_rule_def to_prov_bid_def positive_rule_iff)
qed

lemma accepted_bid_signs:
  assumes "signs_as C ks a" and "bidder_bid_rule rb"
  shows "\<exists>b. signer_ConstructSignedBid C ks (join_with '','' (rb_TxHashes rb)) (rb_Amount rb)
           (rb_BlockNumber rb) (rb_DecayStart rb) (rb_DecayEnd rb) = Ok b \<and>
         signer_VerifyBid C (Some b) = Ok a \<and> provider_bid_rule (to_prov_bid b) \<and>
         pb_TxHashes (to_prov_bid b) = rb_TxHashes rb"
proof -
  from assms(2) have r: "hashes_rule (rb_TxHashes rb)" "amount_rule (rb_Amount rb)"
    "positive_rule (rb_BlockNumber rb)" by (simp_all add: bidder_bid_rule_def)
  obtain n where n: "set_string10 (rb_Amount rb) = Some (int n)" using r(2) by (rule amount_rule_number)
  from r(3) have "rb_BlockNumber rb \<noteq> 0" by (auto simp: positive_rule_def)
  with pks.construct_ok [of "(C, ks)" a, OF _ hashes_rule_joined [OF r(1)] _ n] assms(1)
  obtain b where "signer_ConstructSignedBid C ks (join_with '','' (rb_TxHashes rb)) (rb_Amount rb)
      (rb_BlockNumber rb) (rb_DecayStart rb) (rb_DecayEnd rb) = Ok b" "signer_VerifyBid C (Some b) = Ok a"
    by (fastforce simp: NewSigner_def)
  with signed_bid_passes [OF assms this(1)] show ?thesis by blast
qed

text \<open>An accepted amount is the number that goes to the contract, as an unsigned word.\<close>

lemma amount_rule_stored:
  assumes "amount_rule s"
  obtains n v where "set_string10 s = Some n" "big_Int64 (Some n) = Ok v" "uint v = n" "0 < n"
proof -
  from assms obtain n where n: "set_string10 s = Some (int n)" "0 < n" "n < 2 ^ 64"
    by (rule amount_rule_number)
  then have "big_Int64 (Some (int n)) = Ok (word_of_int (int n))" "0 \<le> int n" "int n < 2 ^ 64"
    by (simp_all add: big_Int64_def)
  with that [OF n(1)] big_Int64_exact [of "int n"] n(2) show thesis by simp
qed

end
