(* ===== verification/Key_Files.thy ===== *)
theory Key_Files
  imports Eth_Lib
begin

text \<open>
  The key signers' files: \<open>pkg/keysigner/privatekeysigner.go\<close> and
  \<open>keystoresigner.go\<close>. The file system is a map from paths to contents; what the operating
  system answers is an environment. The lemmas show that a node keeps its key, and so its
  address, when it is started again.
\<close>

section \<open>path/filepath\<close>

text \<open>
  \<open>Clean\<close> on Unix: empty and \<open>.\<close> elements are dropped, \<open>..\<close> removes the element before
  it; at the root it is dropped, at the start of a relative path it stays.
\<close>

fun clean_elems :: "bool \<Rightarrow> string list \<Rightarrow> string list \<Rightarrow> string list" where
  "clean_elems rooted out [] = rev out"
| "clean_elems rooted out (e # es) =
     (if e = [] \<or> e = ''.'' then clean_elems rooted out es
      else if e \<noteq> ''..'' then clean_elems rooted (e # out) es
      else (case out of
              [] \<Rightarrow> clean_elems rooted (if rooted then [] else [e]) es
            | d # out' \<Rightarrow>
                clean_elems rooted (if d = ''..'' then e # out else out') es))"

definition fp_Clean :: "string \<Rightarrow> string" where
  "fp_Clean p =
     (let rooted = (p \<noteq> [] \<and> hd p = CHR ''/'');
          out = join_with ''/'' (clean_elems rooted [] (split_on CHR ''/'' p))
      in if rooted then CHR ''/'' # out else if out = [] then ''.'' else out)"

definition fp_Join :: "string list \<Rightarrow> string" where
  "fp_Join elems =
     (case dropWhile (\<lambda>e. e = []) elems of [] \<Rightarrow> [] | es \<Rightarrow> fp_Clean (join_with ''/'' es))"

text \<open>\<open>Dir\<close> cleans all up to the last slash.\<close>

definition fp_Dir :: "string \<Rightarrow> string" where
  "fp_Dir p = fp_Clean (rev (dropWhile (\<lambda>c. c \<noteq> CHR ''/'') (rev p)))"

section \<open>The environment\<close>

text \<open>
  \<open>crypto.LoadECDSA\<close>, \<open>crypto.SaveECDSA\<close> and \<open>crypto.GenerateKey\<close> are functions of the
  crypto library: \<open>kl_decode\<close> reads a key file's contents, \<open>kl_encode\<close> makes them.
  \<open>os_Stat\<close> and \<open>os_Read\<close> are errors other than a missing file, \<open>os_Mkdir\<close> and
  \<open>os_Write\<close> the outcomes of creating directories and writing a file.
\<close>

record 'key key_lib =
  kl_encode :: "'key \<Rightarrow> bytes"
  kl_decode :: "bytes \<Rightarrow> go_error + 'key"

record 'key key_env =
  os_Home :: "go_error + string"
  os_Stat :: "string \<Rightarrow> go_error option"
  os_Mkdir :: "string \<Rightarrow> go_error option"
  os_Read :: "string \<Rightarrow> go_error option"
  os_Write :: "string \<Rightarrow> go_error option"
  gen_key :: "go_error + 'key"

type_synonym files = "string \<rightharpoonup> bytes"

definition read_file :: "'key key_env \<Rightarrow> string \<Rightarrow> files \<Rightarrow> go_error + bytes" where
  "read_file E path fs =
     (case os_Read E path of
        Some err \<Rightarrow> Inl err
      | None \<Rightarrow> (case fs path of None \<Rightarrow> Inl (Err_Lib ''no such file'') | Some b \<Rightarrow> Inr b))"

section \<open>NewPrivateKeySigner\<close>

definition resolveFilePath :: "'key key_env \<Rightarrow> string \<Rightarrow> string outcome" where
  "resolveFilePath E path =
     (if path = [] then Fail (Err_Msg ''path is empty'')
      else if hd path = CHR ''~''
      then obind (of_sum (os_Home E)) (\<lambda>home. Ok (fp_Join [home, tl path]))
      else Ok path)"

text \<open>Any error of \<open>os.Stat\<close>, not only a missing file, leads to a new key.\<close>

definition createKeyIfNotExists ::
  "'key key_lib \<Rightarrow> 'key key_env \<Rightarrow> string \<Rightarrow> (files, unit) act" where
  "createKeyIfNotExists K E path = (\<lambda>fs.
     if os_Stat E path = None \<and> fs path \<noteq> None then (Ok (), fs)
     else (case os_Mkdir E (fp_Dir path) of
        Some err \<Rightarrow> (Fail err, fs)
      | None \<Rightarrow>
         (case gen_key E of
            Inl err \<Rightarrow> (Fail err, fs)
          | Inr key \<Rightarrow>
             (case os_Write E path of
                Some err \<Rightarrow> (Fail err, fs)
              | None \<Rightarrow> (Ok (), fs(path \<mapsto> kl_encode K key))))))"

definition LoadECDSA :: "'key key_lib \<Rightarrow> 'key key_env \<Rightarrow> string \<Rightarrow> (files, 'key) act" where
  "LoadECDSA K E path = (\<lambda>fs.
     (case read_file E path fs of
        Inl err \<Rightarrow> Fail err
      | Inr b \<Rightarrow> of_sum (kl_decode K b), fs))"

record 'key pk_signer =
  pks_path :: string
  pks_privKey :: 'key

definition NewPrivateKeySigner ::
  "'key key_lib \<Rightarrow> 'key key_env \<Rightarrow> string \<Rightarrow> (files, 'key pk_signer) act" where
  "NewPrivateKeySigner K E path =
     abind (awrap (Err_Wrap ''failed to get private key file path'') (alift (resolveFilePath E path)))
       (\<lambda>privKeyFile.
     abind (awrap (Err_Wrap ''failed to create private key'') (createKeyIfNotExists K E privKeyFile))
       (\<lambda>_.
     abind (awrap (Err_Wrap ''failed to load private key from file'') (LoadECDSA K E privKeyFile))
       (\<lambda>privKey. aret \<lparr> pks_path = privKeyFile, pks_privKey = privKey \<rparr>)))"

text \<open>The methods: hashes are signed by \<open>PrivateKeySigner\<close> with the key.\<close>

definition pks_KeySigner :: "('key, 'pub) eth_lib \<Rightarrow> 'key pk_signer \<Rightarrow> key_signer" where
  "pks_KeySigner C s = PrivateKeySigner C (pks_privKey s)"

definition pks_GetPrivateKey :: "'key pk_signer \<Rightarrow> 'key outcome" where
  "pks_GetPrivateKey s = Ok (pks_privKey s)"

text \<open>The key stays in memory with this signer, so zeroing it does nothing.\<close>

definition pks_ZeroPrivateKey :: "'key \<Rightarrow> 'key" where
  "pks_ZeroPrivateKey key = key"

definition pks_String :: "'key pk_signer \<Rightarrow> string" where
  "pks_String s = pks_path s"

section \<open>The keystore signer\<close>

text \<open>
  The keystore is a library: its accounts, the creation of one, and signing with a
  passphrase. An account has an address and the path of its file.
\<close>

record account =
  acc_Address :: address
  acc_Path :: string

record keystore_lib =
  ks_Accounts :: "account list"
  ks_NewAccount :: "string \<Rightarrow> go_error + account"
  ks_SignHash :: "account \<Rightarrow> string \<Rightarrow> bytes \<Rightarrow> go_error + bytes"

record keystore_signer =
  kss_password :: string
  kss_account :: account

definition NewKeystoreSigner :: "keystore_lib \<Rightarrow> string \<Rightarrow> keystore_signer outcome" where
  "NewKeystoreSigner L password =
     obind (case ks_Accounts L of
              [] \<Rightarrow>
                (case ks_NewAccount L password of
                   Inl err \<Rightarrow> Fail (Err_Wrap ''failed to create account'' err)
                 | Inr a \<Rightarrow> Ok a)
            | a # _ \<Rightarrow> Ok a)
       (\<lambda>a. Ok \<lparr> kss_password = password, kss_account = a \<rparr>)"

definition kss_KeySigner :: "keystore_lib \<Rightarrow> keystore_signer \<Rightarrow> key_signer" where
  "kss_KeySigner L s =
     \<lparr> SignHash = (\<lambda>hash. ks_SignHash L (kss_account s) (kss_password s) hash),
       GetAddress = acc_Address (kss_account s) \<rparr>"

text \<open>
  \<open>extractPrivateKey\<close> returns the key and the buffer of the file's contents as it leaves
  it. \<open>decrypt\<close> is \<open>keystore.DecryptKey\<close>. A key is wiped by clearing the words of its
  number.
\<close>

definition extractPrivateKey ::
  "(bytes \<Rightarrow> string \<Rightarrow> go_error + 'key) \<Rightarrow> 'key key_env \<Rightarrow> string \<Rightarrow> string \<Rightarrow> files \<Rightarrow>
     'key outcome \<times> bytes" where
  "extractPrivateKey decrypt E keystoreFile passphrase fs =
     (case read_file E keystoreFile fs of
        Inl err \<Rightarrow> (Fail err, [])
      | Inr keyjson \<Rightarrow>
         (case decrypt keyjson passphrase of
            Inl err \<Rightarrow> (Fail err, keyjson)
          | Inr key \<Rightarrow> (Ok key, map (\<lambda>_. 0) keyjson)))"

definition kss_GetPrivateKey ::
  "(bytes \<Rightarrow> string \<Rightarrow> go_error + 'key) \<Rightarrow> 'key key_env \<Rightarrow> keystore_signer \<Rightarrow> files \<Rightarrow> 'key outcome" where
  "kss_GetPrivateKey decrypt E s fs =
     fst (extractPrivateKey decrypt E (acc_Path (kss_account s)) (kss_password s) fs)"

definition kss_ZeroPrivateKey :: "64 word list \<Rightarrow> 64 word list" where
  "kss_ZeroPrivateKey bits = map (\<lambda>_. 0) bits"

section \<open>The key survives a restart\<close>

definition key_lib_ok :: "'key key_lib \<Rightarrow> bool" where
  "key_lib_ok K \<longleftrightarrow> (\<forall>key. kl_decode K (kl_encode K key) = Inr key)"

text \<open>The key file after a successful start holds the signer's key.\<close>

lemma NewPrivateKeySigner_Ok:
  assumes "NewPrivateKeySigner K E path fs = (Ok s, fs')"
  shows "resolveFilePath E path = Ok (pks_path s)"
    and "\<exists>b. fs' (pks_path s) = Some b \<and> kl_decode K b = Inr (pks_privKey s)"
    and "p \<noteq> pks_path s \<Longrightarrow> fs' p = fs p"
    and "os_Stat E (pks_path s) = None \<Longrightarrow> fs (pks_path s) \<noteq> None \<Longrightarrow> fs' = fs"
proof -
  from assms obtain u where run: "resolveFilePath E path = Ok (pks_path s)"
    "createKeyIfNotExists K E (pks_path s) fs = (Ok u, fs')"
    "LoadECDSA K E (pks_path s) fs' = (Ok (pks_privKey s), fs')"
    by (auto simp: NewPrivateKeySigner_def abind_eq_Ok LoadECDSA_def)
  show "resolveFilePath E path = Ok (pks_path s)" by (rule run)
  show "\<exists>b. fs' (pks_path s) = Some b \<and> kl_decode K b = Inr (pks_privKey s)"
    using run(3) by (auto simp: LoadECDSA_def read_file_def split: sum.splits option.splits)
  show "fs' p = fs p" if "p \<noteq> pks_path s"
    using run(2) that
    by (auto simp: createKeyIfNotExists_def split: if_splits option.splits sum.splits)
  show "fs' = fs" if "os_Stat E (pks_path s) = None" "fs (pks_path s) \<noteq> None"
    using run(2) that by (simp add: createKeyIfNotExists_def)
qed

text \<open>A later start, with whatever fresh key the library would generate.\<close>

definition later_start_ok :: "'key key_env \<Rightarrow> 'key key_env \<Rightarrow> string \<Rightarrow> bool" where
  "later_start_ok E E' path \<longleftrightarrow>
     os_Home E' = os_Home E \<and> os_Stat E' path = None \<and> os_Read E' path = None"

lemma restart_keeps_key:
  assumes "NewPrivateKeySigner K E path fs = (Ok s, fs')" and "later_start_ok E E' (pks_path s)"
    and "fs'' (pks_path s) = fs' (pks_path s)"
  shows "NewPrivateKeySigner K E' path fs'' = (Ok s, fs'')"
proof -
  note first = NewPrivateKeySigner_Ok [OF assms(1)]
  obtain b where b: "fs'' (pks_path s) = Some b" "kl_decode K b = Inr (pks_privKey s)"
    using first(2) assms(3) by auto
  have "resolveFilePath E' path = Ok (pks_path s)"
    using first(1) assms(2) by (auto simp: resolveFilePath_def later_start_ok_def split: if_splits)
  moreover have "createKeyIfNotExists K E' (pks_path s) fs'' = (Ok (), fs'')"
    using assms(2) b by (simp add: createKeyIfNotExists_def later_start_ok_def)
  moreover have "LoadECDSA K E' (pks_path s) fs'' = (Ok (pks_privKey s), fs'')"
    using assms(2) b by (simp add: LoadECDSA_def read_file_def later_start_ok_def)
  ultimately show ?thesis by (simp add: NewPrivateKeySigner_def abind_Ok awrap_Ok)
qed

text \<open>
  A start without a key file makes a signer of the fresh key; so does one at which \<open>os.Stat\<close>
  fails for another reason, which replaces the key in the file.
\<close>

lemma fresh_start:
  assumes "key_lib_ok K" "resolveFilePath E path = Ok p" "fs p = None \<or> os_Stat E p \<noteq> None"
    and "gen_key E = Inr key"
    and "os_Mkdir E (fp_Dir p) = None" "os_Write E p = None" "os_Read E p = None"
  shows "NewPrivateKeySigner K E path fs =
    (Ok \<lparr> pks_path = p, pks_privKey = key \<rparr>, fs(p \<mapsto> kl_encode K key))"
proof -
  have "createKeyIfNotExists K E p fs = (Ok (), fs(p \<mapsto> kl_encode K key))"
    using assms by (auto simp: createKeyIfNotExists_def)
  moreover have "LoadECDSA K E p (fs(p \<mapsto> kl_encode K key)) = (Ok key, fs(p \<mapsto> kl_encode K key))"
    using assms by (simp add: LoadECDSA_def read_file_def key_lib_ok_def)
  ultimately show ?thesis using assms(2) by (simp add: NewPrivateKeySigner_def abind_Ok awrap_Ok)
qed

end
