(* ===== verification/Launcher.thy ===== *)
theory Launcher
  imports Key_Files
begin

text \<open>
  The command line and its helpers: the options, their checks and the launch of
  \<open>cmd/main.go\<close>, \<open>pkg/util/util.go\<close> and \<open>version.go\<close>. The option parser is a library: it
  gives the values that were set. The lemmas show that checked options make a logger and a
  valid peer type.
\<close>

section \<open>Option checks\<close>

definition portCheck :: "int \<Rightarrow> unit outcome" where
  "portCheck p =
     (if p < 0 \<or> p > 65535 then Fail (Err_Msg ''invalid port number'') else Ok ())"

definition stringInCheck :: "string list \<Rightarrow> string \<Rightarrow> unit outcome" where
  "stringInCheck opts p = (if p \<notin> set opts then Fail (Err_Msg ''invalid option'') else Ok ())"

definition tag_ok :: "string \<Rightarrow> bool" where
  "tag_ok p \<longleftrightarrow> length (split_on CHR '':'' p) = 2"

text \<open>The action of \<open>log-tags\<close>: each comma-separated part has exactly one colon.\<close>

definition logTagsCheck :: "string \<Rightarrow> unit outcome" where
  "logTagsCheck s =
     (if \<exists>p \<in> set (split_on CHR '','' s). \<not> tag_ok p
      then Fail (Err_Msg ''invalid log-tags'') else Ok ())"

definition verifyKeystorePasswordPresence :: "bool \<Rightarrow> bool \<Rightarrow> unit outcome" where
  "verifyKeystorePasswordPresence pathSet passwordSet =
     (if pathSet \<and> \<not> passwordSet
      then Fail (Err_Msg ''Password for encrypted keystore is missing'') else Ok ())"

datatype key_source = FromKeystore string string | FromKeyFile string

definition newKeySigner :: "bool \<Rightarrow> string \<Rightarrow> string \<Rightarrow> string \<Rightarrow> key_source" where
  "newKeySigner pathSet path password keyFile =
     (if pathSet then FromKeystore path password else FromKeyFile keyFile)"

section \<open>The logger\<close>

text \<open>
  \<open>NewLogger\<close> returns the handler's format and the tag arguments. \<open>levelOk\<close> is
  \<open>slog\<close>'s parsing of the level, \<open>utf8\<close> is \<open>strings.ToValidUTF8\<close>.
\<close>

datatype log_format = LogText | LogJson

fun tag_args :: "(string \<Rightarrow> string) \<Rightarrow> string list \<Rightarrow> string list outcome" where
  "tag_args utf8 [] = Ok []"
| "tag_args utf8 (p # ps) =
     (case split_on CHR '':'' p of
        [k, v] \<Rightarrow> obind (tag_args utf8 ps) (\<lambda>args. Ok (utf8 k # utf8 v # args))
      | _ \<Rightarrow> Fail (Err_Msg ''invalid tag''))"

definition NewLogger ::
  "(string \<Rightarrow> go_error option) \<Rightarrow> (string \<Rightarrow> string) \<Rightarrow> string \<Rightarrow> string \<Rightarrow> string \<Rightarrow>
     (log_format \<times> string list) outcome" where
  "NewLogger levelOk utf8 lvl logFmt tags =
     (case levelOk lvl of
        Some err \<Rightarrow> Fail (Err_Wrap ''invalid log level'' err)
      | None \<Rightarrow>
          obind (if logFmt = ''text'' then Ok LogText
                 else if logFmt = ''json'' \<or> logFmt = ''none'' then Ok LogJson
                 else Fail (Err_Msg ''invalid log format'')) (\<lambda>h.
            if tags = [] then Ok (h, [])
            else obind (tag_args utf8 (split_on CHR '','' tags)) (\<lambda>args. Ok (h, args))))"

section \<open>The options\<close>

text \<open>
  The flags of the application with their defaults and actions. A flag's action runs when
  the flag is set. \<open>addrs\<close> holds the contract addresses of the test network (a library).
\<close>

datatype opt_value = VStr string | VInt int | VList "string list"

record cli_flag =
  fl_name :: string
  fl_env :: string
  fl_default :: opt_value
  fl_action :: "opt_value \<Rightarrow> unit outcome"

record contract_addrs =
  tc_BidderRegistry :: string
  tc_ProviderRegistry :: string
  tc_PreconfCommitmentStore :: string

definition no_action :: "opt_value \<Rightarrow> unit outcome" where
  "no_action v = Ok ()"

fun port_action :: "opt_value \<Rightarrow> unit outcome" where
  "port_action (VInt p) = portCheck p"
| "port_action _ = Ok ()"

fun string_action :: "(string \<Rightarrow> unit outcome) \<Rightarrow> opt_value \<Rightarrow> unit outcome" where
  "string_action check (VStr s) = check s"
| "string_action check _ = Ok ()"

definition flag :: "string \<Rightarrow> string \<Rightarrow> opt_value \<Rightarrow> (opt_value \<Rightarrow> unit outcome) \<Rightarrow> cli_flag" where
  "flag name env dflt action =
     \<lparr> fl_name = name, fl_env = env, fl_default = dflt, fl_action = action \<rparr>"

definition peer_type_opts :: "string list" where
  "peer_type_opts = [''bidder'', ''provider'', ''bootnode'']"

definition log_fmt_opts :: "string list" where
  "log_fmt_opts = [''text'', ''json'']"

definition log_level_opts :: "string list" where
  "log_level_opts = [''debug'', ''info'', ''warn'', ''error'']"

definition cli_flags :: "contract_addrs \<Rightarrow> cli_flag list" where
  "cli_flags addrs =
     [flag ''config'' ''MEV_COMMIT_CONFIG'' (VStr []) no_action,
      flag ''peer-type'' ''MEV_COMMIT_PEER_TYPE'' (VStr ''bidder'')
        (string_action (stringInCheck peer_type_opts)),
      flag ''priv-key-file'' ''MEV_COMMIT_PRIVKEY_FILE''
        (VStr (fp_Join [''~/.mev-commit'', ''key''])) no_action,
      flag ''keystore-password'' ''MEV_COMMIT_KEYSTORE_PASSWORD'' (VStr []) no_action,
      flag ''keystore-path'' ''MEV_COMMIT_KEYSTORE_PATH''
        (VStr (fp_Join [''~/.mev-commit'', ''keystore''])) no_action,
      flag ''p2p-port'' ''MEV_COMMIT_P2P_PORT'' (VInt 13522) port_action,
      flag ''p2p-addr'' ''MEV_COMMIT_P2P_ADDR'' (VStr ''0.0.0.0'') no_action,
      flag ''http-port'' ''MEV_COMMIT_HTTP_PORT'' (VInt 13523) port_action,
      flag ''http-addr'' ''MEV_COMMIT_HTTP_ADDR'' (VStr []) no_action,
      flag ''rpc-port'' ''MEV_COMMIT_RPC_PORT'' (VInt 13524) port_action,
      flag ''rpc-addr'' ''MEV_COMMIT_RPC_ADDR'' (VStr []) no_action,
      flag ''bootnodes'' ''MEV_COMMIT_BOOTNODES'' (VList []) no_action,
      flag ''secret'' ''MEV_COMMIT_SECRET'' (VStr ''secret'') no_action,
      flag ''log-fmt'' ''MEV_COMMIT_LOG_FMT'' (VStr ''text'')
        (string_action (stringInCheck log_fmt_opts)),
      flag ''log-level'' ''MEV_COMMIT_LOG_LEVEL'' (VStr ''info'')
        (string_action (stringInCheck log_level_opts)),
      flag ''log-tags'' ''MEV_COMMIT_LOG_TAGS'' (VStr []) (string_action logTagsCheck),
      flag ''bidder-registry-contract'' ''MEV_COMMIT_BIDDER_REGISTRY_ADDR''
        (VStr (tc_BidderRegistry addrs)) no_action,
      flag ''provider-registry-contract'' ''MEV_COMMIT_PROVIDER_REGISTRY_ADDR''
        (VStr (tc_ProviderRegistry addrs)) no_action,
      flag ''preconf-contract'' ''MEV_COMMIT_PRECONF_ADDR''
        (VStr (tc_PreconfCommitmentStore addrs)) no_action,
      flag ''settlement-rpc-endpoint'' ''MEV_COMMIT_SETTLEMENT_RPC_ENDPOINT''
        (VStr ''http://localhost:8545'') no_action,
      flag ''nat-addr'' ''MEV_COMMIT_NAT_ADDR'' (VStr []) no_action,
      flag ''nat-port'' ''MEV_COMMIT_NAT_PORT'' (VInt 13522) no_action,
      flag ''server-tls-certificate'' ''MEV_COMMIT_SERVER_TLS_CERTIFICATE'' (VStr []) no_action,
      flag ''server-tls-private-key'' ''MEV_COMMIT_SERVER_TLS_PRIVATE_KEY'' (VStr []) no_action]"

text \<open>The values the user set, of the flags' types, by flag name.\<close>

type_synonym cli = "string \<rightharpoonup> opt_value"

fun opt_get :: "cli_flag list \<Rightarrow> cli \<Rightarrow> string \<Rightarrow> opt_value option" where
  "opt_get [] c name = None"
| "opt_get (f # fs) c name =
     (if fl_name f = name then Some (case c name of Some v \<Rightarrow> v | None \<Rightarrow> fl_default f)
      else opt_get fs c name)"

definition opt_string :: "cli_flag list \<Rightarrow> cli \<Rightarrow> string \<Rightarrow> string" where
  "opt_string fs c name = (case opt_get fs c name of Some (VStr s) \<Rightarrow> s | _ \<Rightarrow> [])"

definition opt_int :: "cli_flag list \<Rightarrow> cli \<Rightarrow> string \<Rightarrow> int" where
  "opt_int fs c name = (case opt_get fs c name of Some (VInt i) \<Rightarrow> i | _ \<Rightarrow> 0)"

definition opt_list :: "cli_flag list \<Rightarrow> cli \<Rightarrow> string \<Rightarrow> string list" where
  "opt_list fs c name = (case opt_get fs c name of Some (VList xs) \<Rightarrow> xs | _ \<Rightarrow> [])"

definition is_set :: "cli \<Rightarrow> string \<Rightarrow> bool" where
  "is_set c name \<longleftrightarrow> c name \<noteq> None"

fun run_actions :: "cli_flag list \<Rightarrow> cli \<Rightarrow> unit outcome" where
  "run_actions [] c = Ok ()"
| "run_actions (f # fs) c =
     (case c (fl_name f) of
        None \<Rightarrow> run_actions fs c
      | Some v \<Rightarrow> obind (fl_action f v) (\<lambda>_. run_actions fs c))"

section \<open>The launch\<close>

text \<open>\<open>node.Options\<close> as the launch fills it; \<open>Version\<close> is left empty.\<close>

record node_config =
  nc_KeySource :: key_source
  nc_Secret :: string
  nc_PeerType :: string
  nc_P2PPort :: int
  nc_P2PAddr :: string
  nc_HTTPAddr :: string
  nc_RPCAddr :: string
  nc_Bootnodes :: "string list"
  nc_PreconfContract :: string
  nc_ProviderRegistryContract :: string
  nc_BidderRegistryContract :: string
  nc_RPCEndpoint :: string
  nc_NatAddr :: string
  nc_TLSCertificateFile :: string
  nc_TLSPrivateKeyFile :: string

definition host_port :: "string \<Rightarrow> int \<Rightarrow> string" where
  "host_port host port = host @ '':'' @ show_int port"

definition nat_addr_option :: "string \<Rightarrow> int \<Rightarrow> string" where
  "nat_addr_option addr port = (if addr \<noteq> [] then host_port addr port else [])"

definition launch_config :: "cli_flag list \<Rightarrow> cli \<Rightarrow> node_config outcome" where
  "launch_config fs c =
     (let str = opt_string fs c; int = opt_int fs c;
          crtFile = str ''server-tls-certificate''; keyFile = str ''server-tls-private-key''
      in if (crtFile = []) \<noteq> (keyFile = [])
         then Fail (Err_Msg ''both certificate and key must be provided to enable TLS'')
         else Ok
           \<lparr> nc_KeySource = newKeySigner (is_set c ''keystore-path'') (str ''keystore-path'')
                              (str ''keystore-password'') (str ''priv-key-file''),
             nc_Secret = str ''secret'', nc_PeerType = str ''peer-type'',
             nc_P2PPort = int ''p2p-port'', nc_P2PAddr = str ''p2p-addr'',
             nc_HTTPAddr = host_port (str ''http-addr'') (int ''http-port''),
             nc_RPCAddr = host_port (str ''rpc-addr'') (int ''rpc-port''),
             nc_Bootnodes = opt_list fs c ''bootnodes'',
             nc_PreconfContract = str ''preconf-contract'',
             nc_ProviderRegistryContract = str ''provider-registry-contract'',
             nc_BidderRegistryContract = str ''bidder-registry-contract'',
             nc_RPCEndpoint = str ''settlement-rpc-endpoint'',
             nc_NatAddr = nat_addr_option (str ''nat-addr'') (int ''nat-port''),
             nc_TLSCertificateFile = crtFile, nc_TLSPrivateKeyFile = keyFile \<rparr>)"

text \<open>
  \<open>le_NewKeySigner\<close> and \<open>le_NewNode\<close> are the outcomes of the two constructors; after the
  shutdown signal the node is closed, with a limit of five seconds: \<open>le_ClosedInTime\<close>.
\<close>

record launch_env =
  le_Level :: "string \<Rightarrow> go_error option"
  le_Utf8 :: "string \<Rightarrow> string"
  le_NewKeySigner :: "key_source \<Rightarrow> go_error option"
  le_NewNode :: "node_config \<Rightarrow> go_error option"
  le_ClosedInTime :: bool

datatype launch_event = NodeStarted node_config | NodeClosed | CloseTimedOut

definition launchNodeWithConfig ::
  "launch_env \<Rightarrow> cli_flag list \<Rightarrow> cli \<Rightarrow> unit outcome \<times> launch_event list" where
  "launchNodeWithConfig E fs c =
     emit [] (Err_Wrap ''failed to create logger'')
       (NewLogger (le_Level E) (le_Utf8 E) (opt_string fs c ''log-level'') (opt_string fs c ''log-fmt'')
          (opt_string fs c ''log-tags'')) (\<lambda>_.
     case le_NewKeySigner E (newKeySigner (is_set c ''keystore-path'') (opt_string fs c ''keystore-path'')
            (opt_string fs c ''keystore-password'') (opt_string fs c ''priv-key-file'')) of
       Some err \<Rightarrow> (Fail (Err_Wrap ''failed to create keysigner'' err), [])
     | None \<Rightarrow>
         emit [] id (launch_config fs c) (\<lambda>cfg.
         case le_NewNode E cfg of
           Some err \<Rightarrow> (Fail (Err_Wrap ''failed starting node'' err), [])
         | None \<Rightarrow>
             (Ok (), [NodeStarted cfg, if le_ClosedInTime E then NodeClosed else CloseTimedOut])))"

definition initializeApplication ::
  "launch_env \<Rightarrow> cli_flag list \<Rightarrow> cli \<Rightarrow> unit outcome \<times> launch_event list" where
  "initializeApplication E fs c =
     emit [] id (verifyKeystorePasswordPresence (is_set c ''keystore-path'') (is_set c ''keystore-password''))
       (\<lambda>_. launchNodeWithConfig E fs c)"

text \<open>The application: the actions of the flags that are set, then the launch.\<close>

definition app_Run ::
  "launch_env \<Rightarrow> contract_addrs \<Rightarrow> cli \<Rightarrow> unit outcome \<times> launch_event list" where
  "app_Run E addrs c =
     emit [] id (run_actions (cli_flags addrs) c) (\<lambda>_. initializeApplication E (cli_flags addrs) c)"

section \<open>The version text and the padded key\<close>

definition Version :: "string \<Rightarrow> string \<Rightarrow> bool \<Rightarrow> string" where
  "Version version revision dirtyBuild =
     (let parts1 = (if version \<noteq> ''unknown'' \<and> version \<noteq> [] then [version] else []);
          parts = (if revision \<noteq> ''unknown'' \<and> revision \<noteq> []
                   then parts1 @ [''rev'', take 7 revision] @
                        (if dirtyBuild then [''dirty''] else [])
                   else parts1)
      in if parts = [] then ''devel'' else join_with ''-'' parts)"

definition PadKeyTo32Bytes :: "nat \<Rightarrow> bytes" where
  "PadKeyTo32Bytes key =
     (let keyBytes = be_bytes key
      in if length keyBytes < 32 then replicate (32 - length keyBytes) 0 @ keyBytes
         else keyBytes)"

section \<open>Properties\<close>

lemma be_val_append: "be_val (xs @ ys) = be_val xs * 256 ^ length ys + be_val ys"
  by (induction xs) (simp_all add: power_add algebra_simps)

lemma be_val_bytes: "be_val (be_bytes n) = n"
proof (induction n rule: be_bytes.induct)
  case (1 n)
  show ?case
  proof (cases "n = 0")
    case True
    then show ?thesis by (simp add: be_bytes.simps [of 0])
  next
    case False
    with 1 show ?thesis by (simp add: be_bytes.simps [of n] be_val_append unat_of_nat)
  qed
qed

lemma length_be_bytes: "n < 256 ^ k \<Longrightarrow> length (be_bytes n) \<le> k"
proof (induction k arbitrary: n)
  case 0
  then show ?case by (simp add: be_bytes.simps)
next
  case (Suc k)
  then have "length (be_bytes (n div 256)) \<le> k"
    by (intro Suc.IH) (simp add: less_mult_imp_div_less mult.commute)
  then show ?case by (subst be_bytes.simps) simp
qed

lemma be_val_zeros: "be_val (replicate k 0 @ xs) = be_val xs"
  by (induction k) simp_all

lemma PadKey_value: "be_val (PadKeyTo32Bytes n) = n"
  by (simp add: PadKeyTo32Bytes_def be_val_zeros be_val_bytes Let_def)

lemma PadKey_length: "n < 2 ^ 256 \<Longrightarrow> length (PadKeyTo32Bytes n) = 32"
  using length_be_bytes [of n 32] by (simp add: PadKeyTo32Bytes_def Let_def)

lemma tag_args_ok: "ok (tag_args utf8 ps) \<longleftrightarrow> (\<forall>p \<in> set ps. tag_ok p)"
proof (induction ps)
  case (Cons p ps)
  have two: "tag_ok p \<longleftrightarrow> (\<exists>k v. split_on CHR '':'' p = [k, v])"
    unfolding tag_ok_def by (auto simp: length_Suc_conv numeral_2_eq_2)
  show ?case
  proof (cases "tag_ok p")
    case True
    with two obtain k v where "split_on CHR '':'' p = [k, v]" by blast
    with True Cons show ?thesis by (cases "tag_args utf8 ps") simp_all
  next
    case False
    with two have "tag_args utf8 (p # ps) = Fail (Err_Msg ''invalid tag'')"
      by (auto split: list.split)
    with False show ?thesis by simp
  qed
qed simp

text \<open>
  The option check and the logger agree: with a level and a format that pass their checks,
  the logger is made exactly when the tags are absent or pass theirs.
\<close>

lemma NewLogger_checked:
  assumes "levelOk lvl = None" and "ok (stringInCheck [''text'', ''json''] logFmt)"
  shows "ok (NewLogger levelOk utf8 lvl logFmt tags) \<longleftrightarrow> tags = [] \<or> ok (logTagsCheck tags)"
proof -
  have fmt: "logFmt = ''text'' \<or> logFmt = ''json''"
    using assms(2) by (auto simp: stringInCheck_def split: if_splits)
  have "ok (logTagsCheck tags) \<longleftrightarrow> ok (tag_args utf8 (split_on CHR '','' tags))"
    by (auto simp: logTagsCheck_def tag_args_ok)
  then show ?thesis
    using assms(1) fmt
    by (cases "tag_args utf8 (split_on CHR '','' tags)") (auto simp: NewLogger_def)
qed

section \<open>What the checks guarantee\<close>

text \<open>The values are of the types of their flags, as the option parser makes them.\<close>

fun same_kind :: "opt_value \<Rightarrow> opt_value \<Rightarrow> bool" where
  "same_kind (VStr _) (VStr _) = True"
| "same_kind (VInt _) (VInt _) = True"
| "same_kind (VList _) (VList _) = True"
| "same_kind _ _ = False"

definition cli_typed :: "cli_flag list \<Rightarrow> cli \<Rightarrow> bool" where
  "cli_typed fs c \<longleftrightarrow>
     (\<forall>f \<in> set fs. \<forall>v. c (fl_name f) = Some v \<longrightarrow> same_kind (fl_default f) v)"

lemma run_actions_Ok:
  assumes "run_actions fs c = Ok ()" and "f \<in> set fs" and "c (fl_name f) = Some v"
  shows "fl_action f v = Ok ()"
  using assms by (induction fs) (auto split: option.splits)

text \<open>A checked value: a set one passed its action, an unset one is the default.\<close>

lemma checked_value:
  assumes "run_actions fs c = Ok ()" "cli_typed fs c" and f: "f \<in> set fs"
    and get: "opt_get fs c (fl_name f) = Some (case c (fl_name f) of Some v \<Rightarrow> v | None \<Rightarrow> fl_default f)"
    and dflt: "fl_action f (fl_default f) = Ok ()"
  shows "\<exists>v. opt_get fs c (fl_name f) = Some v \<and> fl_action f v = Ok () \<and> same_kind (fl_default f) v"
proof (cases "c (fl_name f)")
  case None
  then show ?thesis using get dflt by (cases "fl_default f") auto
next
  case (Some v)
  then show ?thesis using run_actions_Ok [OF assms(1) f Some] get assms(2) f by (auto simp: cli_typed_def)
qed

lemma same_kind_VStr: "same_kind (VStr s) v \<longleftrightarrow> (\<exists>t. v = VStr t)"
  and same_kind_VInt: "same_kind (VInt i) v \<longleftrightarrow> (\<exists>j. v = VInt j)"
  by (cases v; simp)+

lemma stringInCheck_Ok: "stringInCheck opts s = Ok () \<longleftrightarrow> s \<in> set opts"
  by (simp add: stringInCheck_def)

lemma portCheck_Ok: "portCheck p = Ok () \<longleftrightarrow> 0 \<le> p \<and> p \<le> 65535"
  by (auto simp: portCheck_def)

definition string_flag :: "cli_flag list \<Rightarrow> cli_flag \<Rightarrow> bool" where
  "string_flag fs f \<longleftrightarrow> f \<in> set fs \<and> (\<exists>s. fl_default f = VStr s) \<and> fl_action f (fl_default f) = Ok () \<and>
     (\<forall>c. opt_get fs c (fl_name f) = Some (case c (fl_name f) of Some v \<Rightarrow> v | None \<Rightarrow> fl_default f))"

lemma checked_string:
  assumes "run_actions fs c = Ok ()" "cli_typed fs c" "string_flag fs f"
  shows "fl_action f (VStr (opt_string fs c (fl_name f))) = Ok ()"
proof -
  from assms(3) obtain s where f: "f \<in> set fs" "fl_action f (fl_default f) = Ok ()"
    and s: "fl_default f = VStr s"
    and get: "opt_get fs c (fl_name f) = Some (case c (fl_name f) of Some v \<Rightarrow> v | None \<Rightarrow> fl_default f)"
    unfolding string_flag_def by metis
  from checked_value [OF assms(1,2) f(1) get f(2)] obtain v where
    "opt_get fs c (fl_name f) = Some v" "fl_action f v = Ok ()" "same_kind (VStr s) v"
    unfolding s by blast
  then show ?thesis by (auto simp: same_kind_VStr opt_string_def)
qed

lemma checked_options:
  assumes "run_actions (cli_flags addrs) c = Ok ()" "cli_typed (cli_flags addrs) c"
  shows "opt_string (cli_flags addrs) c ''peer-type'' \<in> set peer_type_opts"
    and "opt_string (cli_flags addrs) c ''log-fmt'' \<in> set log_fmt_opts"
    and "opt_string (cli_flags addrs) c ''log-level'' \<in> set log_level_opts"
    and "opt_string (cli_flags addrs) c ''log-tags'' = [] \<or>
         logTagsCheck (opt_string (cli_flags addrs) c ''log-tags'') = Ok ()"
proof -
  let ?fs = "cli_flags addrs"
  have flags:
    "string_flag ?fs (flag ''peer-type'' ''MEV_COMMIT_PEER_TYPE'' (VStr ''bidder'')
       (string_action (stringInCheck peer_type_opts)))"
    "string_flag ?fs (flag ''log-fmt'' ''MEV_COMMIT_LOG_FMT'' (VStr ''text'')
       (string_action (stringInCheck log_fmt_opts)))"
    "string_flag ?fs (flag ''log-level'' ''MEV_COMMIT_LOG_LEVEL'' (VStr ''info'')
       (string_action (stringInCheck log_level_opts)))"
    by (simp_all add: string_flag_def cli_flags_def flag_def stringInCheck_Ok peer_type_opts_def
        log_fmt_opts_def log_level_opts_def)
  from checked_string [OF assms flags(1)] checked_string [OF assms flags(2)]
    checked_string [OF assms flags(3)]
  show "opt_string ?fs c ''peer-type'' \<in> set peer_type_opts"
    "opt_string ?fs c ''log-fmt'' \<in> set log_fmt_opts"
    "opt_string ?fs c ''log-level'' \<in> set log_level_opts"
    by (simp_all add: flag_def stringInCheck_Ok)
  show "opt_string ?fs c ''log-tags'' = [] \<or> logTagsCheck (opt_string ?fs c ''log-tags'') = Ok ()"
  proof (cases "c ''log-tags''")
    case None
    then show ?thesis by (simp add: opt_string_def cli_flags_def flag_def)
  next
    case (Some v)
    let ?f = "flag ''log-tags'' ''MEV_COMMIT_LOG_TAGS'' (VStr []) (string_action logTagsCheck)"
    have f: "?f \<in> set ?fs" by (simp add: cli_flags_def)
    from run_actions_Ok [OF assms(1) f] Some have "string_action logTagsCheck v = Ok ()"
      by (simp add: flag_def)
    moreover from assms(2) f Some have "same_kind (VStr []) v"
      unfolding cli_typed_def by (force simp: flag_def)
    moreover have "opt_get ?fs c ''log-tags'' = Some v" using Some by (simp add: cli_flags_def flag_def)
    ultimately show ?thesis by (auto simp: same_kind_VStr opt_string_def)
  qed
qed

definition int_flag :: "cli_flag list \<Rightarrow> cli_flag \<Rightarrow> bool" where
  "int_flag fs f \<longleftrightarrow> f \<in> set fs \<and> (\<exists>i. fl_default f = VInt i) \<and> fl_action f (fl_default f) = Ok () \<and>
     (\<forall>c. opt_get fs c (fl_name f) = Some (case c (fl_name f) of Some v \<Rightarrow> v | None \<Rightarrow> fl_default f))"

lemma checked_int:
  assumes "run_actions fs c = Ok ()" "cli_typed fs c" "int_flag fs f"
  shows "fl_action f (VInt (opt_int fs c (fl_name f))) = Ok ()"
proof -
  from assms(3) obtain i where f: "f \<in> set fs" "fl_action f (fl_default f) = Ok ()"
    and i: "fl_default f = VInt i"
    and get: "opt_get fs c (fl_name f) = Some (case c (fl_name f) of Some v \<Rightarrow> v | None \<Rightarrow> fl_default f)"
    unfolding int_flag_def by metis
  from checked_value [OF assms(1,2) f(1) get f(2)] obtain v where
    "opt_get fs c (fl_name f) = Some v" "fl_action f v = Ok ()" "same_kind (VInt i) v"
    unfolding i by blast
  then show ?thesis by (auto simp: same_kind_VInt opt_int_def)
qed

lemma checked_ports:
  assumes "run_actions (cli_flags addrs) c = Ok ()" "cli_typed (cli_flags addrs) c"
  shows "portCheck (opt_int (cli_flags addrs) c ''p2p-port'') = Ok ()"
    and "portCheck (opt_int (cli_flags addrs) c ''http-port'') = Ok ()"
    and "portCheck (opt_int (cli_flags addrs) c ''rpc-port'') = Ok ()"
proof -
  let ?fs = "cli_flags addrs"
  have flags:
    "int_flag ?fs (flag ''p2p-port'' ''MEV_COMMIT_P2P_PORT'' (VInt 13522) port_action)"
    "int_flag ?fs (flag ''http-port'' ''MEV_COMMIT_HTTP_PORT'' (VInt 13523) port_action)"
    "int_flag ?fs (flag ''rpc-port'' ''MEV_COMMIT_RPC_PORT'' (VInt 13524) port_action)"
    by (simp_all add: int_flag_def cli_flags_def flag_def portCheck_Ok)
  from checked_int [OF assms flags(1)] checked_int [OF assms flags(2)]
    checked_int [OF assms flags(3)]
  show "portCheck (opt_int ?fs c ''p2p-port'') = Ok ()"
    "portCheck (opt_int ?fs c ''http-port'') = Ok ()"
    "portCheck (opt_int ?fs c ''rpc-port'') = Ok ()"
    by (simp_all add: flag_def)
qed

text \<open>The action of a flag that has none says nothing about its value.\<close>

lemma run_actions_upd:
  "\<forall>f \<in> set fs. fl_name f = name \<longrightarrow> fl_action f = no_action \<Longrightarrow>
     run_actions fs (c(name \<mapsto> v)) = run_actions fs c"
  by (induction fs) (auto simp: no_action_def split: option.split)

lemma nat_port_unchecked: "run_actions (cli_flags addrs) (c(''nat-port'' \<mapsto> v)) = run_actions (cli_flags addrs) c"
  by (rule run_actions_upd) (simp add: cli_flags_def flag_def)

lemma checked_logger:
  assumes "run_actions (cli_flags addrs) c = Ok ()" "cli_typed (cli_flags addrs) c"
    and "\<And>l. l \<in> set log_level_opts \<Longrightarrow> levelOk l = None"
  shows "ok (NewLogger levelOk utf8 (opt_string (cli_flags addrs) c ''log-level'')
    (opt_string (cli_flags addrs) c ''log-fmt'') (opt_string (cli_flags addrs) c ''log-tags''))"
  using checked_options [OF assms(1,2)] assms(3)
  by (subst NewLogger_checked) (auto simp: stringInCheck_Ok log_fmt_opts_def ok_iff)

end
