(* ===== verification/Bid_Decision.thy ===== *)
theory Bid_Decision
  imports Provider_Api Preconf
begin

text \<open>
  The provider's handler together with the API behind it: the channel that \<open>handleBid\<close> waits
  on is the one \<open>ProcessBid\<close> of the API registered, and the status it reads was put there by
  a response of the provider's client. A status on a channel is a response that came after
  the channel was made.
\<close>

section \<open>Responses since a registration\<close>

definition answers_since :: "nat \<Rightarrow> (bytes \<times> bid_status) list \<Rightarrow> prov_state \<Rightarrow> bool" where
  "answers_since n before s \<longleftrightarrow>
     n \<le> ps_next s \<and>
     (\<exists>rs. ps_responses s = before @ rs \<and>
        (\<forall>k st. n \<le> k \<longrightarrow> st \<in> set (ch_buf (ps_chans s k)) \<or> (k, st) \<in> set (ps_calling s) \<longrightarrow>
           (ps_digest s k, st) \<in> set rs))"

lemma answers_sinceI:
  assumes "n \<le> ps_next s" "ps_responses s = before @ rs"
    and "\<And>k st. n \<le> k \<Longrightarrow> st \<in> set (ch_buf (ps_chans s k)) \<Longrightarrow> (ps_digest s k, st) \<in> set rs"
    and "\<And>k st. n \<le> k \<Longrightarrow> (k, st) \<in> set (ps_calling s) \<Longrightarrow> (ps_digest s k, st) \<in> set rs"
  shows "answers_since n before s"
  unfolding answers_since_def using assms by blast

lemma answers_sinceE:
  assumes "answers_since n before s"
  obtains rs where "n \<le> ps_next s" "ps_responses s = before @ rs"
    and "\<And>k st. n \<le> k \<Longrightarrow> st \<in> set (ch_buf (ps_chans s k)) \<Longrightarrow> (ps_digest s k, st) \<in> set rs"
    and "\<And>k st. n \<le> k \<Longrightarrow> (k, st) \<in> set (ps_calling s) \<Longrightarrow> (ps_digest s k, st) \<in> set rs"
  using assms unfolding answers_since_def by blast

lemma answers_since_registered:
  assumes "prov_inv s"
  shows "answers_since (ps_next s) (ps_responses s) (ProcessBid_register b s)"
proof (rule answers_sinceI [where rs = "[]"])
  fix k st assume "ps_next s \<le> k"
  then show "st \<in> set (ch_buf (ps_chans (ProcessBid_register b s) k)) \<Longrightarrow>
      (ps_digest (ProcessBid_register b s) k, st) \<in> set []"
    and "(k, st) \<in> set (ps_calling (ProcessBid_register b s)) \<Longrightarrow>
      (ps_digest (ProcessBid_register b s) k, st) \<in> set []"
    using prov_inv_bufD(1) [OF assms, of st k] prov_inv_callingD(1) [OF assms, of k st]
    by (auto simp: ProcessBid_register_def Let_def split: if_splits)
qed (simp_all add: ProcessBid_register_def Let_def)

lemma answers_since_register:
  assumes inv: "prov_inv s" and since: "answers_since n before s"
  shows "answers_since n before (ProcessBid_register b s)"
  using since
proof (rule answers_sinceE)
  fix rs assume rs: "n \<le> ps_next s" "ps_responses s = before @ rs"
    "\<And>k st. n \<le> k \<Longrightarrow> st \<in> set (ch_buf (ps_chans s k)) \<Longrightarrow> (ps_digest s k, st) \<in> set rs"
    "\<And>k st. n \<le> k \<Longrightarrow> (k, st) \<in> set (ps_calling s) \<Longrightarrow> (ps_digest s k, st) \<in> set rs"
  have "k \<noteq> ps_next s" if "(k, st) \<in> set (ps_calling s)" for k st
    using prov_inv_callingD(1) [OF inv that] by simp
  with rs show ?thesis
    by (intro answers_sinceI [where rs = rs])
       (auto simp: ProcessBid_register_def Let_def split: if_splits)
qed

lemma answers_since_lookup:
  assumes inv: "prov_inv s" and since: "answers_since n before s"
  shows "answers_since n before (SendProcessedBids_lookup d st s)"
  using since
proof (rule answers_sinceE)
  fix rs assume rs: "n \<le> ps_next s" "ps_responses s = before @ rs"
    "\<And>k st. n \<le> k \<Longrightarrow> st \<in> set (ch_buf (ps_chans s k)) \<Longrightarrow> (ps_digest s k, st) \<in> set rs"
    "\<And>k st. n \<le> k \<Longrightarrow> (k, st) \<in> set (ps_calling s) \<Longrightarrow> (ps_digest s k, st) \<in> set rs"
  then show ?thesis
    by (intro answers_sinceI [where rs = "rs @ [(d, st)]"])
       (auto simp: SendProcessedBids_lookup_def Let_def prov_inv_mapD(4) [OF inv]
          split: option.splits)
qed

lemma answers_since_callback:
  assumes inv: "prov_inv s" and mem: "(k, st) \<in> set (ps_calling s)"
    and run: "callback_run k st s = Some s'" and since: "answers_since n before s"
  shows "answers_since n before s'"
  using since
proof (rule answers_sinceE)
  fix rs assume "n \<le> ps_next s" "ps_responses s = before @ rs"
    "\<And>k st. n \<le> k \<Longrightarrow> st \<in> set (ch_buf (ps_chans s k)) \<Longrightarrow> (ps_digest s k, st) \<in> set rs"
    "\<And>k st. n \<le> k \<Longrightarrow> (k, st) \<in> set (ps_calling s) \<Longrightarrow> (ps_digest s k, st) \<in> set rs"
  with mem run show ?thesis
    by (intro answers_sinceI [where rs = rs])
       (auto simp: callback_runs [OF inv mem] split: if_splits
          dest!: set_remove1_subset [THEN subsetD])
qed

lemma answers_since_take:
  assumes run: "status_take k s = Some (st, s')" and since: "answers_since n before s"
  shows "answers_since n before s'"
  using since
proof (rule answers_sinceE)
  fix rs assume "n \<le> ps_next s" "ps_responses s = before @ rs"
    "\<And>k st. n \<le> k \<Longrightarrow> st \<in> set (ch_buf (ps_chans s k)) \<Longrightarrow> (ps_digest s k, st) \<in> set rs"
    "\<And>k st. n \<le> k \<Longrightarrow> (k, st) \<in> set (ps_calling s) \<Longrightarrow> (ps_digest s k, st) \<in> set rs"
  with run show ?thesis
    by (intro answers_sinceI [where rs = rs])
       (auto simp: status_take_def split: list.splits if_splits)
qed

lemma answers_since_step:
  assumes "prov_step vb vr s l s'" and "prov_inv s" and "answers_since n before s"
  shows "answers_since n before s'"
  using assms
proof (induction rule: prov_step.induct)
  case (cancel s k m)
  then show ?case by (simp add: answers_since_def ProcessBid_cancel_def)
next
  case (receive s k m sent)
  then show ?case by (simp add: answers_since_def ReceiveBids_take_def)
qed (auto intro: answers_since_register answers_since_lookup answers_since_callback answers_since_take)

text \<open>The digest a channel was made for never changes.\<close>

lemma digest_kept:
  assumes "prov_step vb vr s l s'" and "prov_inv s" and "k < ps_next s"
  shows "ps_digest s' k = ps_digest s k \<and> k < ps_next s'"
  using assms
proof (induction rule: prov_step.induct)
  case (callback s k' st s')
  then show ?case by (auto simp: callback_runs)
qed (auto simp: ProcessBid_register_def ProcessBid_cancel_def ReceiveBids_take_def
       SendProcessedBids_lookup_def status_take_def Let_def split: option.splits list.splits if_splits)

lemma since_steps:
  assumes "steps (prov_step vb vr) s ls t" and "prov_inv s" "answers_since n before s" "k < ps_next s"
  shows "prov_inv t \<and> answers_since n before t \<and> ps_digest t k = ps_digest s k"
  using assms
proof (induction rule: steps.induct)
  case (steps_Cons s l s' ls s'')
  from steps_Cons.IH steps_Cons.hyps steps_Cons.prems digest_kept [OF steps_Cons.hyps(1)]
  show ?case by (simp add: prov_inv_step answers_since_step)
qed simp

text \<open>What the channel of a bid holds is an answer to the bid that came after its registration.\<close>

lemma channel_answer:
  assumes "reach prov_start (prov_step vb vr) s"
    and "steps (prov_step vb vr) (ProcessBid_register b s) ls t"
    and "st \<in> set (ch_buf (ps_chans t (ps_next s)))"
  shows "\<exists>rs. ps_responses t = ps_responses s @ rs \<and> (bval (Digest b), st) \<in> set rs"
proof -
  have inv: "prov_inv s" using assms(1) by (rule provider.reach_inv)
  have "ps_digest (ProcessBid_register b s) (ps_next s) = bval (Digest b)"
    "ps_next s < ps_next (ProcessBid_register b s)"
    by (simp_all add: ProcessBid_register_def Let_def)
  with since_steps [OF assms(2) prov_inv_register [OF inv] answers_since_registered [OF inv]]
  have "answers_since (ps_next s) (ps_responses s) t" "ps_digest t (ps_next s) = bval (Digest b)" by auto
  with assms(3) show ?thesis by (auto simp: answers_since_def)
qed

text \<open>A channel that nobody has read yet: when it is closed, its status is still in it.\<close>

definition untaken :: "nat \<Rightarrow> prov_state \<Rightarrow> bool" where
  "untaken k s \<longleftrightarrow> k < ps_next s \<and> (ch_closed (ps_chans s k) \<longrightarrow> ch_buf (ps_chans s k) \<noteq> [])"

lemma untaken_step:
  assumes "prov_step vb vr s l s'" and "prov_inv s" and "\<forall>st. l \<noteq> LTake k st" and "untaken k s"
  shows "untaken k s'"
  using assms
proof (induction rule: prov_step.induct)
  case (callback s k' st s')
  then show ?case by (cases "k = k'") (auto simp: untaken_def callback_runs)
qed (auto simp: untaken_def ProcessBid_register_def ProcessBid_cancel_def ReceiveBids_take_def
       SendProcessedBids_lookup_def status_take_def Let_def split: option.splits list.splits if_splits)

lemma untaken_steps:
  assumes "steps (prov_step vb vr) s ls t" and "prov_inv s" and "\<forall>st. LTake k st \<notin> set ls" and "untaken k s"
  shows "untaken k t"
  using assms
proof (induction rule: steps.induct)
  case (steps_Cons s l s' ls s'')
  have "\<forall>st. l \<noteq> LTake k st" using steps_Cons(5) by auto
  then have "untaken k s'" by (rule untaken_step [OF steps_Cons(1,4) _ steps_Cons(6)])
  with steps_Cons show ?case by (auto intro: prov_inv_step)
qed simp

lemma status_take_untaken:
  "status_take k s = Some (st, s') \<Longrightarrow> untaken k s \<Longrightarrow> st \<in> set (ch_buf (ps_chans s k))"
  by (auto simp: status_take_def untaken_def split: list.splits if_splits)

text \<open>The first status the handler takes from its channel is such an answer.\<close>

lemma taken_answer:
  assumes "reach prov_start (prov_step vb vr) s"
    and "steps (prov_step vb vr) (ProcessBid_register b s) ls t"
    and "\<forall>st. LTake (ps_next s) st \<notin> set ls" and "status_take (ps_next s) t = Some (st, t')"
  shows "\<exists>rs. ps_responses t = ps_responses s @ rs \<and> (bval (Digest b), st) \<in> set rs"
proof (rule channel_answer [OF assms(1,2)])
  have inv: "prov_inv s" using assms(1) by (rule provider.reach_inv)
  have "untaken (ps_next s) (ProcessBid_register b s)"
    by (simp add: untaken_def ProcessBid_register_def new_chan_def Let_def)
  with untaken_steps [OF assms(2) prov_inv_register [OF inv] assms(3)]
  have "untaken (ps_next s) t" .
  with assms(4) show "st \<in> set (ch_buf (ps_chans t (ps_next s)))" by (rule status_take_untaken)
qed

section \<open>The handler and the API\<close>

text \<open>
  The services of a handler that got the bid \<open>b\<close> while the API was in state \<open>s\<close> and looks at
  its channel in state \<open>t\<close>: a call of \<open>ProcessBid\<close> that succeeds has registered the bid and
  handed it to a stream, and returns the new channel; a status it selects is the one the
  channel gives.
\<close>

definition decided_by ::
  "(prov_bid \<Rightarrow> bool) \<Rightarrow> (bid_status \<Rightarrow> bool) \<Rightarrow> bid_services \<Rightarrow> bid \<Rightarrow> prov_state \<Rightarrow> prov_state \<Rightarrow> bool" where
  "decided_by validBid validResponse P b s t \<longleftrightarrow>
     reach prov_start (prov_step validBid validResponse) s \<and> validBid (to_prov_bid b) \<and>
     (\<exists>ls. steps (prov_step validBid validResponse) (ProcessBid_register b s) ls t) \<and>
     (\<forall>c. ProcessBid P b = Ok c \<longrightarrow>
        c = ps_next s \<and> ps_offering t c = None \<and>
        (\<forall>st. select_status P c = StatusOf st \<longrightarrow> (\<exists>t'. status_take c t = Some (st, t'))))"

lemma decided_accepted:
  assumes "decided_by vb vr P b s t" and "ProcessBid P b = Ok c"
    and "select_status P c = StatusOf st" "st \<noteq> STATUS_UNSPECIFIED"
  shows "\<exists>rs. ps_responses t = ps_responses s @ rs \<and> (bval (Digest b), st) \<in> set rs"
proof -
  from assms(1) obtain ls where reach: "reach prov_start (prov_step vb vr) s"
    and run: "steps (prov_step vb vr) (ProcessBid_register b s) ls t" by (auto simp: decided_by_def)
  from assms obtain t' where c: "c = ps_next s" "status_take c t = Some (st, t')"
    by (auto simp: decided_by_def)
  then have "st \<in> set (ch_buf (ps_chans t (ps_next s)))"
    using assms(4) by (auto simp: status_take_def split: list.splits if_splits)
  then show ?thesis by (rule channel_answer [OF reach run])
qed

lemma written_decided:
  assumes "EffWrite pc \<in> set (snd (handleBid S P peer str))" "bs_ReadMsg str = Ok b"
    and "decided_by vb vr P b s t"
  shows "\<exists>rs. ps_responses t = ps_responses s @ rs \<and> (bval (Digest b), STATUS_ACCEPTED) \<in> set rs"
proof -
  from handleBid_write [OF assms(1)] assms(2) obtain c where
    "ProcessBid P b = Ok c" "select_status P c = StatusOf STATUS_ACCEPTED"
    by (auto simp: committed_run_def)
  then show ?thesis by (rule decided_accepted [OF assms(3)]) simp
qed

end
