(* ===== verification/Client_Programs.thy ===== *)
theory Client_Programs
  imports Message_Rules Launcher Bid_Decision
begin

text \<open>
  The programs of the repository that use a node's APIs: the providers of
  \<open>integrationtest/provider\<close> and \<open>examples/provideremulator\<close>, the bidders of
  \<open>integrationtest/bidder\<close> and \<open>integrationtest/real-bidder\<close>, and \<open>examples/biddercli\<close>. Random
  draws, clock readings and the gRPC calls are arguments. The lemmas put the programs together
  with the services they call.
\<close>

section \<open>Dialling\<close>

datatype strategy = TlsSystemPool | TlsSkipVerification | TlsDisabled

definition dial_strategies :: "strategy list" where
  "dial_strategies = [TlsSystemPool, TlsSkipVerification, TlsDisabled]"

fun dial_first :: "(strategy \<Rightarrow> go_error + 'c) \<Rightarrow> strategy list \<Rightarrow> 'c option" where
  "dial_first dial [] = None"
| "dial_first dial (e # es) =
     (case dial e of Inl _ \<Rightarrow> dial_first dial es | Inr conn \<Rightarrow> Some conn)"

lemma dial_first_None: "dial_first dial es = None \<longleftrightarrow> (\<forall>e \<in> set es. \<exists>err. dial e = Inl err)"
  by (induction es) (auto split: sum.splits)

section \<open>The provider's client\<close>

text \<open>
  \<open>client.go\<close>. The second component of a construction lists the connections it closed.
\<close>

definition NewProviderClient ::
  "(strategy \<Rightarrow> go_error + 'c) \<Rightarrow> ('c \<Rightarrow> go_error + 's) \<Rightarrow> ('c \<Rightarrow> go_error option) \<Rightarrow>
     ('c \<times> 's) outcome \<times> 'c list" where
  "NewProviderClient dial sendProcessedBids closeConn =
     (case dial_first dial dial_strategies of
        None \<Rightarrow> (Fail (Err_Msg ''dialing of grpc server failed''), [])
      | Some conn \<Rightarrow>
         (case sendProcessedBids conn of
            Inr stream \<Rightarrow> (Ok (conn, stream), [])
          | Inl err \<Rightarrow>
              (Fail (Err_Join (err # (case closeConn conn of None \<Rightarrow> [] | Some e \<Rightarrow> [e]))), [conn])))"

record 'w provider_api =
  pa_GetStake :: "('w, string) act"
  pa_RegisterStake :: "string \<Rightarrow> ('w, string) act"

definition CheckAndStake :: "'w provider_api \<Rightarrow> ('w, unit) act" where
  "CheckAndStake A =
     abind (pa_GetStake A) (\<lambda>stakeAmt.
       case set_string10 stakeAmt of
         None \<Rightarrow> alift (Fail (Err_Msg ''failed to parse stake amount''))
       | Some stakedAmt \<Rightarrow>
           if 0 < stakedAmt then aret ()
           else abind (pa_RegisterStake A ''10000000000000000000'') (\<lambda>_. aret ()))"

text \<open>
  The goroutine behind \<open>ReceiveBids\<close>: what \<open>Recv\<close> gives, and for each bid whether the stream's
  context ended before the bid was handed on. The list ends where the stream waits.
\<close>

fun receive_bids :: "(go_error + 'bid \<times> bool) list \<Rightarrow> 'bid list \<times> bool" where
  "receive_bids [] = ([], False)"
| "receive_bids (Inl err # rs) = ([], True)"
| "receive_bids (Inr (b, ended) # rs) =
     (case receive_bids rs of (bs, closed) \<Rightarrow> (if ended then bs else b # bs, closed))"

subsection \<open>The sender\<close>

text \<open>
  \<open>startSender\<close>, \<open>SendBidResponse\<close> and \<open>Close\<close>. \<open>sn_waiting\<close> holds the calls that passed the
  check of \<open>senderClosed\<close> and offer their response on the unbuffered \<open>senderC\<close>; \<open>bg k\<close> says that
  call \<open>k\<close> has a context that never ends.
\<close>

type_synonym bid_response = "bytes \<times> bid_status"

record sender =
  sn_closed :: bool
  sn_senderClosed :: bool
  sn_streamDone :: bool
  sn_next :: nat
  sn_waiting :: "(nat \<times> bid_response) list"
  sn_sent :: "bid_response list"
  sn_returned :: "(nat \<times> bool) list"
  sn_crashed :: bool

definition new_sender :: sender where
  "new_sender =
     \<lparr> sn_closed = False, sn_senderClosed = False, sn_streamDone = False, sn_next = 0,
       sn_waiting = [], sn_sent = [], sn_returned = [], sn_crashed = False \<rparr>"

definition sender_Close :: "sender \<Rightarrow> sender" where
  "sender_Close s =
     (if sn_closed s \<or> sn_waiting s \<noteq> [] then s\<lparr> sn_crashed := True \<rparr>
      else s\<lparr> sn_closed := True, sn_streamDone := True \<rparr>)"

definition SendBidResponse_call :: "bid_response \<Rightarrow> sender \<Rightarrow> sender" where
  "SendBidResponse_call r s =
     (let k = sn_next s; s' = s\<lparr> sn_next := Suc k \<rparr>
      in if sn_senderClosed s then s'\<lparr> sn_returned := sn_returned s @ [(k, False)] \<rparr>
         else if sn_closed s then s'\<lparr> sn_crashed := True \<rparr>
         else s'\<lparr> sn_waiting := sn_waiting s @ [(k, r)] \<rparr>)"

definition sender_take :: "nat \<times> bid_response \<Rightarrow> sender \<Rightarrow> sender" where
  "sender_take w s =
     s\<lparr> sn_waiting := remove1 w (sn_waiting s), sn_sent := sn_sent s @ [snd w],
        sn_returned := sn_returned s @ [(fst w, True)] \<rparr>"

datatype sender_label = SnCall bid_response | SnTake nat | SnCtxDone nat | SnStreamDone | SnStop | SnClose

inductive sender_step :: "(nat \<Rightarrow> bool) \<Rightarrow> sender \<Rightarrow> sender_label \<Rightarrow> sender \<Rightarrow> bool" for bg where
  call: "\<not> sn_crashed s \<Longrightarrow> sender_step bg s (SnCall r) (SendBidResponse_call r s)"
| take: "\<not> sn_crashed s \<Longrightarrow> \<not> sn_senderClosed s \<Longrightarrow> w \<in> set (sn_waiting s) \<Longrightarrow>
     sender_step bg s (SnTake (fst w)) (sender_take w s)"
| ctx_done: "\<not> sn_crashed s \<Longrightarrow> \<not> bg (fst w) \<Longrightarrow> w \<in> set (sn_waiting s) \<Longrightarrow>
     sender_step bg s (SnCtxDone (fst w))
       (s\<lparr> sn_waiting := remove1 w (sn_waiting s), sn_returned := sn_returned s @ [(fst w, False)] \<rparr>)"
| stream_done: "\<not> sn_crashed s \<Longrightarrow> sender_step bg s SnStreamDone (s\<lparr> sn_streamDone := True \<rparr>)"
| stop: "\<not> sn_crashed s \<Longrightarrow> sn_streamDone s \<or> sn_closed s \<Longrightarrow>
     sender_step bg s SnStop (s\<lparr> sn_senderClosed := True \<rparr>)"
| close: "\<not> sn_crashed s \<Longrightarrow> sender_step bg s SnClose (sender_Close s)"

text \<open>
  Until \<open>Close\<close> is called nothing panics, and every response whose call returned without an
  error was sent.
\<close>

definition sender_inv :: "sender \<Rightarrow> bool" where
  "sender_inv s \<longleftrightarrow> \<not> sn_closed s \<and> \<not> sn_crashed s \<and>
     length (sn_sent s) = length (filter snd (sn_returned s)) \<and>
     distinct (map fst (sn_waiting s) @ map fst (sn_returned s)) \<and>
     (\<forall>k \<in> set (map fst (sn_waiting s) @ map fst (sn_returned s)). k < sn_next s)"

lemma sender_inv_start: "sender_inv new_sender"
  by (simp add: sender_inv_def new_sender_def)

lemma sender_inv_move:
  assumes "sender_inv s" and "w \<in> set (sn_waiting s)"
  shows "distinct (map fst (remove1 w (sn_waiting s)) @ map fst (sn_returned s @ [(fst w, b)]))"
proof -
  have d: "distinct (map fst (sn_waiting s))" using assms(1) by (simp add: sender_inv_def)
  have "fst w \<notin> fst ` set (remove1 w (sn_waiting s))"
    using fst_remove1_notin [OF d, of "fst w" "snd w"] assms(2) by simp
  moreover have "fst w \<notin> fst ` set (sn_returned s)"
    using assms by (auto simp: sender_inv_def)
  moreover have "fst ` set (remove1 w (sn_waiting s)) \<inter> fst ` set (sn_returned s) = {}"
    using assms(1) by (auto simp: sender_inv_def dest!: set_remove1_subset [THEN subsetD])
  ultimately show ?thesis
    using assms(1) by (auto simp: sender_inv_def distinct_map_remove1 [OF d])
qed

lemma sender_inv_step:
  assumes "sender_step bg s l s'" and "sender_inv s" and "l \<noteq> SnClose"
  shows "sender_inv s'"
  using assms
proof (induction rule: sender_step.induct)
  case (call s r)
  then have lt: "\<And>x. x \<in> set (sn_waiting s) \<Longrightarrow> fst x < sn_next s"
    "\<And>x. x \<in> set (sn_returned s) \<Longrightarrow> fst x < sn_next s"
    by (simp_all add: sender_inv_def)
  have "sn_next s \<notin> fst ` set (sn_waiting s)" "sn_next s \<notin> fst ` set (sn_returned s)"
    by (auto dest: lt)
  with call lt show ?case
    by (simp add: sender_inv_def SendBidResponse_call_def Let_def less_Suc_eq)
next
  case (take s w)
  note sender_inv_move [OF take.prems(1) take.hyps(3), of True]
  with take show ?case
    by (auto simp: sender_inv_def sender_take_def dest!: set_remove1_subset [THEN subsetD])
next
  case (ctx_done s w)
  note sender_inv_move [OF ctx_done.prems(1) ctx_done.hyps(3), of False]
  with ctx_done show ?case
    by (auto simp: sender_inv_def dest!: set_remove1_subset [THEN subsetD])
qed (auto simp: sender_inv_def)

text \<open>
  The two selects of \<open>SendBidResponse\<close> are not one: when the sender's goroutine ends between
  them, a call without a deadline waits for ever, or panics when \<open>Close\<close> is called.
\<close>

definition abandoned :: "nat \<times> bid_response \<Rightarrow> sender \<Rightarrow> bool" where
  "abandoned w s \<longleftrightarrow> sn_senderClosed s \<and> w \<in> set (sn_waiting s)"

lemma abandoned_step:
  assumes "sender_step bg s l s'" and "abandoned w s" "bg (fst w)"
  shows "abandoned w s'"
  using assms
proof (induction rule: sender_step.induct)
  case (ctx_done s v)
  then have "v \<noteq> w" by auto
  with ctx_done show ?case by (simp add: abandoned_def)
qed (auto simp: abandoned_def SendBidResponse_call_def sender_Close_def Let_def)

lemma abandoned_steps:
  "steps (sender_step bg) s ls t \<Longrightarrow> abandoned w s \<Longrightarrow> bg (fst w) \<Longrightarrow> abandoned w t"
  by (induction rule: steps.induct) (auto intro: abandoned_step)

lemma close_panics: "abandoned w s \<Longrightarrow> sn_crashed (sender_Close s)"
  by (auto simp: abandoned_def sender_Close_def)

subsection \<open>The provider's loop\<close>

text \<open>
  \<open>main.go\<close>: each bid with the draw of \<open>rand.Intn(100)\<close>; \<open>respond\<close> is \<open>SendBidResponse\<close>. The
  result has the responses that were sent and the number counted as rejected.
\<close>

definition emulator_status :: "int \<Rightarrow> int \<Rightarrow> bid_status" where
  "emulator_status errorProbability draw =
     (if 0 < errorProbability \<and> draw < errorProbability then STATUS_REJECTED else STATUS_ACCEPTED)"

fun provider_loop ::
  "int \<Rightarrow> (bid_response \<Rightarrow> go_error option) \<Rightarrow> (prov_bid \<times> int) list \<Rightarrow> bid_response list \<times> nat" where
  "provider_loop p respond [] = ([], 0)"
| "provider_loop p respond ((b, draw) # bids) =
     (let st = emulator_status p draw; r = (bval (pb_BidDigest b), st);
          rejected = (if st = STATUS_REJECTED then 1 else 0)
      in case respond r of
           Some err \<Rightarrow> ([], rejected)
         | None \<Rightarrow> (case provider_loop p respond bids of (rs, n) \<Rightarrow> (r # rs, rejected + n)))"

text \<open>\<open>examples/provideremulator\<close> accepts every bid.\<close>

fun accept_loop :: "(bid_response \<Rightarrow> go_error option) \<Rightarrow> prov_bid list \<Rightarrow> bid_response list" where
  "accept_loop respond [] = []"
| "accept_loop respond (b # bids) =
     (case respond (bval (pb_BidDigest b), STATUS_ACCEPTED) of
        Some err \<Rightarrow> []
      | None \<Rightarrow> (bval (pb_BidDigest b), STATUS_ACCEPTED) # accept_loop respond bids)"

lemma provider_loop_all:
  assumes "\<And>r. respond r = None"
  shows "provider_loop p respond bids =
    (map (\<lambda>(b, draw). (bval (pb_BidDigest b), emulator_status p draw)) bids,
     length (filter (\<lambda>(b, draw). emulator_status p draw = STATUS_REJECTED) bids))"
proof (induction bids)
  case (Cons x bids)
  then show ?case by (cases x) (simp add: assms Let_def)
qed simp

lemma provider_loop_responses:
  "(d, st) \<in> set (fst (provider_loop p respond bids)) \<Longrightarrow>
     \<exists>m draw. (m, draw) \<in> set bids \<and> bval (pb_BidDigest m) = d \<and> st = emulator_status p draw"
  by (induction bids) (fastforce simp: Let_def split: option.splits prod.splits)+

lemma accept_loop_all: "(\<And>r. respond r = None) \<Longrightarrow>
    accept_loop respond bids = map (\<lambda>b. (bval (pb_BidDigest b), STATUS_ACCEPTED)) bids"
  by (induction bids) simp_all

lemma accept_loop_is: "accept_loop respond bids = fst (provider_loop 0 respond (map (\<lambda>b. (b, draw)) bids))"
  by (induction bids) (auto simp: emulator_status_def Let_def split: option.splits prod.splits)

lemma emulator_status_rule: "response_rule (emulator_status p draw)"
  by (simp add: emulator_status_def)

text \<open>
  A bid on offer whose registration is current: a stream takes it, the program answers, and
  the handler that waits on its channel gets the status.
\<close>

lemma response_decides:
  assumes inv: "prov_inv s" and off: "ps_offering s k = Some m"
    and reg: "bidsInProcess s (bval (pb_BidDigest m)) = Some k" and rule: "vr st"
  shows "\<exists>t t'. steps (prov_step vb vr) s
      [LReceive k True, LRespond (bval (pb_BidDigest m)) st, LCallback k st] t \<and>
    m \<in> set (ps_streamed t) \<and> ps_offering t k = None \<and> status_take k t = Some (st, t') \<and>
    ps_responses t = ps_responses s @ [(bval (pb_BidDigest m), st)]"
proof -
  let ?d = "bval (pb_BidDigest m)"
  let ?s1 = "ReceiveBids_take k True s"
  let ?s2 = "SendProcessedBids_lookup ?d st ?s1"
  have nc: "\<not> ps_crashed s" using inv by (simp add: prov_inv_def)
  have 1: "prov_step vb vr s (LReceive k True) ?s1" using nc off by (rule prov_step.receive)
  have s1: "bidsInProcess ?s1 ?d = Some k" "\<not> ps_crashed ?s1" "m \<in> set (ps_streamed ?s1)"
    "ps_offering ?s1 k = None" "ps_responses ?s1 = ps_responses s"
    using reg nc off by (simp_all add: ReceiveBids_take_def)
  have 2: "prov_step vb vr ?s1 (LRespond ?d st) ?s2" using s1(2) rule by (rule prov_step.respond)
  have mem: "(k, st) \<in> set (ps_calling ?s2)" and s2: "\<not> ps_crashed ?s2" "m \<in> set (ps_streamed ?s2)"
    "ps_offering ?s2 k = None" "ps_responses ?s2 = ps_responses s @ [(?d, st)]"
    using s1 by (simp_all add: SendProcessedBids_lookup_def Let_def)
  have inv2: "prov_inv ?s2" using prov_inv_lookup [OF prov_inv_receive [OF inv]] .
  note run = callback_runs [OF inv2 mem]
  obtain t where t: "callback_run k st ?s2 = Some t" using run by blast
  have 3: "prov_step vb vr ?s2 (LCallback k st) t" using s2(1) mem t by (rule prov_step.callback)
  have "ps_streamed t = ps_streamed ?s2" "ps_offering t = ps_offering ?s2" "ps_chans t k = \<lparr> ch_buf = [st], ch_closed = True \<rparr>"
    "ps_responses t = ps_responses ?s2"
    using run t by auto
  then have "m \<in> set (ps_streamed t)" "ps_offering t k = None" "\<exists>t'. status_take k t = Some (st, t')"
    "ps_responses t = ps_responses s @ [(?d, st)]"
    using s2(2-4) by (simp_all add: status_take_def)
  moreover have "steps (prov_step vb vr) s [LReceive k True, LRespond ?d st, LCallback k st] t"
    using 1 2 3 by (auto simp: steps_Cons_iff)
  ultimately show ?thesis by blast
qed

text \<open>What the handler of the bid does with the status that the program drew.\<close>

lemma handleBid_emulated:
  assumes "Type q = PeerTypeBidder" "bs_ReadMsg str = Ok b" "VerifyBid S (Some b) = Ok a"
    and "CheckBidderAllowance P a" "ProcessBid P b = Ok c"
    and "select_status P c = StatusOf (emulator_status p draw)"
  shows "handleBid S P q str =
    (if 0 < p \<and> draw < p
     then (Fail (Err_Status Internal ''bid rejected''), [EffAllowance a, EffProcess b])
     else (case accept_bid S P str (set_string10 (BidAmount b)) b of
             (r, es) \<Rightarrow> (r, EffAllowance a # EffProcess b # es)))"
  using assms by (simp add: handleBid_def emulator_status_def Let_def case_prod_unfold)

end
