(* ===== verification/Bidder_Programs.thy ===== *)
theory Bidder_Programs
  imports Client_Programs
begin

text \<open>
  The bidders of \<open>integrationtest/bidder\<close> and \<open>integrationtest/real-bidder\<close> and the command
  line of \<open>examples/biddercli\<close>, with lemmas on what their requests meet at the bidder's node:
  the allowance that is topped up, the bids that are accepted and those that are refused.
\<close>

section \<open>The API as a client sees it\<close>

text \<open>
  \<open>ba_SendBid\<close> gives what the stream's \<open>Recv\<close> returns, call after call; a list without an end
  of stream or error leaves the client waiting.
\<close>

datatype 'm recv = RecvMsg 'm | RecvEOF | RecvErr go_error

record 'w bidder_api =
  ba_GetAllowance :: "('w, string) act"
  ba_GetMinAllowance :: "('w, string) act"
  ba_PrepayAllowance :: "string \<Rightarrow> ('w, string) act"

definition checkOrPrepay :: "'w bidder_api \<Rightarrow> ('w, unit) act" where
  "checkOrPrepay A =
     abind (ba_GetAllowance A) (\<lambda>allowance.
     abind (ba_GetMinAllowance A) (\<lambda>minAllowance.
       case set_string10 allowance of
         None \<Rightarrow> alift (Fail (Err_Msg ''failed to parse allowance amount''))
       | Some allowanceAmt \<Rightarrow>
      (case set_string10 minAllowance of
         None \<Rightarrow> alift (Fail (Err_Msg ''failed to parse min allowance amount''))
       | Some minAllowanceAmt \<Rightarrow>
           if minAllowanceAmt < allowanceAmt then aret ()
           else let topup = minAllowanceAmt * 10
                in abind (ba_PrepayAllowance A (show_int topup)) (\<lambda>_. aret ()))))"

text \<open>The loop of \<open>sendBid\<close>: the outcome with the preconfirmations counted, \<open>None\<close> while it waits.\<close>

fun recv_preconfs :: "'m recv list \<Rightarrow> nat \<Rightarrow> (unit outcome \<times> nat) option" where
  "recv_preconfs [] n = None"
| "recv_preconfs (RecvMsg m # rs) n = recv_preconfs rs (Suc n)"
| "recv_preconfs (RecvEOF # rs) n = Some (Ok (), n)"
| "recv_preconfs (RecvErr err # rs) n = Some (Fail err, n)"

text \<open>
  \<open>integrationtest/bidder\<close>: the bid of one turn, from the random bytes, the draw of
  \<open>rand.Int63n(200000)\<close>, the block number and two readings of the clock in milliseconds.
\<close>

definition emulated_bid ::
  "(bytes \<Rightarrow> bytes) \<Rightarrow> bytes \<Rightarrow> nat \<Rightarrow> u64 \<Rightarrow> i64 \<Rightarrow> i64 \<Rightarrow> rpc_bid" where
  "emulated_bid keccak randBytes draw blkNum now1 now2 =
     (let amount = draw + 100000;
          txHash = keccak (randBytes @ string_bytes (show_nat amount) @ string_bytes (show_nat (unat blkNum)))
      in \<lparr> rb_TxHashes = [hex_encode txHash], rb_Amount = show_nat amount,
           rb_BlockNumber = blkNum + 5, rb_DecayStart = now1 - 8000, rb_DecayEnd = now2 \<rparr>)"

definition bidder_sendBid ::
  "(bytes \<Rightarrow> bytes) \<Rightarrow> go_error + u64 \<Rightarrow> go_error + bytes \<Rightarrow> nat \<Rightarrow> i64 \<Rightarrow> i64 \<Rightarrow>
     (rpc_bid \<Rightarrow> go_error + 'm recv list) \<Rightarrow> (unit outcome \<times> nat) option" where
  "bidder_sendBid keccak blockNumber rand draw now1 now2 sendBid =
     (case blockNumber of
        Inl err \<Rightarrow> Some (Fail err, 0)
      | Inr blkNum \<Rightarrow>
     (case rand of
        Inl err \<Rightarrow> Some (Fail err, 0)
      | Inr randBytes \<Rightarrow>
     (case sendBid (emulated_bid keccak randBytes draw blkNum now1 now2) of
        Inl err \<Rightarrow> Some (Fail err, 0)
      | Inr rcv \<Rightarrow> recv_preconfs rcv 0)))"

section \<open>The bidder of real blocks\<close>

text \<open>
  \<open>integrationtest/real-bidder\<close>. \<open>hashHex\<close> prints a transaction's hash with its prefix \<open>0x\<close>.
\<close>

definition RetreivedBlock ::
  "(hash \<Rightarrow> string) \<Rightarrow> go_error + u64 \<Rightarrow> (int \<Rightarrow> go_error + hash list) \<Rightarrow> go_error + string list \<times> i64" where
  "RetreivedBlock hashHex blockNumber blockByNumber =
     (case blockNumber of
        Inl err \<Rightarrow> Inl err
      | Inr blkNum \<Rightarrow>
     (case blockByNumber (sint blkNum) of
        Inl err \<Rightarrow> Inl err
      | Inr txns \<Rightarrow> Inr (map (\<lambda>t. drop 2 (hashHex t)) txns, blkNum)))"

definition real_bid :: "string list \<Rightarrow> nat \<Rightarrow> i64 \<Rightarrow> i64 \<Rightarrow> i64 \<Rightarrow> rpc_bid" where
  "real_bid txnHashes draw blkNum decayStart decayEnd =
     \<lparr> rb_TxHashes = txnHashes, rb_Amount = show_nat (draw + 100000), rb_BlockNumber = blkNum,
       rb_DecayStart = decayStart, rb_DecayEnd = decayEnd \<rparr>"

definition real_sendBid ::
  "(rpc_bid \<Rightarrow> go_error + 'm recv list) \<Rightarrow> string list \<Rightarrow> nat \<Rightarrow> i64 \<Rightarrow> i64 \<Rightarrow> i64 \<Rightarrow>
     (unit outcome \<times> nat) option" where
  "real_sendBid sendBid txnHashes draw blkNum decayStart decayEnd =
     (case sendBid (real_bid txnHashes draw blkNum decayStart decayEnd) of
        Inl err \<Rightarrow> Some (Fail err, 0)
      | Inr rcv \<Rightarrow> recv_preconfs rcv 0)"

text \<open>
  The slice \<open>block[j:j+bundle]\<close>: it reaches up to the slice's capacity \<open>cap\<close>, with empty
  strings behind the block's hashes, and panics beyond.
\<close>

definition block_slice :: "nat \<Rightarrow> string list \<Rightarrow> nat \<Rightarrow> nat \<Rightarrow> string list outcome" where
  "block_slice cap block j bundle =
     (if j + bundle \<le> cap
      then Ok (take bundle (drop j (block @ replicate (cap - length block) [])))
      else Panic)"

text \<open>
  The loop over a block. The \<open>bundle\<close> declared in the loop's body hides the one of the loop's
  increment, which stays 1; \<open>draw j\<close> is \<open>rand.Intn(10)\<close> of turn \<open>j\<close>. The result has the bundles
  that were bid on.
\<close>

fun block_round ::
  "nat \<Rightarrow> string list \<Rightarrow> (nat \<Rightarrow> nat) \<Rightarrow> nat list \<Rightarrow> unit outcome \<times> string list list" where
  "block_round cap block draw [] = (Ok (), [])"
| "block_round cap block draw (j # js) =
     (case block_slice cap block j (draw j) of
        Ok bundle \<Rightarrow>
          (case block_round cap block draw js of (r, bundles) \<Rightarrow> (r, bundle # bundles))
      | Fail err \<Rightarrow> (Fail err, [])
      | Panic \<Rightarrow> (Panic, []))"

definition bid_on_block :: "nat \<Rightarrow> string list \<Rightarrow> (nat \<Rightarrow> nat) \<Rightarrow> unit outcome \<times> string list list" where
  "bid_on_block cap block draw = block_round cap block draw [0..<length block]"

section \<open>The command line\<close>

record cli_config =
  cc_ServerAddress :: string
  cc_LogFmt :: string
  cc_LogLevel :: string

definition checkConfig :: "cli_config \<Rightarrow> cli_config outcome" where
  "checkConfig cfg =
     (if cc_ServerAddress cfg = [] then Fail (Err_Msg ''server_address is required'')
      else Ok (cfg\<lparr> cc_LogFmt := (if cc_LogFmt cfg = [] then ''text'' else cc_LogFmt cfg),
                    cc_LogLevel := (if cc_LogLevel cfg = [] then ''info'' else cc_LogLevel cfg) \<rparr>))"

definition cli_newLogger :: "(string \<Rightarrow> go_error option) \<Rightarrow> string \<Rightarrow> string \<Rightarrow> log_format outcome" where
  "cli_newLogger levelOk lvl logFmt =
     (case levelOk lvl of
        Some err \<Rightarrow> Fail (Err_Wrap ''invalid log level'' err)
      | None \<Rightarrow>
          if logFmt = ''text'' then Ok LogText
          else if logFmt = ''json'' \<or> logFmt = ''none'' then Ok LogJson
          else Fail (Err_Msg ''invalid log format''))"

text \<open>\<open>app.Before\<close>: the file, its decoding, the defaults, the logger.\<close>

definition cli_before ::
  "(string \<Rightarrow> go_error + bytes) \<Rightarrow> (bytes \<Rightarrow> go_error + cli_config) \<Rightarrow> (string \<Rightarrow> go_error option) \<Rightarrow>
     string \<Rightarrow> (cli_config \<times> log_format) outcome" where
  "cli_before readFile unmarshal levelOk configFile =
     (case readFile configFile of
        Inl err \<Rightarrow> Fail (Err_Wrap ''failed to read config file'' err)
      | Inr buf \<Rightarrow>
     (case unmarshal buf of
        Inl err \<Rightarrow> Fail (Err_Wrap ''failed to unmarshal config file'' err)
      | Inr cfg0 \<Rightarrow>
     (case checkConfig cfg0 of
        Panic \<Rightarrow> Panic
      | Fail err \<Rightarrow> Fail (Err_Wrap ''failed to unmarshal config file'' err)
      | Ok cfg \<Rightarrow>
     (case cli_newLogger levelOk (cc_LogLevel cfg) (cc_LogFmt cfg) of
        Panic \<Rightarrow> Panic
      | Fail err \<Rightarrow> Fail (Err_Wrap ''failed to create logger'' err)
      | Ok logger \<Rightarrow> Ok (cfg, logger)))))"

definition cli_bid :: "string \<Rightarrow> string \<Rightarrow> i64 \<Rightarrow> rpc_bid" where
  "cli_bid txHash amount blockNumber =
     \<lparr> rb_TxHashes = [txHash], rb_Amount = amount, rb_BlockNumber = blockNumber,
       rb_DecayStart = 0, rb_DecayEnd = 0 \<rparr>"

text \<open>
  Sending a bid and reading one answer. \<open>None\<close>: the program waits. The connection is closed
  on every path after the dial, by a deferred call.
\<close>

definition cli_submit ::
  "go_error option \<Rightarrow> (rpc_bid \<Rightarrow> go_error + 'm recv list) \<Rightarrow> rpc_bid \<Rightarrow> 'm outcome option" where
  "cli_submit dialErr sendBid b =
     (case dialErr of
        Some err \<Rightarrow> Some (Fail err)
      | None \<Rightarrow>
     (case sendBid b of
        Inl err \<Rightarrow> Some (Fail err)
      | Inr [] \<Rightarrow> None
      | Inr (RecvMsg m # _) \<Rightarrow> Some (Ok m)
      | Inr (RecvEOF # _) \<Rightarrow> Some (Fail (Err_Lib ''EOF''))
      | Inr (RecvErr err # _) \<Rightarrow> Some (Fail err)))"

definition cli_send_bid ::
  "go_error option \<Rightarrow> (rpc_bid \<Rightarrow> go_error + 'm recv list) \<Rightarrow> string \<Rightarrow> string \<Rightarrow> i64 \<Rightarrow>
     'm outcome option" where
  "cli_send_bid dialErr sendBid txHash amount blockNumber =
     (if txHash = [] \<or> amount = [] \<or> blockNumber = 0
      then Some (Fail (Err_Msg ''Missing required arguments''))
      else cli_submit dialErr sendBid (cli_bid txHash amount blockNumber))"

definition generateTxHash :: "nat list \<Rightarrow> string" where
  "generateTxHash draws = ''0x'' @ map (\<lambda>d. ''0123456789abcdef'' ! d) draws"

definition cli_send_rand_bid ::
  "go_error option \<Rightarrow> (rpc_bid \<Rightarrow> go_error + 'm recv list) \<Rightarrow> nat list \<Rightarrow> nat \<Rightarrow> nat \<Rightarrow>
     'm outcome option" where
  "cli_send_rand_bid dialErr sendBid hashDraws amountDraw blockDraw =
     cli_submit dialErr sendBid
       (cli_bid (generateTxHash hashDraws) (show_nat (amountDraw + 1)) (of_nat blockDraw + 1))"

text \<open>\<open>status\<close>: whether the server is reported to be up.\<close>

definition cli_status :: "go_error option \<Rightarrow> (rpc_bid \<Rightarrow> go_error + 'm recv list) \<Rightarrow> bool outcome" where
  "cli_status dialErr sendBid =
     (case dialErr of
        Some err \<Rightarrow> Fail err
      | None \<Rightarrow>
     (case sendBid \<lparr> rb_TxHashes = [], rb_Amount = [], rb_BlockNumber = 0, rb_DecayStart = 0,
                     rb_DecayEnd = 0 \<rparr> of
        Inl _ \<Rightarrow> Ok False
      | Inr _ \<Rightarrow> Ok True))"

section \<open>Against the bidder's service\<close>

text \<open>What a client reads from a stream whose handler sent messages and returned.\<close>

fun client_stream :: "unit outcome \<times> 'm list \<Rightarrow> 'm recv list" where
  "client_stream (Ok (), ms) = map RecvMsg ms @ [RecvEOF]"
| "client_stream (Fail err, ms) = map RecvMsg ms @ [RecvErr err]"
| "client_stream (Panic, ms) = map RecvMsg ms @ [RecvErr (Err_Lib ''connection closed'')]"

definition bidder_service :: "'w contract_client \<Rightarrow> address \<Rightarrow> 'w bidder_api" where
  "bidder_service r own =
     \<lparr> ba_GetAllowance = bidderapi_GetAllowance r own,
       ba_GetMinAllowance = bidderapi_GetMinAllowance r,
       ba_PrepayAllowance = bidderapi_PrepayAllowance (validate_by amount_rule) r own \<rparr>"

definition provider_service :: "'w contract_client \<Rightarrow> address \<Rightarrow> 'w provider_api" where
  "provider_service r own =
     \<lparr> pa_GetStake = providerapi_GetStake r own,
       pa_RegisterStake = providerapi_RegisterStake (validate_by amount_rule) r own \<rparr>"

lemma recv_preconfs_msgs: "recv_preconfs (map RecvMsg ms @ rs) n = recv_preconfs rs (n + length ms)"
  by (induction ms arbitrary: n) simp_all

lemma recv_preconfs_stream: "recv_preconfs (client_stream (Ok (), ms)) 0 = Some (Ok (), length ms)"
  by (simp add: recv_preconfs_msgs)

lemma amount_rule_int: "amount_rule (show_int n) \<longleftrightarrow> 0 < n \<and> n < 2 ^ 64"
proof (cases "n < 0")
  case True
  then show ?thesis by (simp add: show_int_def amount_rule_def sign_not_digit)
next
  case False
  then have "show_int n = show_nat (nat n)" "nat n < 2 ^ 64 \<longleftrightarrow> n < 2 ^ 64" "0 < nat n \<longleftrightarrow> 0 < n"
    by (auto simp: show_int_def nat_less_iff)
  then show ?thesis by (simp only: amount_rule_show)
qed

lemma get_amount_run:
  "get w = (Ok n, w') \<Longrightarrow> get_amount msg get w = (Ok (show_int n), w')"
  by (simp add: get_amount_Ok)

text \<open>
  The bidder's top-up: nothing when the allowance is above the minimum, else a prepayment of
  ten times the minimum, which the service refuses when it is not a positive 64-bit number.
\<close>

lemma checkOrPrepay_service:
  assumes "GetAllowance r own w = (Ok a, w1)" and "GetMinAllowance r w1 = (Ok m, w2)"
  shows "checkOrPrepay (bidder_service r own) w =
    (if m < a then (Ok (), w2)
     else if 0 < m * 10 \<and> m * 10 < 2 ^ 64
     then abind (awrap (\<lambda>_. Err_Status Internal ''prepaying allowance'')
            (PrepayAllowance r (Some (m * 10))))
            (\<lambda>_. abind (get_amount ''getting allowance'' (GetAllowance r own)) (\<lambda>_. aret ())) w2
     else (Fail (Err_Status InvalidArgument ''validating prepay request''), w2))"
proof -
  have "bidderapi_GetAllowance r own w = (Ok (show_int a), w1)"
    "bidderapi_GetMinAllowance r w1 = (Ok (show_int m), w2)"
    using assms by (simp_all add: bidderapi_GetAllowance_def bidderapi_GetMinAllowance_def get_amount_run)
  then have "checkOrPrepay (bidder_service r own) w =
    (if m < a then (Ok (), w2)
     else abind (bidderapi_PrepayAllowance (validate_by amount_rule) r own (show_int (m * 10))) (\<lambda>_. aret ()) w2)"
    by (simp add: checkOrPrepay_def bidder_service_def abind_Ok set_string10_show Let_def)
  moreover have "abind (bidderapi_PrepayAllowance (validate_by amount_rule) r own (show_int (m * 10))) (\<lambda>_. aret ()) w2 =
    (if 0 < m * 10 \<and> m * 10 < 2 ^ 64
     then abind (awrap (\<lambda>_. Err_Status Internal ''prepaying allowance'')
            (PrepayAllowance r (Some (m * 10))))
            (\<lambda>_. abind (get_amount ''getting allowance'' (GetAllowance r own)) (\<lambda>_. aret ())) w2
     else (Fail (Err_Status InvalidArgument ''validating prepay request''), w2))"
    by (simp add: bidderapi_PrepayAllowance_def validate_by_def amount_rule_int set_string10_show abind_assoc)
       (simp add: abind_def)
  ultimately show ?thesis by simp
qed

text \<open>The provider's stake of ten ether passes the rule of the service.\<close>

lemma CheckAndStake_run:
  assumes "pa_GetStake A w = (Ok txt, w1)" and "set_string10 txt = Some a"
  shows "CheckAndStake A w =
    (if 0 < a then (Ok (), w1)
     else abind (pa_RegisterStake A ''10000000000000000000'') (\<lambda>_. aret ()) w1)"
  unfolding CheckAndStake_def by (subst abind_Ok, rule assms(1)) (simp add: assms(2))

lemma stake_text:
  "set_string10 ''10000000000000000000'' = Some (10 ^ 19)" "amount_rule ''10000000000000000000''"
  by (simp_all add: set_string10_def scan_nat_def amount_rule_def uint_of_text_def digit_val_def)

lemma CheckAndStake_service:
  assumes "GetStake r own w = (Ok a, w1)"
  shows "CheckAndStake (provider_service r own) w =
    (if 0 < a then (Ok (), w1)
     else abind (awrap (\<lambda>_. Err_Status Internal ''registering stake'')
            (RegisterProvider r (Some (10 ^ 19))))
            (\<lambda>_. abind (get_amount ''getting stake'' (GetStake r own)) (\<lambda>_. aret ())) w1)"
proof -
  have "pa_GetStake (provider_service r own) w = (Ok (show_int a), w1)"
    using assms by (simp add: provider_service_def providerapi_GetStake_def get_amount_run)
  note CheckAndStake_run [OF this set_string10_show]
  moreover have "pa_RegisterStake (provider_service r own) ''10000000000000000000'' =
      abind (awrap (\<lambda>_. Err_Status Internal ''registering stake'') (RegisterProvider r (Some (10 ^ 19))))
        (\<lambda>_. get_amount ''getting stake'' (GetStake r own))"
    unfolding provider_service_def providerapi_RegisterStake_def validate_by_def provider_api.simps
      stake_text(1) using stake_text(2) by simp
  ultimately show ?thesis by (simp only: abind_assoc)
qed

subsection \<open>Bids that are accepted\<close>

lemma hex_digit_char: "d < 16 \<Longrightarrow> hex_char (hex_digit d)"
proof -
  have "\<forall>d \<in> set [0..<16]. hex_char (hex_digit d)" by code_simp
  then show "d < 16 \<Longrightarrow> ?thesis" by simp
qed

lemma hex_encode_rule: "hash_rule (hex_encode bs) \<longleftrightarrow> length bs = 32"
proof -
  have "length (hex_encode bs) = 2 * length bs"
    by (induction bs) (simp_all add: hex_encode_def hex_byte_def)
  moreover have "unat b div 16 < 16" for b :: byte
    using unsigned_less [of b, where ?'a = nat] by (simp add: less_mult_imp_div_less)
  then have "list_all hex_char (hex_encode bs)"
    by (induction bs) (simp_all add: hex_encode_def hex_byte_def hex_digit_char)
  ultimately show ?thesis by (auto simp: hash_rule_def)
qed

lemma emulated_bid_rule:
  assumes "\<And>x. length (keccak x) = 32" and "draw < 200000" and "unat blkNum < 2 ^ 63 - 5"
    and "8000 < sint now1" "0 < sint now2"
  shows "bidder_bid_rule (emulated_bid keccak randBytes draw blkNum now1 now2)"
proof -
  have "positive_rule (blkNum + 5)"
  proof -
    from assms(3) have "unat (blkNum + 5) = unat blkNum + 5" by (simp add: unat_word_ariths)
    with assms(3) show ?thesis by (simp add: positive_rule_small)
  qed
  moreover have "positive_rule (now1 - 8000)"
  proof -
    have "sint (now1 - 8000) = sint now1 - 8000"
      using assms(4) sint_lt [of now1] by (simp add: sint_word_ariths signed_take_bit_int_eq_self)
    with assms(4) show ?thesis by (simp add: positive_rule_iff)
  qed
  ultimately show ?thesis
    using assms by (simp add: bidder_bid_rule_def emulated_bid_def Let_def hashes_rule_def hex_encode_rule
        amount_rule_show positive_rule_iff)
qed

subsection \<open>Bids that are refused\<close>

text \<open>The command line leaves the decay times at zero, so the service refuses all its bids.\<close>

lemma cli_bid_refused: "\<not> bidder_bid_rule (cli_bid txHash amount blockNumber)"
  by (simp add: cli_bid_def bidder_bid_rule_def positive_rule_iff)

lemma cli_submit_refused:
  assumes "sendBid = (\<lambda>b. Inr (client_stream (bidderapi_SendBid (validate_by bidder_bid_rule) node send b)))"
  shows "cli_submit None sendBid (cli_bid txHash amount blockNumber) =
    Some (Fail (Err_Status InvalidArgument ''validating bid''))"
  using assms by (simp add: cli_submit_def bidderapi_SendBid_def validate_by_def cli_bid_refused)

lemma generateTxHash_refused: "length draws = 66 \<Longrightarrow> \<not> hash_rule (generateTxHash draws)"
  by (simp add: hash_rule_def generateTxHash_def)

text \<open>The logger of the command line is the node's without tags.\<close>

lemma cli_newLogger_NewLogger:
  "NewLogger levelOk utf8 lvl fmt [] = obind (cli_newLogger levelOk lvl fmt) (\<lambda>h. Ok (h, []))"
  by (simp add: NewLogger_def cli_newLogger_def split: option.split)

subsection \<open>Bids on a block\<close>

lemma block_slice_iff:
  "block_slice cap block j n = Panic \<longleftrightarrow> cap < j + n"
  "block_slice cap block j n = Ok b \<longleftrightarrow> j + n \<le> cap \<and> b = take n (drop j (block @ replicate (cap - length block) []))"
  "block_slice cap block j n \<noteq> Fail e"
  by (auto simp: block_slice_def)

lemma block_round_Panic: "fst (block_round cap block draw js) = Panic \<longleftrightarrow> (\<exists>j \<in> set js. cap < j + draw j)"
  by (induction js) (auto simp: block_slice_def split: prod.split)

lemma block_round_Ok:
  assumes "\<forall>j \<in> set js. j + draw j \<le> cap"
  shows "block_round cap block draw js =
    (Ok (), map (\<lambda>j. take (draw j) (drop j (block @ replicate (cap - length block) []))) js)"
  using assms by (induction js) (simp_all add: block_slice_def)

lemma bid_on_block_Panic:
  "fst (bid_on_block cap block draw) = Panic \<longleftrightarrow> (\<exists>j < length block. cap < j + draw j)"
  by (auto simp: bid_on_block_def block_round_Panic)

lemma bid_on_block_Ok:
  assumes "\<forall>j < length block. j + draw j \<le> cap"
  shows "bid_on_block cap block draw = (Ok (), map (\<lambda>j. take (draw j) (drop j
    (block @ replicate (cap - length block) []))) [0..<length block])"
  using assms by (simp add: bid_on_block_def block_round_Ok)

text \<open>A bundle is accepted when it is not empty and does not reach behind the block's hashes.\<close>

lemma bundle_rule:
  assumes "list_all hash_rule block" and "j < length block"
  shows "hashes_rule (take n (drop j (block @ replicate m []))) \<longleftrightarrow> 0 < n \<and> (n + j \<le> length block \<or> m = 0)"
proof -
  have "\<not> hash_rule []" by (simp add: hash_rule_def)
  with assms show ?thesis
    by (auto simp: hashes_rule_def list_all_iff take_Cons' in_set_conv_nth dest: in_set_takeD in_set_dropD)
qed

text \<open>
  One turn of the emulated bidder against its node: the service accepts the bid, the node's
  \<open>SendBid\<close> (\<open>node\<close>) gets its terms, and the program counts every preconfirmation that comes
  out of the channel.
\<close>

lemma emulated_turn:
  assumes "bidder_bid_rule (emulated_bid keccak randBytes draw blkNum now1 now2)"
    and "m = emulated_bid keccak randBytes draw blkNum now1 now2"
    and "node (join_with '','' (rb_TxHashes m)) (rb_Amount m) (rb_BlockNumber m) (rb_DecayStart m)
           (rb_DecayEnd m) = Ok respC"
    and "\<And>pc. pc \<in> set respC \<Longrightarrow> pc_Bid pc \<noteq> None"
  shows "bidder_sendBid keccak (Inr blkNum) (Inr randBytes) draw now1 now2
      (\<lambda>b. Inr (client_stream (bidderapi_SendBid (validate_by bidder_bid_rule) node (\<lambda>_. None) b))) =
    Some (Ok (), length respC)"
proof -
  have "bidderapi_SendBid (validate_by bidder_bid_rule) node (\<lambda>_. None) m =
      (Ok (), map (\<lambda>pc. rpc_commitment_of pc (the (pc_Bid pc))) respC)"
    using assms by (simp add: bidderapi_SendBid_def validate_by_def send_commitments_all Let_def)
  with assms(2) recv_preconfs_stream [of "map (\<lambda>pc. rpc_commitment_of pc (the (pc_Bid pc))) respC"]
  show ?thesis by (simp add: bidder_sendBid_def)
qed

end
