(* ===== verification/Bid_Settlement.thy ===== *)
theory Bid_Settlement
  imports Bid_Decision Message_Rules
begin

text \<open>
  The provider's handler on top of all that its node puts under it: the bidder registry and
  the commitment contract behind the EVM client (\<open>pkg/contracts\<close>), the API that asks the
  provider's client, and the validation rules of that API. A commitment that is handed out is
  backed by an allowance and by a transaction with the bid's exact terms.
\<close>

text \<open>
  What a stored commitment sends. The amount is exact when it passed the rules of the API.
\<close>

definition storage_sent ::
  "'w contract_client \<Rightarrow> bid \<Rightarrow> pre_confirmation \<Rightarrow> u64 \<Rightarrow> 'w \<Rightarrow> 'w \<Rightarrow> bool" where
  "storage_sent p b pc amt w w' \<longleftrightarrow>
     (\<exists>callData h.
        abi_Pack (cc_abi p) ''storeCommitment''
          [AUint64 amt, AUint64 (BlockNumber b), AString (TxHash b), AUint64 (DecayStartTimestamp b),
           AUint64 (DecayEndTimestamp b), ABytes (Signature b), ABytes (pc_Signature pc)] = Inr callData \<and>
        ei_Send (cc_client p) (call_request (cc_addr p) callData None) w = (Ok h, w'))"

lemma StoreCommitment_Ok:
  assumes "preconf_StoreCommitment p (commitment_of (Some n) b pc) w = (Ok (), w')"
  obtains amt where "storage_sent p b pc amt w w'" "uint amt = n mod 2 ^ 64"
    "\<And>s. amount_rule s \<Longrightarrow> set_string10 s = Some n \<Longrightarrow> uint amt = n"
proof -
  from assms obtain amt where amt: "big_Int64 (Some n) = Ok amt" and sent: "storage_sent p b pc amt w w'"
    by (auto simp: preconf_StoreCommitment_def commitment_of_def abind_eq_Ok storage_sent_def)
  moreover have "uint amt = n" if "amount_rule s" "set_string10 s = Some n" for s
    using that(1) by (rule amount_rule_stored) (use that(2) amt in simp)
  ultimately show thesis using that big_Int64_mod [OF amt] by blast
qed

text \<open>
  The services of a handler whose registry is asked in the chain's state \<open>w\<close> and whose
  commitment is stored in \<open>w'\<close>; the rest is as in \<open>P\<close>.
\<close>

definition settled_services ::
  "'w contract_client \<Rightarrow> 'w contract_client \<Rightarrow> 'w \<Rightarrow> 'w \<Rightarrow> bid_services \<Rightarrow> bid_services" where
  "settled_services r p w w' P =
     P\<lparr> CheckBidderAllowance := (\<lambda>a. fst (registry_CheckBidderAllowance r a w) = Ok True),
        StoreCommitment := (\<lambda>args. fst (preconf_StoreCommitment p args w')) \<rparr>"

lemma settled_services_sel [simp]:
  "ProcessBid (settled_services r p w w' P) = ProcessBid P"
  "select_status (settled_services r p w w' P) = select_status P"
  by (simp_all add: settled_services_def)

lemma decided_by_settled:
  "decided_by vb vr (settled_services r p w w' P) b s t \<longleftrightarrow> decided_by vb vr P b s t"
  by (simp add: decided_by_def)

definition staked :: "'w contract_client \<Rightarrow> address \<Rightarrow> 'w \<Rightarrow> bool" where
  "staked r a w \<longleftrightarrow>
     (\<exists>least have w1 w2. GetMinStake r w = (Ok least, w1) \<and> GetStake r a w1 = (Ok have, w2) \<and> least \<le> have)"

definition covered :: "'w contract_client \<Rightarrow> address \<Rightarrow> 'w \<Rightarrow> bool" where
  "covered r a w \<longleftrightarrow>
     (\<exists>least have w1 w2. GetMinAllowance r w = (Ok least, w1) \<and> GetAllowance r a w1 = (Ok have, w2) \<and>
        least \<le> have)"

lemma fst_check_at_least:
  "fst (check_at_least get_min get w) = Ok True \<longleftrightarrow>
     (\<exists>least have w1 w2. get_min w = (Ok least, w1) \<and> get w1 = (Ok have, w2) \<and> least \<le> have)"
proof -
  have "fst (check_at_least get_min get w) = Ok True \<longleftrightarrow>
      (\<exists>w2. check_at_least get_min get w = (Ok True, w2))"
    by (cases "check_at_least get_min get w") auto
  then show ?thesis by (auto simp: check_at_least_True)
qed

lemma allowance_covered:
  "fst (registry_CheckBidderAllowance r a w) = Ok True \<longleftrightarrow> covered r a w"
  by (simp add: registry_CheckBidderAllowance_def fst_check_at_least covered_def)

lemma provider_staked:
  "fst (registry_CheckProviderRegistered r a w) = Ok True \<longleftrightarrow> staked r a w"
  by (simp add: registry_CheckProviderRegistered_def fst_check_at_least staked_def)

context signer_contract
begin

lemma written_settled:
  assumes "EffWrite pc \<in> set (snd (handleBid (S i) (settled_services r p w w' P) peer str))"
    and "bs_ReadMsg str = Ok b" and "decided_by provider_bid_rule vr P b s t"
  shows "\<exists>a n amt w''. VerifyBid (S i) (Some b) = Ok a \<and> covered r a w \<and>
    set_string10 (BidAmount b) = Some n \<and> uint amt = n \<and> storage_sent p b pc amt w' w''"
proof -
  let ?P = "settled_services r p w w' P"
  from handleBid_write [OF assms(1)] assms(2) obtain a where
    run: "VerifyBid (S i) (Some b) = Ok a" "CheckBidderAllowance ?P a"
      "ConstructPreConfirmation (S i) (Some b) = Ok pc"
      "\<And>pb. pc_Bid pc = Some pb \<Longrightarrow>
         StoreCommitment ?P (commitment_of (set_string10 (BidAmount b)) pb pc) = Ok ()"
    by (auto simp: committed_run_def)
  from assms(3) have "amount_rule (BidAmount b)"
    by (simp add: decided_by_def provider_bid_rule_def to_prov_bid_def)
  moreover obtain n where n: "set_string10 (BidAmount b) = Some n"
    using verify_amount [OF run(1)] by blast
  moreover have "fst (preconf_StoreCommitment p (commitment_of (Some n) b pc) w') = Ok ()"
    using run(4) [OF commit_bid [OF run(3)]] n by (simp add: settled_services_def)
  then obtain w'' where "preconf_StoreCommitment p (commitment_of (Some n) b pc) w' = (Ok (), w'')"
    by (cases "preconf_StoreCommitment p (commitment_of (Some n) b pc) w'") auto
  then obtain amt where "storage_sent p b pc amt w' w''"
    "\<And>s. amount_rule s \<Longrightarrow> set_string10 s = Some n \<Longrightarrow> uint amt = n"
    by (rule StoreCommitment_Ok) blast
  moreover have "covered r a w" using run(2) by (simp add: settled_services_def allowance_covered)
  ultimately show ?thesis using run(1) by blast
qed

end

end
