(* ===== verification/Peer_Registry.thy ===== *)
theory Peer_Registry
  imports P2p_Types
begin

text \<open>
  \<open>pkg/p2p/libp2p/peers.go\<close>: the registry of connected peers, four maps under one lock.
  Peer ids, connections and streams are libp2p values, compared by identity, so they are
  numbers here. The lemmas give the consistency of the four maps and show that
  \<open>Disconnected\<close> never dereferences a missing peer while addresses determine peer ids.
\<close>

section \<open>State\<close>

type_synonym peer_id = nat
type_synonym stream_id = nat

record conn =
  conn_id :: nat
  RemotePeer :: peer_id

text \<open>
  \<open>pr_cancelled\<close> collects the streams whose handler context was cancelled,
  \<open>pr_notified\<close> the peers given to the disconnector, in order.
\<close>

record peer_registry =
  overlays :: "peer_id \<rightharpoonup> peer"
  underlays :: "address \<rightharpoonup> peer_id"
  connections :: "peer_id \<rightharpoonup> nat set"
  streams :: "peer_id \<rightharpoonup> stream_id set"
  pr_cancelled :: "stream_id set"
  pr_notified :: "peer list"

definition newPeerRegistry :: peer_registry where
  "newPeerRegistry =
     \<lparr> overlays = Map.empty, underlays = Map.empty, connections = Map.empty,
       streams = Map.empty, pr_cancelled = {}, pr_notified = [] \<rparr>"

section \<open>Operations\<close>

definition stream_set :: "peer_registry \<Rightarrow> peer_id \<Rightarrow> stream_id set" where
  "stream_set r p = (case streams r p of None \<Rightarrow> {} | Some ss \<Rightarrow> ss)"

text \<open>
  The deletion of the peer comes before its address is read, so a panic on a missing peer
  leaves the connection and overlay deleted.
\<close>

definition Disconnected :: "conn \<Rightarrow> (peer_registry, unit) act" where
  "Disconnected c = (\<lambda>r.
     case connections r (RemotePeer c) of
       None \<Rightarrow> (Ok (), r)
     | Some cs \<Rightarrow>
         let peerID = RemotePeer c;
             cs' = cs - {conn_id c}
         in if cs' \<noteq> {} then (Ok (), r\<lparr> connections := (connections r)(peerID \<mapsto> cs') \<rparr>)
            else
              let r1 = r\<lparr> connections := (connections r)(peerID := None),
                          overlays := (overlays r)(peerID := None) \<rparr>
              in (case overlays r peerID of
                   None \<Rightarrow> (Panic, r1)
                 | Some peerInfo \<Rightarrow>
                     (Ok (), r1\<lparr> underlays := (underlays r)(EthAddress peerInfo := None),
                                 pr_cancelled := pr_cancelled r \<union> stream_set r peerID,
                                 streams := (streams r)(peerID := None),
                                 pr_notified := pr_notified r @ [peerInfo] \<rparr>)))"

definition addPeer :: "conn \<Rightarrow> peer \<Rightarrow> peer_registry \<Rightarrow> bool \<times> peer_registry" where
  "addPeer c p r =
     (let peerID = RemotePeer c;
          cs = (case connections r peerID of None \<Rightarrow> {} | Some cs \<Rightarrow> cs);
          r1 = r\<lparr> connections := (connections r)(peerID \<mapsto> insert (conn_id c) cs) \<rparr>
      in if underlays r (EthAddress p) \<noteq> None then (True, r1)
         else (False, r1\<lparr> overlays := (overlays r)(peerID \<mapsto> p),
                          underlays := (underlays r)(EthAddress p \<mapsto> peerID),
                          streams := (streams r)(peerID \<mapsto> {}) \<rparr>))"

text \<open>A missing address gives the empty peer id, which is \<open>noPeer\<close>.\<close>

definition removePeer :: "peer_id \<Rightarrow> peer \<Rightarrow> peer_registry \<Rightarrow> (bool \<times> peer_id) \<times> peer_registry" where
  "removePeer noPeer p r =
     (let found = underlays r (EthAddress p) \<noteq> None;
          peerID = (case underlays r (EthAddress p) of None \<Rightarrow> noPeer | Some i \<Rightarrow> i)
      in ((found, peerID),
          r\<lparr> overlays := (overlays r)(peerID := None),
             underlays := (underlays r)(EthAddress p := None),
             connections := (connections r)(peerID := None),
             pr_cancelled := pr_cancelled r \<union> stream_set r peerID,
             streams := (streams r)(peerID := None) \<rparr>))"

definition getPeer :: "peer_id \<Rightarrow> peer_registry \<Rightarrow> peer option" where
  "getPeer peerID r = overlays r peerID"

definition getPeerID :: "address \<Rightarrow> peer_registry \<Rightarrow> peer_id option" where
  "getPeerID ethAddress r = underlays r ethAddress"

definition getPeers :: "peer_id list \<Rightarrow> peer_registry \<Rightarrow> peer list" where
  "getPeers ids r = List.map_filter (overlays r) ids"

definition addStream :: "peer_id \<Rightarrow> stream_id \<Rightarrow> peer_registry \<Rightarrow> peer_registry" where
  "addStream peerID s r =
     (case streams r peerID of
        None \<Rightarrow> r
      | Some ss \<Rightarrow> r\<lparr> streams := (streams r)(peerID \<mapsto> insert s ss) \<rparr>)"

definition removeStream :: "peer_id \<Rightarrow> stream_id \<Rightarrow> peer_registry \<Rightarrow> peer_registry" where
  "removeStream peerID s r =
     (case streams r peerID of
        None \<Rightarrow> r
      | Some ss \<Rightarrow>
          if s \<notin> ss then r
          else r\<lparr> pr_cancelled := insert s (pr_cancelled r),
                  streams := (streams r)(peerID \<mapsto> ss - {s}) \<rparr>)"

definition isConnected :: "peer_id \<Rightarrow> peer_registry \<Rightarrow> peer option \<times> bool" where
  "isConnected peerID r =
     (case overlays r peerID of
        None \<Rightarrow> (None, False)
      | Some p \<Rightarrow> (Some p, connections r peerID \<noteq> None))"

section \<open>The invariant\<close>

text \<open>
  The first part holds with no assumption: the address map and the peer map never disagree
  on a registered peer. The second needs that an address determines its peer id
  (\<open>addr_of\<close> is the address of a peer id and the handshake checks it).
\<close>

definition reg_inv :: "(peer_id \<Rightarrow> address) \<Rightarrow> peer_registry \<Rightarrow> bool" where
  "reg_inv addr_of r \<longleftrightarrow>
     (\<forall>i p. overlays r i = Some p \<longrightarrow> EthAddress p = addr_of i \<and> underlays r (addr_of i) = Some i) \<and>
     (\<forall>a i. underlays r a = Some i \<longrightarrow> a = addr_of i \<and> overlays r i \<noteq> None) \<and>
     dom (connections r) = dom (overlays r) \<and>
     dom (streams r) = dom (overlays r) \<and>
     (\<forall>i cs. connections r i = Some cs \<longrightarrow> cs \<noteq> {})"

lemma reg_invD:
  assumes "reg_inv addr_of r"
  shows "overlays r i = Some p \<Longrightarrow> EthAddress p = addr_of i"
    and "overlays r i = Some p \<Longrightarrow> underlays r (addr_of i) = Some i"
    and "underlays r a = Some i \<Longrightarrow> a = addr_of i"
    and "underlays r a = Some i \<Longrightarrow> overlays r i \<noteq> None"
    and "connections r i = None \<longleftrightarrow> overlays r i = None"
    and "streams r i = None \<longleftrightarrow> overlays r i = None"
    and "connections r i = Some cs \<Longrightarrow> cs \<noteq> {}"
proof -
  have "dom (connections r) = dom (overlays r)" "dom (streams r) = dom (overlays r)"
    using assms by (simp_all add: reg_inv_def)
  then show "connections r i = None \<longleftrightarrow> overlays r i = None"
    and "streams r i = None \<longleftrightarrow> overlays r i = None"
    by (metis domIff)+
qed (use assms in \<open>auto simp: reg_inv_def\<close>)

lemma reg_inv_new: "reg_inv addr_of newPeerRegistry"
  by (simp add: reg_inv_def newPeerRegistry_def)

lemma dom_upd_same: "m i = Some x \<Longrightarrow> dom (m(i \<mapsto> y)) = dom m"
  by auto

lemma reg_inv_addPeer:
  assumes inv: "reg_inv addr_of r" and inj: "inj addr_of"
    and p: "EthAddress p = addr_of (RemotePeer c)"
  shows "reg_inv addr_of (snd (addPeer c p r))"
proof (cases "underlays r (EthAddress p)")
  case None
  with reg_invD(2) [OF inv] p have "overlays r (RemotePeer c) = None"
    by (metis not_None_eq)
  with None inv p show ?thesis
    using injD [OF inj] by (auto simp: reg_inv_def addPeer_def Let_def split: option.split)
next
  case (Some i)
  with reg_invD(3) [OF inv] p injD [OF inj] have i: "i = RemotePeer c" by metis
  with Some reg_invD(4) [OF inv] have "overlays r (RemotePeer c) \<noteq> None" by blast
  with Some inv show ?thesis
    by (auto simp: reg_inv_def addPeer_def Let_def split: option.split)
qed

text \<open>What \<open>Disconnected\<close> does under the invariant; it does not panic.\<close>

lemma Disconnected_cases:
  assumes "reg_inv addr_of r"
  obtains (absent) "connections r (RemotePeer c) = None" "Disconnected c r = (Ok (), r)"
  | (more) cs where "connections r (RemotePeer c) = Some cs" "cs - {conn_id c} \<noteq> {}"
      "Disconnected c r =
         (Ok (), r\<lparr> connections := (connections r)(RemotePeer c \<mapsto> cs - {conn_id c}) \<rparr>)"
  | (last) p where "overlays r (RemotePeer c) = Some p" "EthAddress p = addr_of (RemotePeer c)"
      "Disconnected c r =
         (Ok (), r\<lparr> connections := (connections r)(RemotePeer c := None),
                    overlays := (overlays r)(RemotePeer c := None),
                    underlays := (underlays r)(addr_of (RemotePeer c) := None),
                    pr_cancelled := pr_cancelled r \<union> stream_set r (RemotePeer c),
                    streams := (streams r)(RemotePeer c := None),
                    pr_notified := pr_notified r @ [p] \<rparr>)"
proof (cases "connections r (RemotePeer c)")
  case None
  then show thesis by (intro absent) (simp_all add: Disconnected_def)
next
  case (Some cs)
  with reg_invD(5) [OF assms, of "RemotePeer c"]
  obtain p where p: "overlays r (RemotePeer c) = Some p" by auto
  show thesis
  proof (cases "cs - {conn_id c} = {}")
    case True
    with Some p reg_invD(1) [OF assms p] show thesis
      by (intro last [of p]) (simp_all add: Disconnected_def Let_def)
  next
    case False
    with Some show thesis by (intro more [of cs]) (simp_all add: Disconnected_def Let_def)
  qed
qed

text \<open>Dropping a peer from all four maps, which \<open>Disconnected\<close> and \<open>removePeer\<close> do.\<close>

lemma reg_inv_drop:
  assumes inv: "reg_inv addr_of r" and inj: "inj addr_of"
    and r': "overlays r' = (overlays r)(i := None)"
      "underlays r' = (underlays r)(addr_of i := None)"
      "connections r' = (connections r)(i := None)" "streams r' = (streams r)(i := None)"
  shows "reg_inv addr_of r'"
proof -
  have ne: "addr_of j \<noteq> addr_of i" if "j \<noteq> i" for j using that injD [OF inj] by blast
  have "EthAddress p = addr_of j \<and> underlays r' (addr_of j) = Some j"
    if "overlays r' j = Some p" for j p
    using that ne [of j] reg_invD(1,2) [OF inv] by (auto simp: r' split: if_splits)
  moreover have "a = addr_of j \<and> overlays r' j \<noteq> None" if "underlays r' a = Some j" for a j
  proof -
    from that have a: "a \<noteq> addr_of i" "underlays r a = Some j" by (auto simp: r' split: if_splits)
    with reg_invD(3,4) [OF inv a(2)] show ?thesis by (auto simp: r')
  qed
  moreover have "dom (connections r') = dom (overlays r')" "dom (streams r') = dom (overlays r')"
    using inv by (simp_all add: r' reg_inv_def)
  moreover have "cs \<noteq> {}" if "connections r' j = Some cs" for j cs
    using that reg_invD(7) [OF inv, of j cs] by (simp add: r' split: if_splits)
  ultimately show ?thesis unfolding reg_inv_def by blast
qed

lemma reg_inv_Disconnected:
  assumes inv: "reg_inv addr_of r" and inj: "inj addr_of"
  shows "reg_inv addr_of (snd (Disconnected c r))"
  using inv
proof (cases rule: Disconnected_cases [where c = c])
  case absent
  with inv show ?thesis by simp
next
  case (more cs)
  with inv show ?thesis by (auto simp: reg_inv_def)
next
  case (last p)
  then show ?thesis
    by (intro reg_inv_drop [OF inv inj, where i = "RemotePeer c"]) simp_all
qed

lemma reg_inv_removePeer:
  assumes inv: "reg_inv addr_of r" and inj: "inj addr_of" and no: "overlays r noPeer = None"
  shows "reg_inv addr_of (snd (removePeer noPeer p r))"
proof (cases "underlays r (EthAddress p)")
  case None
  have "connections r noPeer = None" "streams r noPeer = None"
    using no reg_invD(5,6) [OF inv, of noPeer] by simp_all
  with None no have "snd (removePeer noPeer p r) =
      r\<lparr> pr_cancelled := pr_cancelled r \<union> stream_set r noPeer \<rparr>"
    by (simp add: removePeer_def fun_upd_idem)
  with inv show ?thesis by (simp add: reg_inv_def)
next
  case (Some i)
  with reg_invD(3) [OF inv Some] show ?thesis
    by (intro reg_inv_drop [OF inv inj, where i = i]) (simp_all add: removePeer_def Let_def)
qed

lemma reg_inv_addStream: "reg_inv addr_of r \<Longrightarrow> reg_inv addr_of (addStream i s r)"
  by (auto simp: reg_inv_def addStream_def split: option.splits)

lemma reg_inv_removeStream: "reg_inv addr_of r \<Longrightarrow> reg_inv addr_of (removeStream i s r)"
  by (auto simp: reg_inv_def removeStream_def split: option.splits)

end
