(* ===== verification/Streams.thy ===== *)
theory Streams
  imports Prelude
begin

text \<open>
  \<open>pkg/p2p/libp2p/stream.go\<close>: messages, headers and errors on a stream. Protobuf encoding
  and the length-prefixed transport are libraries: the encoder is an argument, and a read
  or write of the transport is an event that races with the context.
\<close>

section \<open>The encoder\<close>

text \<open>
  The body of a \<open>StreamMsg\<close>: data, an error status (code and text), or nothing.
\<close>

record rpc_status =
  rs_Code :: nat
  rs_Message :: string

datatype stream_msg = SmData bytes | SmError rpc_status | SmEmpty

record 'm proto =
  Marshal :: "'m \<Rightarrow> go_error + bytes"
  Unmarshal :: "bytes \<Rightarrow> go_error + 'm"

definition proto_ok :: "'m proto \<Rightarrow> bool" where
  "proto_ok P \<longleftrightarrow> (\<forall>m b. Marshal P m = Inr b \<longrightarrow> Unmarshal P b = Inr m)"

definition marshals :: "'m proto \<Rightarrow> 'm \<Rightarrow> bool" where
  "marshals P m \<longleftrightarrow> (\<exists>b. Marshal P m = Inr b)"

text \<open>Which of the two channels the \<open>select\<close> sees.\<close>

datatype 'a race = CtxEnded go_error | Answered 'a

section \<open>Reading\<close>

text \<open>
  \<open>status.Err()\<close> is \<open>nil\<close> for the code 0, so an error message with that code leaves the
  caller's message as it was, \<open>zero\<close>, with no error. Any other status is returned as an
  error with its code and its text.
\<close>

definition status_err :: "rpc_status \<Rightarrow> go_error option" where
  "status_err st = (if rs_Code st = 0 then None else Some (Err_Rpc (rs_Code st) (rs_Message st)))"

definition stream_ReadMsg ::
  "stream_msg proto \<Rightarrow> 'm proto \<Rightarrow> 'm \<Rightarrow> (go_error + bytes) race \<Rightarrow> 'm outcome" where
  "stream_ReadMsg PS PM zero ev =
     (case ev of
        CtxEnded err \<Rightarrow> Fail err
      | Answered (Inl err) \<Rightarrow> Fail (Err_Wrap ''failed to read message'' err)
      | Answered (Inr buf) \<Rightarrow>
         (case Unmarshal PS buf of
            Inl err \<Rightarrow> Fail (Err_Wrap ''failed to unmarshal message'' err)
          | Inr (SmError st) \<Rightarrow> (case status_err st of None \<Rightarrow> Ok zero | Some e \<Rightarrow> Fail e)
          | Inr SmEmpty \<Rightarrow> Fail (Err_Msg ''message has no data'')
          | Inr (SmData d) \<Rightarrow> of_sum (Unmarshal PM d)))"

definition ReadHeader :: "'h proto \<Rightarrow> (go_error + bytes) race \<Rightarrow> 'h outcome" where
  "ReadHeader PH ev =
     (case ev of
        CtxEnded err \<Rightarrow> Fail err
      | Answered (Inl err) \<Rightarrow> Fail (Err_Wrap ''failed to read header'' err)
      | Answered (Inr buf) \<Rightarrow>
         (case Unmarshal PH buf of
            Inl err \<Rightarrow> Fail (Err_Wrap ''failed to unmarshal header'' err)
          | Inr h \<Rightarrow> Ok h))"

section \<open>Writing\<close>

text \<open>
  A write returns its outcome and the frame it gave to the transport, if it came to that.
  The frame is written by a goroutine even when the context ends first.
\<close>

definition write_frame :: "string \<Rightarrow> go_error + bytes \<Rightarrow> (bytes \<Rightarrow> (go_error option) race) \<Rightarrow>
     unit outcome \<times> bytes option" where
  "write_frame msg enc rw =
     (case enc of
        Inl err \<Rightarrow> (Fail (Err_Wrap msg err), None)
      | Inr buf \<Rightarrow>
         (case rw buf of
            CtxEnded err \<Rightarrow> (Fail err, Some buf)
          | Answered None \<Rightarrow> (Ok (), Some buf)
          | Answered (Some err) \<Rightarrow> (Fail err, Some buf)))"

definition stream_WriteMsg ::
  "stream_msg proto \<Rightarrow> 'm proto \<Rightarrow> (bytes \<Rightarrow> (go_error option) race) \<Rightarrow> 'm \<Rightarrow>
     unit outcome \<times> bytes option" where
  "stream_WriteMsg PS PM rw m =
     (case Marshal PM m of
        Inl err \<Rightarrow> (Fail (Err_Wrap ''failed to marshal message'' err), None)
      | Inr d \<Rightarrow> write_frame ''failed to marshal message'' (Marshal PS (SmData d)) rw)"

definition WriteHeader ::
  "'h proto \<Rightarrow> (bytes \<Rightarrow> (go_error option) race) \<Rightarrow> 'h \<Rightarrow> unit outcome \<times> bytes option" where
  "WriteHeader PH rw hdr = write_frame ''failed to marshal header'' (Marshal PH hdr) rw"

definition WriteError ::
  "stream_msg proto \<Rightarrow> (bytes \<Rightarrow> (go_error option) race) \<Rightarrow> rpc_status \<Rightarrow>
     unit outcome \<times> bytes option" where
  "WriteError PS rw st =
     write_frame ''failed to marshal error message'' (Marshal PS (SmError st)) rw"

section \<open>Round trips\<close>

lemma write_frame_buf:
  "snd (write_frame msg enc rw) = Some buf \<longleftrightarrow> enc = Inr buf"
  by (auto simp: write_frame_def split: sum.splits race.splits option.splits)

lemma message_roundtrip:
  assumes "proto_ok PS" "proto_ok PM" and "snd (stream_WriteMsg PS PM rw m) = Some buf"
  shows "stream_ReadMsg PS PM zero (Answered (Inr buf)) = Ok m"
proof -
  from assms(3) obtain d where "Marshal PM m = Inr d" "Marshal PS (SmData d) = Inr buf"
    by (auto simp: stream_WriteMsg_def write_frame_buf split: sum.splits)
  with assms(1,2) have "Unmarshal PS buf = Inr (SmData d)" "Unmarshal PM d = Inr m"
    unfolding proto_ok_def by blast+
  then show ?thesis by (simp add: stream_ReadMsg_def)
qed

lemma error_roundtrip:
  assumes "proto_ok PS" and "snd (WriteError PS rw st) = Some buf"
  shows "stream_ReadMsg PS PM zero (Answered (Inr buf)) =
           (if rs_Code st = 0 then Ok zero else Fail (Err_Rpc (rs_Code st) (rs_Message st)))"
proof -
  from assms have "Unmarshal PS buf = Inr (SmError st)"
    by (simp add: WriteError_def write_frame_buf proto_ok_def)
  then show ?thesis by (simp add: stream_ReadMsg_def status_err_def)
qed

lemma header_roundtrip:
  assumes "proto_ok PH" and "snd (WriteHeader PH rw h) = Some buf"
  shows "ReadHeader PH (Answered (Inr buf)) = Ok h"
  using assms by (simp add: WriteHeader_def write_frame_buf proto_ok_def ReadHeader_def)

end
