(* ===== verification/Handshake.thy ===== *)
theory Handshake
  imports Eth_Lib Peer_Registry Streams "HOL-Library.Sublist"
begin

text \<open>
  \<open>pkg/p2p/libp2p/internal/handshake/handshake.go\<close>: the two sides of the handshake, each a
  function of the frames that arrive on its stream, in their order, with the frames it wrote.
  The lemmas show what a completed handshake guarantees to either side, and that two honest
  nodes complete it: \<open>exchange\<close> runs both sides on what the other has written so far, and the
  locale \<open>dialogue\<close> gives the rounds after which nothing more is written.
\<close>

section \<open>The service\<close>

text \<open>
  \<open>hs_signer_Verify\<close> is the \<open>Verify\<close> of \<open>pkg/signer\<close>; \<open>getEthAddress\<close> derives the
  address from a peer id's public key.
\<close>

record handshake_service =
  hs_ks :: key_signer
  hs_peerType :: peer_type
  hs_passcode :: string
  hs_signer_Verify :: "bytes \<Rightarrow> bytes \<Rightarrow> (bool \<times> address) outcome"
  CheckProviderRegistered :: "address \<Rightarrow> bool"
  handshakeReq :: "handshake_req"
  getEthAddress :: "peer_id \<Rightarrow> go_error + address"

definition createSignature ::
  "('key, 'pub) eth_lib \<Rightarrow> key_signer \<Rightarrow> peer_type \<Rightarrow> string \<Rightarrow> bytes outcome" where
  "createSignature C ks peerType passcode =
     (let unsignedData = string_bytes (peer_type_String peerType @ passcode);
          h = keccak256 C unsignedData
      in of_sum (SignHash ks h))"

definition handshake_New ::
  "('key, 'pub) eth_lib \<Rightarrow> key_signer \<Rightarrow> peer_type \<Rightarrow> string \<Rightarrow> (address \<Rightarrow> bool) \<Rightarrow>
     (peer_id \<Rightarrow> go_error + address) \<Rightarrow> handshake_service outcome" where
  "handshake_New C ks peerType passcode register getEth =
     obind (createSignature C ks peerType passcode) (\<lambda>sig. Ok
       \<lparr> hs_ks = ks, hs_peerType = peerType, hs_passcode = passcode,
         hs_signer_Verify = Verify C, CheckProviderRegistered = register,
         handshakeReq = \<lparr> req_PeerType = peer_type_String peerType, req_Token = passcode,
                          req_Sig = Some sig \<rparr>,
         getEthAddress = getEth \<rparr>)"

section \<open>Verification of the two messages\<close>

definition verifyReq :: "handshake_service \<Rightarrow> handshake_req \<Rightarrow> peer_id \<Rightarrow> address outcome" where
  "verifyReq h req peerID =
     (let unsignedData = string_bytes (req_PeerType req @ req_Token req)
      in case hs_signer_Verify h (bval (req_Sig req)) unsignedData of
           Panic \<Rightarrow> Panic
         | Fail err \<Rightarrow> Fail (Err_Join [err, Err_Sentinel ErrSignatureVerificationFailed])
         | Ok (verified, ethAddress) \<Rightarrow>
             if \<not> verified then Fail (Err_Sentinel ErrSignatureVerificationFailed)
             else obind (of_sum (getEthAddress h peerID)) (\<lambda>observedEthAddress.
               if addr_bytes observedEthAddress \<noteq> addr_bytes ethAddress
               then Fail (Err_Sentinel ErrObservedAddressMismatch)
               else if req_PeerType req = peer_type_String PeerTypeProvider \<and>
                       \<not> CheckProviderRegistered h ethAddress
               then Fail (Err_Sentinel ErrInsufficientStake)
               else Ok ethAddress))"

definition verifyResp :: "handshake_service \<Rightarrow> handshake_resp \<Rightarrow> unit outcome" where
  "verifyResp h resp =
     (if bval (resp_ObservedAddress resp) \<noteq> addr_bytes (GetAddress (hs_ks h))
      then Fail (Err_Msg ''observed address mismatch'')
      else if resp_PeerType resp \<noteq> peer_type_String (hs_peerType h)
      then Fail (Err_Msg ''peer type mismatch'')
      else Ok ())"

definition resp_to :: "handshake_req \<Rightarrow> address \<Rightarrow> handshake_resp" where
  "resp_to req ethAddress =
     \<lparr> resp_ObservedAddress = Some (addr_bytes ethAddress), resp_PeerType = req_PeerType req \<rparr>"

definition peer_of :: "handshake_req \<Rightarrow> address \<Rightarrow> peer" where
  "peer_of req ethAddress = \<lparr> EthAddress = ethAddress, Type = FromString (req_PeerType req) \<rparr>"

section \<open>The two sides\<close>

text \<open>
  The stream of one handshake, as one side sees it: what its reads meet, in the order the
  other side's frames arrive, what a read ends with when no further frame comes (the end of
  the stream, or of the context), and what a write of a frame answers. Both messages and
  the envelope are encoded by protobuf, a library.
\<close>

record hs_stream =
  st_in :: "(go_error + bytes) race list"
  st_end :: go_error
  st_write :: "bytes \<Rightarrow> (go_error option) race"
  st_msg :: "stream_msg proto"
  st_req :: "handshake_req proto"
  st_resp :: "handshake_resp proto"

definition zero_req :: handshake_req where
  "zero_req = \<lparr> req_PeerType = [], req_Token = [], req_Sig = None \<rparr>"

definition zero_resp :: handshake_resp where
  "zero_resp = \<lparr> resp_ObservedAddress = None, resp_PeerType = [] \<rparr>"

text \<open>
  A read takes the next frame, whatever message it holds, and the rest of the handler goes on
  with the frames behind it. A write gives its frame to the transport.
\<close>

definition hs_read ::
  "hs_stream \<Rightarrow> 'm proto \<Rightarrow> 'm \<Rightarrow> ('m \<Rightarrow> hs_stream \<Rightarrow> 'b outcome \<times> bytes list) \<Rightarrow>
     'b outcome \<times> bytes list" where
  "hs_read s PM zero k =
     (case st_in s of
        [] \<Rightarrow> (Fail (st_end s), [])
      | ev # evs \<Rightarrow> emit [] id (stream_ReadMsg (st_msg s) PM zero ev) (\<lambda>m. k m (s\<lparr> st_in := evs \<rparr>)))"

definition hs_write ::
  "hs_stream \<Rightarrow> 'm proto \<Rightarrow> 'm \<Rightarrow> 'b outcome \<times> bytes list \<Rightarrow> 'b outcome \<times> bytes list" where
  "hs_write s PM m k =
     (case stream_WriteMsg (st_msg s) PM (st_write s) m of
        (r, frame) \<Rightarrow> emit (case frame of None \<Rightarrow> [] | Some buf \<Rightarrow> [buf]) id r (\<lambda>_. k))"

text \<open>The responder: its outcome and the frames it wrote.\<close>

definition Handle ::
  "handshake_service \<Rightarrow> hs_stream \<Rightarrow> peer_id \<Rightarrow> peer outcome \<times> bytes list" where
  "Handle h s peerID =
     hs_read s (st_req s) zero_req (\<lambda>req s.
     emit [] id (verifyReq h req peerID) (\<lambda>ethAddress.
     hs_write s (st_resp s) (resp_to req ethAddress) (
     hs_write s (st_req s) (handshakeReq h) (
     hs_read s (st_resp s) zero_resp (\<lambda>ack s.
     emit [] id (verifyResp h ack) (\<lambda>_.
       (Ok (peer_of req ethAddress), [])))))))"

text \<open>The initiator.\<close>

definition Handshake ::
  "handshake_service \<Rightarrow> peer_id \<Rightarrow> hs_stream \<Rightarrow> peer outcome \<times> bytes list" where
  "Handshake h peerID s =
     hs_write s (st_req s) (handshakeReq h) (
     hs_read s (st_resp s) zero_resp (\<lambda>resp s.
     emit [] id (verifyResp h resp) (\<lambda>_.
     hs_read s (st_req s) zero_req (\<lambda>ack s.
     emit [] id (verifyReq h ack peerID) (\<lambda>ethAddress.
     hs_write s (st_resp s) (resp_to ack ethAddress)
       (Ok (peer_of ack ethAddress), []))))))"

section \<open>What a completed handshake guarantees\<close>

lemma addr_bytes_inj: "addr_bytes a = addr_bytes b \<longleftrightarrow> a = b"
  by (cases a; cases b) simp

lemma verifyReq_Ok:
  "verifyReq h req peerID = Ok a \<longleftrightarrow>
     hs_signer_Verify h (bval (req_Sig req)) (string_bytes (req_PeerType req @ req_Token req))
       = Ok (True, a) \<and>
     getEthAddress h peerID = Inr a \<and>
     (req_PeerType req = ''provider'' \<longrightarrow> CheckProviderRegistered h a)"
  by (auto simp: verifyReq_def Let_def addr_bytes_inj split: outcome.splits if_splits)

lemma verifyResp_Ok:
  "verifyResp h resp = Ok x \<longleftrightarrow>
     bval (resp_ObservedAddress resp) = addr_bytes (GetAddress (hs_ks h)) \<and>
     resp_PeerType resp = peer_type_String (hs_peerType h)"
  by (auto simp: verifyResp_def)

text \<open>The guarantee both sides give for the peer they return.\<close>

definition authentic :: "handshake_service \<Rightarrow> peer_id \<Rightarrow> handshake_req \<Rightarrow> peer \<Rightarrow> bool" where
  "authentic h peerID req p \<longleftrightarrow>
     getEthAddress h peerID = Inr (EthAddress p) \<and>
     hs_signer_Verify h (bval (req_Sig req)) (string_bytes (req_PeerType req @ req_Token req))
       = Ok (True, EthAddress p) \<and>
     Type p = FromString (req_PeerType req) \<and>
     (Type p = PeerTypeProvider \<longrightarrow> CheckProviderRegistered h (EthAddress p))"

lemma authentic_peer_of:
  "verifyReq h req peerID = Ok a \<Longrightarrow> authentic h peerID req (peer_of req a)"
  by (auto simp: authentic_def peer_of_def verifyReq_Ok FromString_eq_iff)

lemma fst_emit_Ok [simp]: "fst (emit es w m k) = Ok y \<longleftrightarrow> (\<exists>x. m = Ok x \<and> fst (k x) = Ok y)"
  by (cases m) simp_all

text \<open>What the \<open>n\<close>-th read gives and whether a write works.\<close>

definition reads :: "hs_stream \<Rightarrow> nat \<Rightarrow> 'm proto \<Rightarrow> 'm \<Rightarrow> 'm \<Rightarrow> bool" where
  "reads s n PM zero m \<longleftrightarrow>
     n < length (st_in s) \<and> stream_ReadMsg (st_msg s) PM zero (st_in s ! n) = Ok m"

definition writes :: "hs_stream \<Rightarrow> 'm proto \<Rightarrow> 'm \<Rightarrow> bool" where
  "writes s PM m \<longleftrightarrow> fst (stream_WriteMsg (st_msg s) PM (st_write s) m) = Ok ()"

lemma fst_hs_read_Ok [simp]:
  "fst (hs_read s PM zero k) = Ok y \<longleftrightarrow>
     (\<exists>m. reads s 0 PM zero m \<and> fst (k m (s\<lparr> st_in := tl (st_in s) \<rparr>)) = Ok y)"
  by (auto simp: hs_read_def reads_def split: list.split)

lemma fst_hs_write_Ok [simp]: "fst (hs_write s PM m k) = Ok y \<longleftrightarrow> writes s PM m \<and> fst k = Ok y"
  by (cases "stream_WriteMsg (st_msg s) PM (st_write s) m") (auto simp: hs_write_def writes_def)

lemma reads_tl [simp]: "reads (s\<lparr> st_in := tl (st_in s) \<rparr>) n PM zero m \<longleftrightarrow> reads s (Suc n) PM zero m"
  by (cases "st_in s") (auto simp: reads_def)

lemma writes_in [simp]: "writes (s\<lparr> st_in := evs \<rparr>) PM m \<longleftrightarrow> writes s PM m"
  by (simp add: writes_def)

lemma Handle_Ok:
  "fst (Handle h s peerID) = Ok p \<longleftrightarrow>
     (\<exists>req a ack. reads s 0 (st_req s) zero_req req \<and> verifyReq h req peerID = Ok a \<and>
        writes s (st_resp s) (resp_to req a) \<and> writes s (st_req s) (handshakeReq h) \<and>
        reads s 1 (st_resp s) zero_resp ack \<and> verifyResp h ack = Ok () \<and> p = peer_of req a)"
  by (auto simp: Handle_def)

lemma Handshake_Ok:
  "fst (Handshake h peerID s) = Ok p \<longleftrightarrow>
     (\<exists>resp ack a. writes s (st_req s) (handshakeReq h) \<and> reads s 0 (st_resp s) zero_resp resp \<and>
        verifyResp h resp = Ok () \<and> reads s 1 (st_req s) zero_req ack \<and>
        verifyReq h ack peerID = Ok a \<and>
        writes s (st_resp s) (resp_to ack a) \<and> p = peer_of ack a)"
  by (auto simp: Handshake_def)

lemma Handle_authentic:
  assumes "fst (Handle h s peerID) = Ok p"
  obtains req ack where "reads s 0 (st_req s) zero_req req" and "authentic h peerID req p"
    and "reads s 1 (st_resp s) zero_resp ack" and "verifyResp h ack = Ok ()"
  using assms by (auto simp: Handle_Ok intro: authentic_peer_of)

lemma Handshake_authentic:
  assumes "fst (Handshake h peerID s) = Ok p"
  obtains ack resp where "reads s 1 (st_req s) zero_req ack" and "authentic h peerID ack p"
    and "reads s 0 (st_resp s) zero_resp resp" and "verifyResp h resp = Ok ()"
  using assms by (auto simp: Handshake_Ok intro: authentic_peer_of)

section \<open>Two honest nodes complete the handshake\<close>

text \<open>
  \<open>honest C h i\<close>: \<open>h\<close> is a service made by \<open>New\<close> whose key signs as the address of its
  peer id \<open>i\<close>.
\<close>

definition honest ::
  "('key, 'pub) eth_lib \<Rightarrow> handshake_service \<Rightarrow> (peer_id \<Rightarrow> address) \<Rightarrow> peer_id \<Rightarrow> bool" where
  "honest C h addr_of i \<longleftrightarrow>
     (\<exists>ks pt pc register key. handshake_New C ks pt pc register (\<lambda>j. Inr (addr_of j)) = Ok h \<and>
        ks = PrivateKeySigner C key \<and> pubkey_to_address C (public_key C key) = addr_of i)"

lemma honestD:
  assumes "honest C h addr_of i" and "ecdsa_ok C"
  shows "Verify C (bval (req_Sig (handshakeReq h)))
           (string_bytes (req_PeerType (handshakeReq h) @ req_Token (handshakeReq h))) =
           Ok (True, addr_of i)"
    and "hs_signer_Verify h = Verify C" and "getEthAddress h j = Inr (addr_of j)"
    and "GetAddress (hs_ks h) = addr_of i"
    and "req_PeerType (handshakeReq h) = peer_type_String (hs_peerType h)"
proof -
  from assms(1) obtain pt pc register key where
    n: "handshake_New C (PrivateKeySigner C key) pt pc register (\<lambda>j. Inr (addr_of j)) = Ok h"
    and k: "pubkey_to_address C (public_key C key) = addr_of i"
    unfolding honest_def by blast
  from n obtain sig where
    s: "createSignature C (PrivateKeySigner C key) pt pc = Ok sig"
    and h: "hs_signer_Verify h = Verify C" "getEthAddress h = (\<lambda>j. Inr (addr_of j))"
      "hs_ks h = PrivateKeySigner C key" "hs_peerType h = pt"
      "handshakeReq h = \<lparr> req_PeerType = peer_type_String pt, req_Token = pc, req_Sig = Some sig \<rparr>"
    by (auto simp: handshake_New_def)
  from s have "Sign C key (string_bytes (peer_type_String pt @ pc)) = Ok sig"
    by (simp add: createSignature_def Sign_def PrivateKeySigner_def Let_def)
  with assms(2) k h show "Verify C (bval (req_Sig (handshakeReq h)))
      (string_bytes (req_PeerType (handshakeReq h) @ req_Token (handshakeReq h))) = Ok (True, addr_of i)"
    by (simp add: Verify_Sign)
  from h k show "hs_signer_Verify h = Verify C" "getEthAddress h j = Inr (addr_of j)"
    "GetAddress (hs_ks h) = addr_of i"
    "req_PeerType (handshakeReq h) = peer_type_String (hs_peerType h)"
    by (simp_all add: PrivateKeySigner_def)
qed

lemma verifyReq_honest:
  assumes "honest C g addr_of i" "honest C h addr_of j" "ecdsa_ok C"
    and "hs_peerType g = PeerTypeProvider \<Longrightarrow> CheckProviderRegistered h (addr_of i)"
  shows "verifyReq h (handshakeReq g) i = Ok (addr_of i)"
  using honestD [OF assms(1,3)] honestD [OF assms(2,3)] assms(4)
  by (cases "hs_peerType g") (auto simp: verifyReq_Ok)

lemma verifyResp_honest:
  assumes "honest C g addr_of i" "ecdsa_ok C"
  shows "verifyResp g (resp_to (handshakeReq g) (addr_of i)) = Ok ()"
  using honestD [OF assms] by (simp add: verifyResp_Ok resp_to_def)

text \<open>
  A transport that carries the frames of one side to the other in order, and on which every
  write works. A read behind the last frame written so far has nothing to read yet.
\<close>

record hs_wire =
  hw_msg :: "stream_msg proto"
  hw_req :: "handshake_req proto"
  hw_resp :: "handshake_resp proto"

definition carry :: "hs_wire \<Rightarrow> bytes list \<Rightarrow> hs_stream" where
  "carry W fs =
     \<lparr> st_in = map (\<lambda>f. Answered (Inr f)) fs, st_end = Err_Lib ''EOF'', st_write = (\<lambda>_. Answered None),
       st_msg = hw_msg W, st_req = hw_req W, st_resp = hw_resp W \<rparr>"

definition hs_wire_ok :: "hs_wire \<Rightarrow> bool" where
  "hs_wire_ok W \<longleftrightarrow>
     proto_ok (hw_msg W) \<and> proto_ok (hw_req W) \<and> proto_ok (hw_resp W) \<and>
     (\<forall>d. marshals (hw_msg W) (SmData d))"

definition hs_frame :: "hs_wire \<Rightarrow> 'm proto \<Rightarrow> 'm \<Rightarrow> bytes" where
  "hs_frame W PM m =
     (case Marshal PM m of
        Inl e \<Rightarrow> []
      | Inr d \<Rightarrow> (case Marshal (hw_msg W) (SmData d) of Inl e \<Rightarrow> [] | Inr buf \<Rightarrow> buf))"

lemma hs_frame:
  assumes "proto_ok (hw_msg W)" "proto_ok PM" "marshals PM m" "\<And>d. marshals (hw_msg W) (SmData d)"
  shows "stream_WriteMsg (hw_msg W) PM (\<lambda>_. Answered None) m = (Ok (), Some (hs_frame W PM m))"
    and "stream_ReadMsg (hw_msg W) PM zero (Answered (Inr (hs_frame W PM m))) = Ok m"
proof -
  from assms(3) obtain d where d: "Marshal PM m = Inr d" by (auto simp: marshals_def)
  from assms(4) [of d] obtain buf where b: "Marshal (hw_msg W) (SmData d) = Inr buf"
    by (auto simp: marshals_def)
  show w: "stream_WriteMsg (hw_msg W) PM (\<lambda>_. Answered None) m = (Ok (), Some (hs_frame W PM m))"
    by (simp add: stream_WriteMsg_def write_frame_def hs_frame_def d b)
  show "stream_ReadMsg (hw_msg W) PM zero (Answered (Inr (hs_frame W PM m))) = Ok m"
    by (rule message_roundtrip [OF assms(1,2), where rw = "\<lambda>_. Answered None"]) (simp add: w)
qed

lemma hs_write_carry:
  assumes "proto_ok (hw_msg W)" "proto_ok PM" "marshals PM m" "\<And>d. marshals (hw_msg W) (SmData d)"
    and "st_msg s = hw_msg W" "st_write s = (\<lambda>_. Answered None)"
  shows "hs_write s PM m k = (fst k, hs_frame W PM m # snd k)"
  using hs_frame(1) [OF assms(1-4)] assms(5,6) by (simp add: hs_write_def)

lemma hs_read_carry:
  assumes "st_in s = Answered (Inr (hs_frame W PM m)) # evs" "st_msg s = hw_msg W"
    and "proto_ok (hw_msg W)" "proto_ok PM" "marshals PM m" "\<And>d. marshals (hw_msg W) (SmData d)"
  shows "hs_read s PM zero k = k m (s\<lparr> st_in := evs \<rparr>)"
  using hs_frame(2) [OF assms(3-6)] assms(1,2) by (simp add: hs_read_def)

text \<open>
  Two sides at the ends of one stream. Each is run again on what the other has written so
  far, from nothing written: round \<open>n\<close> holds the frames that can have been written after
  \<open>n\<close> turns, so a side that waits for a frame the other only writes later stays where it
  is, and two sides that wait for each other never get further.
\<close>

fun exchange ::
  "(hs_stream \<Rightarrow> 'a outcome \<times> bytes list) \<Rightarrow> (hs_stream \<Rightarrow> 'b outcome \<times> bytes list) \<Rightarrow>
     hs_wire \<Rightarrow> nat \<Rightarrow> bytes list \<times> bytes list" where
  "exchange f g W 0 = ([], [])"
| "exchange f g W (Suc n) =
     (case exchange f g W n of (out, inn) \<Rightarrow> (snd (f (carry W inn)), snd (g (carry W out))))"

text \<open>What a side has written does not change when more frames arrive: rounds only extend.\<close>

lemma prefix_emit:
  "(\<And>x. prefix (snd (k x)) (snd (k' x))) \<Longrightarrow> prefix (snd (emit es w m k)) (snd (emit es w m k'))"
  by (cases m) simp_all

lemma prefix_hs_read:
  assumes "\<And>m evs. prefix (snd (k m (s\<lparr> st_in := evs \<rparr>))) (snd (k m (s\<lparr> st_in := evs @ es \<rparr>)))"
  shows "prefix (snd (hs_read (s\<lparr> st_in := xs \<rparr>) PM zero k)) (snd (hs_read (s\<lparr> st_in := xs @ es \<rparr>) PM zero k))"
  using assms by (cases xs) (auto simp: hs_read_def intro!: prefix_emit)

lemma prefix_hs_write:
  "prefix (snd k) (snd k') \<Longrightarrow>
     prefix (snd (hs_write (s\<lparr> st_in := xs \<rparr>) PM m k)) (snd (hs_write (s\<lparr> st_in := ys \<rparr>) PM m k'))"
  by (auto simp: hs_write_def intro!: prefix_emit split: prod.split)

lemmas prefix_intros = prefix_emit prefix_hs_read prefix_hs_write

locale dialogue =
  fixes f :: "hs_stream \<Rightarrow> 'a outcome \<times> bytes list" and g :: "hs_stream \<Rightarrow> 'b outcome \<times> bytes list"
  assumes f_extends: "prefix (snd (f s)) (snd (f (s\<lparr> st_in := st_in s @ es \<rparr>)))"
    and g_extends: "prefix (snd (g s)) (snd (g (s\<lparr> st_in := st_in s @ es \<rparr>)))"
begin

lemma carry_extends:
  assumes "prefix fs fs'"
  shows "prefix (snd (f (carry W fs))) (snd (f (carry W fs')))"
    and "prefix (snd (g (carry W fs))) (snd (g (carry W fs')))"
proof -
  from assms obtain es where "fs' = fs @ es" by (auto simp: prefix_def)
  then have c: "carry W fs' = (carry W fs)\<lparr> st_in := st_in (carry W fs) @ map (\<lambda>f. Answered (Inr f)) es \<rparr>"
    by (simp add: carry_def)
  show "prefix (snd (f (carry W fs))) (snd (f (carry W fs')))"
    "prefix (snd (g (carry W fs))) (snd (g (carry W fs')))"
    unfolding c by (rule f_extends g_extends)+
qed

lemma rounds_extend:
  "prefix (fst (exchange f g W n)) (fst (exchange f g W (Suc n))) \<and>
   prefix (snd (exchange f g W n)) (snd (exchange f g W (Suc n)))"
proof (induction n)
  case (Suc n)
  obtain out inn where n: "exchange f g W n = (out, inn)" by (cases "exchange f g W n")
  have "exchange f g W (Suc n) = (snd (f (carry W inn)), snd (g (carry W out)))" by (simp add: n)
  moreover have "exchange f g W (Suc (Suc n)) =
      (snd (f (carry W (snd (g (carry W out))))), snd (g (carry W (snd (f (carry W inn))))))"
    by (simp add: n)
  ultimately show ?case using Suc.IH carry_extends by (simp add: n)
qed simp

text \<open>A round that writes nothing more is the last one.\<close>

lemma rounds_stable:
  assumes "exchange f g W (Suc n) = exchange f g W n" and "n \<le> m"
  shows "exchange f g W m = exchange f g W n"
  using assms(2) by (induction m rule: dec_induct) (use assms(1) in simp_all)

end

lemma Handle_extends:
  "prefix (snd (Handle h (s\<lparr> st_in := xs \<rparr>) i)) (snd (Handle h (s\<lparr> st_in := xs @ es \<rparr>) i))"
  unfolding Handle_def by (rule prefix_intros | simp)+

lemma Handshake_extends:
  "prefix (snd (Handshake h i (s\<lparr> st_in := xs \<rparr>))) (snd (Handshake h i (s\<lparr> st_in := xs @ es \<rparr>)))"
  unfolding Handshake_def by (rule prefix_intros | simp)+

interpretation handshakes: dialogue "Handshake g j" "\<lambda>s. Handle h s i"
  for g j h i
proof unfold_locales
  show "prefix (snd (Handshake g j s)) (snd (Handshake g j (s\<lparr> st_in := st_in s @ es \<rparr>)))" for s es
    using Handshake_extends [where s = s and xs = "st_in s"] by simp
  show "prefix (snd (Handle h s i)) (snd (Handle h (s\<lparr> st_in := st_in s @ es \<rparr>) i))" for s es
    using Handle_extends [where s = s and xs = "st_in s"] by simp
qed

text \<open>The four frames of a handshake of honest nodes, two in each direction.\<close>

definition initiator_frames :: "hs_wire \<Rightarrow> handshake_service \<Rightarrow> handshake_service \<Rightarrow> address \<Rightarrow> bytes list" where
  "initiator_frames W g h b =
     [hs_frame W (hw_req W) (handshakeReq g), hs_frame W (hw_resp W) (resp_to (handshakeReq h) b)]"

definition responder_frames :: "hs_wire \<Rightarrow> handshake_service \<Rightarrow> handshake_service \<Rightarrow> address \<Rightarrow> bytes list" where
  "responder_frames W g h a =
     [hs_frame W (hw_resp W) (resp_to (handshakeReq g) a), hs_frame W (hw_req W) (handshakeReq h)]"

lemma honest_handshake:
  assumes g: "honest C g addr_of i" and h: "honest C h addr_of j" and ok: "ecdsa_ok C"
    and "hs_peerType g = PeerTypeProvider \<Longrightarrow> CheckProviderRegistered h (addr_of i)"
    and "hs_peerType h = PeerTypeProvider \<Longrightarrow> CheckProviderRegistered g (addr_of j)"
    and W: "hs_wire_ok W" "marshals (hw_req W) (handshakeReq g)" "marshals (hw_req W) (handshakeReq h)"
      "marshals (hw_resp W) (resp_to (handshakeReq g) (addr_of i))"
      "marshals (hw_resp W) (resp_to (handshakeReq h) (addr_of j))"
  defines "out \<equiv> initiator_frames W g h (addr_of j)" and "inn \<equiv> responder_frames W g h (addr_of i)"
  shows "3 \<le> n \<Longrightarrow> exchange (Handshake g j) (\<lambda>s. Handle h s i) W n = (out, inn)"
    and "Handshake g j (carry W inn) = (Ok (peer_of (handshakeReq h) (addr_of j)), out)"
    and "Handle h (carry W out) i = (Ok (peer_of (handshakeReq g) (addr_of i)), inn)"
proof -
  note v = verifyReq_honest [OF g h ok assms(4)] verifyReq_honest [OF h g ok assms(5)]
    verifyResp_honest [OF g ok] verifyResp_honest [OF h ok]
  note W1 = W(1) [unfolded hs_wire_ok_def]
  note wr = hs_write_carry [where W = W] and rd = hs_read_carry [where W = W]
  note steps = Handshake_def Handle_def carry_def initiator_frames_def responder_frames_def out_def inn_def
    wr rd hs_read_def [of "s\<lparr> st_in := [] \<rparr>" for s] W W1 v
  show i2: "Handshake g j (carry W inn) = (Ok (peer_of (handshakeReq h) (addr_of j)), out)"
    by (simp add: steps)
  show r2: "Handle h (carry W out) i = (Ok (peer_of (handshakeReq g) (addr_of i)), inn)"
    by (simp add: steps)
  have i1: "snd (Handshake g j (carry W [])) = [hd out]" by (simp add: steps) (simp add: hs_read_def)
  have r0: "snd (Handle h (carry W []) i) = []" by (simp add: steps) (simp add: hs_read_def)
  have r1: "snd (Handle h (carry W [hd out]) i) = inn" by (simp add: steps) (simp add: hs_read_def)
  let ?x = "exchange (Handshake g j) (\<lambda>s. Handle h s i) W"
  have x3: "?x 3 = (out, inn)"
    by (simp add: numeral_3_eq_3 i1 r0 r1 i2)
  moreover have "?x (Suc 3) = (out, inn)" using x3 by (simp only: exchange.simps prod.case i2 r2 snd_conv)
  ultimately show "?x n = (out, inn)" if "3 \<le> n"
    using handshakes.rounds_stable [OF _ that] by metis
qed

section \<open>What the signature does not bind\<close>

text \<open>Only the concatenation of peer type and token is signed.\<close>

lemma verifyReq_split:
  assumes "verifyReq h req peerID = Ok a" and "t @ k = req_PeerType req @ req_Token req"
    and "t \<noteq> ''provider''"
  shows "verifyReq h (req\<lparr> req_PeerType := t, req_Token := k \<rparr>) peerID = Ok a"
  using assms by (simp add: verifyReq_Ok)

end
