(* ===== verification/Blocklist.thy ===== *)
theory Blocklist
  imports Peer_Registry
begin

text \<open>
  \<open>pkg/p2p/libp2p/blocklister.go\<close> and the connection gater of \<open>conngater.go\<close>. Times and
  durations are integers (nanoseconds); the clock's reading is an argument. The lemmas give
  the lifetime of a block, and that reading the block list at any time changes no later
  answer.
\<close>

section \<open>The block list\<close>

record block_info =
  reason :: string
  start :: int
  duration :: int

type_synonym block_map = "peer_id \<rightharpoonup> block_info"

definition blockPeer :: "int \<Rightarrow> peer_id \<Rightarrow> int \<Rightarrow> string \<Rightarrow> block_map \<Rightarrow> block_map" where
  "blockPeer now peer dur why m =
     m(peer \<mapsto> \<lparr> reason = why, start = now, duration = dur \<rparr>)"

definition isBlocked :: "int \<Rightarrow> peer_id \<Rightarrow> block_map \<Rightarrow> bool \<times> block_map" where
  "isBlocked now peer m =
     (case m peer of
        None \<Rightarrow> (False, m)
      | Some info \<Rightarrow>
          if now > start info + duration info \<and> duration info \<noteq> 0
          then (False, m(peer := None)) else (True, m))"

text \<open>
  \<open>BlockedPeers\<close> visits the map in the order \<open>ids\<close>; \<open>nows\<close> is the clock at each visit.
  The duration text is \<open>''Forever''\<close> or the remaining time.
\<close>

datatype block_left = Forever | Remaining int

record blocked_peer_info =
  bp_Peer :: address
  bp_Reason :: string
  bp_Duration :: block_left

definition blocked_info :: "(peer_id \<Rightarrow> go_error + address) \<Rightarrow> int \<Rightarrow> peer_id \<Rightarrow> block_info \<Rightarrow>
     blocked_peer_info option" where
  "blocked_info getEth now i info =
     (if now < start info + duration info \<or> duration info = 0
      then (case getEth i of
              Inl _ \<Rightarrow> None
            | Inr a \<Rightarrow> Some \<lparr> bp_Peer = a, bp_Reason = reason info,
                bp_Duration = (if duration info = 0 then Forever
                               else Remaining (start info + duration info - now)) \<rparr>)
      else None)"

definition BlockedPeers ::
  "(peer_id \<Rightarrow> go_error + address) \<Rightarrow> int \<Rightarrow> peer_id list \<Rightarrow> block_map \<Rightarrow> blocked_peer_info list" where
  "BlockedPeers getEth now ids m =
     List.map_filter (\<lambda>i. case m i of None \<Rightarrow> None | Some info \<Rightarrow> blocked_info getEth now i info) ids"

section \<open>The connection gater\<close>

text \<open>
  Until \<open>setBlocker\<close> the gater has no blocker.
\<close>

definition InterceptPeerDial :: "bool \<Rightarrow> int \<Rightarrow> peer_id \<Rightarrow> block_map \<Rightarrow> bool \<times> block_map" where
  "InterceptPeerDial hasBlocker now p m =
     (if hasBlocker then (case isBlocked now p m of (b, m') \<Rightarrow> (\<not> b, m')) else (True, m))"

definition InterceptSecured :: "bool \<Rightarrow> int \<Rightarrow> peer_id \<Rightarrow> block_map \<Rightarrow> bool \<times> block_map" where
  "InterceptSecured hasBlocker now p m =
     (if hasBlocker then (case isBlocked now p m of (b, m') \<Rightarrow> (\<not> b, m')) else (True, m))"

definition InterceptAddrDial :: "peer_id \<Rightarrow> 'addr \<Rightarrow> bool" where
  "InterceptAddrDial p addr = True"

text \<open>
  The limiter keeps a rate limiter per IP address in a cache. Cache and rate limiters are two
  libraries with a state \<open>'w\<close>: \<open>rl_New\<close> makes \<open>rate.NewLimiter(rate.Every(1), 1)\<close>, a
  reference to a new limiter.
\<close>

record ('addr, 'l, 'w) limiter_lib =
  rl_ToIP :: "'addr \<Rightarrow> go_error + string"
  rl_Get :: "string \<Rightarrow> 'w \<Rightarrow> 'l option \<times> 'w"
  rl_Add :: "string \<Rightarrow> 'l \<Rightarrow> 'w \<Rightarrow> 'w"
  rl_New :: "'w \<Rightarrow> 'l \<times> 'w"
  rl_Allow :: "'l \<Rightarrow> 'w \<Rightarrow> bool \<times> 'w"

definition limiter_Allow :: "('addr, 'l, 'w) limiter_lib \<Rightarrow> 'addr \<Rightarrow> 'w \<Rightarrow> bool \<times> 'w" where
  "limiter_Allow L addr w =
     (case rl_ToIP L addr of
        Inl _ \<Rightarrow> (False, w)
      | Inr ip \<Rightarrow>
         (case rl_Get L ip w of
            (Some ipLimiter, w1) \<Rightarrow> rl_Allow L ipLimiter w1
          | (None, w1) \<Rightarrow>
             (case rl_New L w1 of
                (ipLimiter, w2) \<Rightarrow> rl_Allow L ipLimiter (rl_Add L ip ipLimiter w2))))"

definition InterceptAccept :: "('addr, 'l, 'w) limiter_lib \<Rightarrow> 'addr \<Rightarrow> 'w \<Rightarrow> bool \<times> 'w" where
  "InterceptAccept L remote w = limiter_Allow L remote w"

section \<open>Lifetime of a block\<close>

lemma isBlocked_blockPeer:
  "fst (isBlocked now p (blockPeer t p dur why m)) \<longleftrightarrow> dur = 0 \<or> now \<le> t + dur"
  by (auto simp: isBlocked_def blockPeer_def)

lemma isBlocked_blockPeer_other:
  "fst (isBlocked now q (blockPeer t p dur why m)) =
     (if p = q then dur = 0 \<or> now \<le> t + dur else fst (isBlocked now q m))"
proof (cases "p = q")
  case True
  then show ?thesis by (simp add: isBlocked_blockPeer)
next
  case False
  then have "blockPeer t p dur why m q = m q" by (simp add: blockPeer_def)
  with False show ?thesis by (simp add: isBlocked_def split: option.splits)
qed

text \<open>
  Looking at a peer, which may delete its expired entry, changes no answer at that or any
  later time.
\<close>

lemma isBlocked_later:
  assumes "now \<le> later"
  shows "fst (isBlocked later q (snd (isBlocked now p m))) = fst (isBlocked later q m)"
  using assms by (auto simp: isBlocked_def split: option.splits)

text \<open>
  The whole life of a block list: \<open>blockPeer\<close> and \<open>isBlocked\<close> at given times. \<open>block_ops\<close>
  is the list they leave.
\<close>

datatype block_op = OpBlock peer_id int string | OpLook peer_id

fun block_ops :: "(int \<times> block_op) list \<Rightarrow> block_map \<Rightarrow> block_map" where
  "block_ops [] m = m"
| "block_ops ((now, OpBlock p dur why) # ops) m = block_ops ops (blockPeer now p dur why m)"
| "block_ops ((now, OpLook p) # ops) m = block_ops ops (snd (isBlocked now p m))"

text \<open>
  A peer stays blocked as long as its own later blocks are for ever too, whatever is blocked or
  looked at in between.
\<close>

lemma isBlocked_ops:
  assumes "fst (isBlocked later q m)" and "\<forall>x \<in> set ops. fst x \<le> later"
    and "\<forall>t d why. (t, OpBlock q d why) \<in> set ops \<longrightarrow> d = 0"
  shows "fst (isBlocked later q (block_ops ops m))"
  using assms
proof (induction ops m rule: block_ops.induct)
  case (2 now p dur why ops m)
  have own: "\<forall>t d why. (t, OpBlock q d why) \<in> set ops \<longrightarrow> d = 0" using 2(4) by simp
  have "p = q \<Longrightarrow> dur = 0" using 2(4) by simp
  with 2(2) have "fst (isBlocked later q (blockPeer now p dur why m))"
    by (simp add: isBlocked_blockPeer_other)
  from "2.IH" [OF this _ own] 2(3) show ?case by simp
next
  case (3 now p ops m)
  have own: "\<forall>t d why. (t, OpBlock q d why) \<in> set ops \<longrightarrow> d = 0" using 3(4) by simp
  have "fst (isBlocked later q (snd (isBlocked now p m)))" using 3(2,3) by (simp add: isBlocked_later)
  from "3.IH" [OF this _ own] 3(3) show ?case by simp
qed simp

text \<open>
  The answers of the looks. The reference keeps every block ever made, the newest first, and
  deletes nothing: the newest block of the peer decides.
\<close>

fun run_blocks :: "(int \<times> block_op) list \<Rightarrow> block_map \<Rightarrow> bool list" where
  "run_blocks [] m = []"
| "run_blocks ((now, OpBlock p dur why) # ops) m = run_blocks ops (blockPeer now p dur why m)"
| "run_blocks ((now, OpLook p) # ops) m =
     (case isBlocked now p m of (b, m') \<Rightarrow> b # run_blocks ops m')"

fun in_force :: "(int \<times> peer_id \<times> int) list \<Rightarrow> peer_id \<Rightarrow> int \<Rightarrow> bool" where
  "in_force [] p now = False"
| "in_force ((t, q, dur) # past) p now =
     (if q = p then dur = 0 \<or> now \<le> t + dur else in_force past p now)"

fun ref_blocks :: "(int \<times> block_op) list \<Rightarrow> (int \<times> peer_id \<times> int) list \<Rightarrow> bool list" where
  "ref_blocks [] past = []"
| "ref_blocks ((now, OpBlock p dur why) # ops) past = ref_blocks ops ((now, p, dur) # past)"
| "ref_blocks ((now, OpLook p) # ops) past = in_force past p now # ref_blocks ops past"

definition agrees_from :: "int \<Rightarrow> (int \<times> peer_id \<times> int) list \<Rightarrow> block_map \<Rightarrow> bool" where
  "agrees_from now past m \<longleftrightarrow>
     (\<forall>later p. now \<le> later \<longrightarrow> fst (isBlocked later p m) = in_force past p later)"

lemma agrees_from_mono: "agrees_from now past m \<Longrightarrow> now \<le> later \<Longrightarrow> agrees_from later past m"
  by (simp add: agrees_from_def)

lemma agrees_from_block:
  "agrees_from now past m \<Longrightarrow> agrees_from now ((t, p, dur) # past) (blockPeer t p dur why m)"
  by (simp add: agrees_from_def isBlocked_blockPeer_other)

lemma agrees_from_look: "agrees_from now past m \<Longrightarrow> agrees_from now past (snd (isBlocked now p m))"
  by (simp add: agrees_from_def isBlocked_later)

lemma run_blocks_ref:
  assumes "sorted (now # map fst ops)" and "agrees_from now past m"
  shows "run_blocks ops m = ref_blocks ops past"
  using assms
proof (induction ops past arbitrary: now m rule: ref_blocks.induct)
  case (2 t p dur why ops past)
  then have "sorted (t # map fst ops)" "agrees_from t ((t, p, dur) # past) (blockPeer t p dur why m)"
    by (auto intro: agrees_from_block agrees_from_mono)
  from "2.IH" [OF this] show ?case by simp
next
  case (3 t p ops past)
  then have here: "sorted (t # map fst ops)" "agrees_from t past m" by (auto intro: agrees_from_mono)
  from here(2) have "fst (isBlocked t p m) = in_force past p t" by (simp add: agrees_from_def)
  with "3.IH" [OF here(1) agrees_from_look [OF here(2)]] show ?case by (simp add: case_prod_unfold)
qed simp

lemma agrees_from_empty: "agrees_from now [] Map.empty"
  by (simp add: agrees_from_def isBlocked_def)

lemma run_blocks_new: "sorted (map fst ops) \<Longrightarrow> run_blocks ops Map.empty = ref_blocks ops []"
proof (cases ops)
  case (Cons x xs)
  assume "sorted (map fst ops)"
  with Cons show ?thesis
    by (intro run_blocks_ref [of "fst x"]) (simp_all add: agrees_from_empty)
qed simp

text \<open>The list and the test agree except at the exact end of a block.\<close>

lemma BlockedPeers_iff:
  assumes "enumerates ids (dom m)" and "getEth i = Inr a" and "m i = Some info"
    and "duration info = 0 \<or> now \<noteq> start info + duration info"
  shows "blocked_info getEth now i info \<noteq> None \<longleftrightarrow> fst (isBlocked now i m)"
  using assms by (auto simp: blocked_info_def isBlocked_def)

end
