(* ===== verification/P2p_Service.thy ===== *)
theory P2p_Service
  imports Handshake Blocklist
begin

text \<open>
  \<open>pkg/p2p/libp2p/libp2p.go\<close>: connecting peers in both directions, opening and serving
  streams, and protocol negotiation. The network
  itself (the libp2p host) is a library: what it answers during a call is an argument, and
  what the service asks of it is recorded in order.
\<close>

section \<open>State\<close>

datatype net_effect =
    ResetStream
  | CloseStream
  | ClosePeer peer_id
  | NotifyConnected peer
  | AddAddrs peer_id "string list"

record p2p_service =
  peers :: peer_registry
  blockMap :: block_map
  FailedIncomingHandshakeCount :: nat
  FailedOutgoingHandshakeCount :: nat
  sv_effects :: "net_effect list"

definition new_p2p_service :: p2p_service where
  "new_p2p_service =
     \<lparr> peers = newPeerRegistry, blockMap = Map.empty, FailedIncomingHandshakeCount = 0,
       FailedOutgoingHandshakeCount = 0, sv_effects = [] \<rparr>"

definition record_effect :: "net_effect \<Rightarrow> p2p_service \<Rightarrow> p2p_service" where
  "record_effect e s = s\<lparr> sv_effects := sv_effects s @ [e] \<rparr>"

definition minute :: int where
  "minute = 60 * 10 ^ 9"

text \<open>The blocking that follows a failed handshake; \<open>stakeBlock\<close> differs by direction.\<close>

definition block_for :: "int \<Rightarrow> peer_id \<Rightarrow> int \<Rightarrow> go_error \<Rightarrow> block_map \<Rightarrow> block_map" where
  "block_for now peerID stakeBlock err m =
     (if errors_is err ErrSignatureVerificationFailed
      then blockPeer now peerID 0 ''signature verification failed'' m
      else if errors_is err ErrObservedAddressMismatch
      then blockPeer now peerID 0 ''address mismatch during handshake'' m
      else if errors_is err ErrInsufficientStake
      then blockPeer now peerID stakeBlock ''insufficient stake'' m
      else m)"

section \<open>Incoming and outgoing connections\<close>

text \<open>\<open>hasNotifier\<close>: \<open>SetNotifier\<close> was called.\<close>

definition handleConnectReq ::
  "handshake_service \<Rightarrow> bool \<Rightarrow> int \<Rightarrow> conn \<Rightarrow> hs_stream \<Rightarrow> (p2p_service, unit) act" where
  "handleConnectReq h hasNotifier now c str = (\<lambda>s.
     let peerID = RemotePeer c
     in case fst (Handle h str peerID) of
          Panic \<Rightarrow> (Panic, s)
        | Fail err \<Rightarrow>
            (Ok (),
             let s1 = record_effect (ClosePeer peerID) (record_effect ResetStream s)
             in s1\<lparr> FailedIncomingHandshakeCount := Suc (FailedIncomingHandshakeCount s1),
                    blockMap := block_for now peerID (2 * minute) err (blockMap s1) \<rparr>)
        | Ok p \<Rightarrow>
           (case addPeer c p (peers s) of
              (True, r) \<Rightarrow> (Ok (), record_effect ResetStream (s\<lparr> peers := r \<rparr>))
            | (False, r) \<Rightarrow>
                (Ok (), (if hasNotifier then record_effect (NotifyConnected p) else id)
                          (s\<lparr> peers := r \<rparr>))))"

text \<open>
  The network's answers to one \<open>Connect\<close>: the parsed address info (a library), the host's
  connection, the handshake stream with its connection.
\<close>

record connect_net =
  cn_Unmarshal :: "bytes \<Rightarrow> go_error + peer_id \<times> string list"
  cn_Connect :: "go_error + unit"
  cn_NewStream :: "go_error + conn \<times> hs_stream"

definition connect_handshake ::
  "handshake_service \<Rightarrow> int \<Rightarrow> peer_id \<Rightarrow> string list \<Rightarrow> conn \<Rightarrow> hs_stream \<Rightarrow> (p2p_service, peer) act" where
  "connect_handshake h now peerID addrs c str = (\<lambda>s.
     case fst (Handshake h peerID str) of
       Panic \<Rightarrow> (Panic, s)
     | Fail err \<Rightarrow>
         (Fail err,
          let s1 = record_effect (ClosePeer peerID) s
          in s1\<lparr> FailedOutgoingHandshakeCount := Suc (FailedOutgoingHandshakeCount s1),
                 blockMap := block_for now peerID (5 * minute) err (blockMap s1) \<rparr>)
     | Ok p \<Rightarrow>
         (Ok p, record_effect (AddAddrs peerID addrs) (s\<lparr> peers := snd (addPeer c p (peers s)) \<rparr>)))"

definition p2p_Connect ::
  "handshake_service \<Rightarrow> connect_net \<Rightarrow> int \<Rightarrow> bytes \<Rightarrow> (p2p_service, peer) act" where
  "p2p_Connect h net now info = (\<lambda>s.
     case cn_Unmarshal net info of
       Inl err \<Rightarrow> (Fail err, s)
     | Inr (peerID, addrs) \<Rightarrow>
         if addrs = [] then (Fail (Err_Sentinel ErrNoAddresses), s)
         else (case isConnected peerID (peers s) of
           (Some p, True) \<Rightarrow> (Ok p, s)
         | (None, True) \<Rightarrow> (Panic, s)
         | (_, False) \<Rightarrow>
            (case cn_Connect net of
               Inl err \<Rightarrow> (Fail err, s)
             | Inr _ \<Rightarrow>
                (case cn_NewStream net of
                   Inl err \<Rightarrow> (Fail err, s)
                 | Inr (c, str) \<Rightarrow> connect_handshake h now peerID addrs c str s))))"

definition service_Disconnected :: "conn \<Rightarrow> (p2p_service, unit) act" where
  "service_Disconnected c = (\<lambda>s.
     case Disconnected c (peers s) of (r, reg) \<Rightarrow> (r, s\<lparr> peers := reg \<rparr>))"

definition GetPeerInfo ::
  "(peer_id \<Rightarrow> go_error + bytes) \<Rightarrow> p2p_service \<Rightarrow> peer \<Rightarrow> bytes outcome" where
  "GetPeerInfo marshalPeerInfo s p =
     (case getPeerID (EthAddress p) (peers s) of
        None \<Rightarrow> Fail (Err_Sentinel ErrPeerNotFound)
      | Some peerID \<Rightarrow> of_sum (marshalPeerInfo peerID))"

section \<open>Protocol negotiation\<close>

record semver =
  Major :: nat
  Minor :: nat

definition matchProtocolIDWithSemver ::
  "(string \<Rightarrow> go_error + semver) \<Rightarrow> string \<Rightarrow> string \<Rightarrow> string \<Rightarrow> bool outcome" where
  "matchProtocolIDWithSemver NewVersion incomingProto protoID supportedVersion =
     (case split_on CHR ''/'' incomingProto of
        [_, protocolName, protocolVersion] \<Rightarrow>
          if protocolName \<noteq> protoID then Ok False
          else (case NewVersion supportedVersion of
                  Inl err \<Rightarrow> Fail err
                | Inr supportedSemver \<Rightarrow>
                   (case NewVersion protocolVersion of
                      Inl _ \<Rightarrow> Fail (Err_Msg ''invalid protocol version'')
                    | Inr protoSemver \<Rightarrow>
                        Ok (Major supportedSemver = Major protoSemver \<and>
                            Minor supportedSemver \<ge> Minor protoSemver)))
      | _ \<Rightarrow> Fail (Err_Msg ''invalid protocol ID''))"

text \<open>The match function of a stream handler: an error is logged and does not match.\<close>

definition handler_matches ::
  "(string \<Rightarrow> go_error + semver) \<Rightarrow> string \<Rightarrow> string \<Rightarrow> string \<Rightarrow> bool" where
  "handler_matches NewVersion name version incoming =
     (case matchProtocolIDWithSemver NewVersion incoming name version of
        Ok matched \<Rightarrow> matched | _ \<Rightarrow> False)"

definition streamID :: "string \<Rightarrow> string \<Rightarrow> string" where
  "streamID name version = ''/'' @ name @ ''/'' @ version"

text \<open>The protocols of a node: what it opens streams with and registers handlers for.\<close>

record stream_desc =
  sd_Name :: string
  sd_Version :: string

definition handshake_ProtocolID :: string where
  "handshake_ProtocolID = streamID ''handshake'' ''2.0.0''"

definition preconfStream :: stream_desc where
  "preconfStream = \<lparr> sd_Name = ''preconfirmation'', sd_Version = ''2.0.0'' \<rparr>"

definition peerListStream :: stream_desc where
  "peerListStream = \<lparr> sd_Name = ''discovery'', sd_Version = ''2.0.0'' \<rparr>"

section \<open>Opening and serving streams\<close>

type_synonym header = "string \<rightharpoonup> bytes"

record stream_net =
  sn_Open :: "peer_id \<Rightarrow> string \<Rightarrow> go_error + unit"
  sn_WriteHeader :: "header \<Rightarrow> go_error + unit"
  sn_ReadHeader :: "go_error + header"

definition NewStream ::
  "stream_net \<Rightarrow> peer \<Rightarrow> header \<Rightarrow> string \<Rightarrow> string \<Rightarrow> (p2p_service, header \<times> header) act" where
  "NewStream net p headers name version = (\<lambda>s.
     case getPeerID (EthAddress p) (peers s) of
       None \<Rightarrow> (Fail (Err_Sentinel ErrPeerNotFound), s)
     | Some peerID \<Rightarrow>
        (case sn_Open net peerID (streamID name version) of
           Inl err \<Rightarrow> (Fail err, s)
         | Inr _ \<Rightarrow>
            (case sn_WriteHeader net headers of
               Inl err \<Rightarrow> (Fail err, record_effect ResetStream s)
             | Inr _ \<Rightarrow>
                (case sn_ReadHeader net of
                   Inl err \<Rightarrow> (Fail err, record_effect ResetStream s)
                 | Inr respHdrs \<Rightarrow> (Ok (headers, respHdrs), s)))))"

text \<open>
  The handler of an incoming stream. \<open>handler\<close> is the protocol's handler: its outcome for
  the peer and the headers, and what it does to the service (other peers may connect and
  disconnect meanwhile). The stream is tracked from the lookup of its peer to the end.
\<close>

record stream_handler =
  sh_Header :: "(peer \<Rightarrow> header \<Rightarrow> header) option"
  sh_Handler :: "peer \<Rightarrow> header \<Rightarrow> header \<Rightarrow> (p2p_service, unit) act"
  sh_WriteError :: "go_error \<Rightarrow> go_error + unit"

definition serve_tracked ::
  "stream_handler \<Rightarrow> stream_net \<Rightarrow> peer \<Rightarrow> (p2p_service, unit) act" where
  "serve_tracked sh net p = (\<lambda>s.
     case sn_ReadHeader net of
       Inl _ \<Rightarrow> (Ok (), record_effect ResetStream s)
     | Inr headers \<Rightarrow>
         let respHdrs = (case sh_Header sh of None \<Rightarrow> Map.empty | Some f \<Rightarrow> f p headers)
         in (case sn_WriteHeader net respHdrs of
              Inl _ \<Rightarrow> (Ok (), record_effect ResetStream s)
            | Inr _ \<Rightarrow>
               (case sh_Handler sh p headers respHdrs s of
                  (Panic, s1) \<Rightarrow> (Panic, s1)
                | (Ok _, s1) \<Rightarrow> (Ok (), record_effect CloseStream s1)
                | (Fail err, s1) \<Rightarrow>
                    (case sh_WriteError sh err of
                       Inl _ \<Rightarrow> (Ok (), record_effect ResetStream s1)
                     | Inr _ \<Rightarrow> (Ok (), record_effect CloseStream s1)))))"

definition serve_stream ::
  "stream_handler \<Rightarrow> stream_net \<Rightarrow> peer_id \<Rightarrow> stream_id \<Rightarrow> (p2p_service, unit) act" where
  "serve_stream sh net peerID str = (\<lambda>s.
     case getPeer peerID (peers s) of
       None \<Rightarrow> (Ok (), record_effect ResetStream s)
     | Some p \<Rightarrow>
        (case serve_tracked sh net p (s\<lparr> peers := addStream peerID str (peers s) \<rparr>) of
           (r, s1) \<Rightarrow> (r, s1\<lparr> peers := removeStream peerID str (peers s1) \<rparr>)))"


section \<open>The service as a transition system\<close>

text \<open>
  The steps under the registry's lock, in any order: an incoming handshake, an outgoing
  one, a closed connection, a tracked stream that opens or closes, a look at the block
  list. \<open>sv_crashed\<close> is a panic of one of them.
\<close>

record sv_state =
  sv_service :: p2p_service
  sv_crashed :: bool

datatype sv_label =
    SvIncoming conn
  | SvConnect bytes
  | SvDisconnected conn
  | SvOpen peer_id stream_id
  | SvClose peer_id stream_id
  | SvLook peer_id

definition sv_start :: "sv_state \<Rightarrow> bool" where
  "sv_start s \<longleftrightarrow> s = \<lparr> sv_service = new_p2p_service, sv_crashed = False \<rparr>"

definition after :: "'a outcome \<times> p2p_service \<Rightarrow> sv_state" where
  "after r = \<lparr> sv_service = snd r, sv_crashed = (fst r = Panic) \<rparr>"

inductive sv_step ::
  "handshake_service \<Rightarrow> bool \<Rightarrow> sv_state \<Rightarrow> sv_label \<Rightarrow> sv_state \<Rightarrow> bool" for h notif where
  incoming: "\<not> sv_crashed s \<Longrightarrow> fst (Handle h str (RemotePeer c)) \<noteq> Panic \<Longrightarrow>
     sv_step h notif s (SvIncoming c) (after (handleConnectReq h notif now c str (sv_service s)))"
| connect: "\<not> sv_crashed s \<Longrightarrow>
     (\<And>i addrs c str. cn_Unmarshal net info = Inr (i, addrs) \<Longrightarrow> cn_NewStream net = Inr (c, str) \<Longrightarrow>
        RemotePeer c = i \<and> fst (Handshake h i str) \<noteq> Panic) \<Longrightarrow>
     sv_step h notif s (SvConnect info) (after (p2p_Connect h net now info (sv_service s)))"
| disconnect: "\<not> sv_crashed s \<Longrightarrow>
     sv_step h notif s (SvDisconnected c) (after (service_Disconnected c (sv_service s)))"
| open_stream: "\<not> sv_crashed s \<Longrightarrow>
     sv_step h notif s (SvOpen i str)
       (s\<lparr> sv_service := (sv_service s)\<lparr> peers := addStream i str (peers (sv_service s)) \<rparr> \<rparr>)"
| close_stream: "\<not> sv_crashed s \<Longrightarrow>
     sv_step h notif s (SvClose i str)
       (s\<lparr> sv_service := (sv_service s)\<lparr> peers := removeStream i str (peers (sv_service s)) \<rparr> \<rparr>)"
| look: "\<not> sv_crashed s \<Longrightarrow>
     sv_step h notif s (SvLook i)
       (s\<lparr> sv_service := (sv_service s)\<lparr> blockMap := snd (isBlocked now i (blockMap (sv_service s))) \<rparr> \<rparr>)"

text \<open>
  \<open>addr_of\<close> is the address of a peer id's key: what \<open>getEthAddress\<close> answers, when it
  answers, and no two peer ids have one address.
\<close>

definition addresses_ok :: "handshake_service \<Rightarrow> (peer_id \<Rightarrow> address) \<Rightarrow> bool" where
  "addresses_ok h addr_of \<longleftrightarrow>
     inj addr_of \<and> (\<forall>i a. getEthAddress h i = Inr a \<longrightarrow> a = addr_of i)"

definition peers_ok :: "handshake_service \<Rightarrow> (peer_id \<Rightarrow> address) \<Rightarrow> peer_registry \<Rightarrow> bool" where
  "peers_ok h addr_of r \<longleftrightarrow>
     reg_inv addr_of r \<and> (\<forall>i p. overlays r i = Some p \<longrightarrow> (\<exists>req. authentic h i req p))"

definition sv_inv :: "handshake_service \<Rightarrow> (peer_id \<Rightarrow> address) \<Rightarrow> sv_state \<Rightarrow> bool" where
  "sv_inv h addr_of s \<longleftrightarrow> addresses_ok h addr_of \<longrightarrow>
     \<not> sv_crashed s \<and> peers_ok h addr_of (peers (sv_service s))"

lemma overlays_addPeer:
  "overlays (snd (addPeer c p r)) i =
     (if underlays r (EthAddress p) = None \<and> i = RemotePeer c then Some p else overlays r i)"
  by (simp add: addPeer_def Let_def)

lemma peers_ok_addPeer:
  assumes "peers_ok h addr_of r" "addresses_ok h addr_of" "authentic h (RemotePeer c) req p"
  shows "peers_ok h addr_of (snd (addPeer c p r))"
proof -
  from assms(2,3) have "EthAddress p = addr_of (RemotePeer c)" "inj addr_of"
    by (auto simp: addresses_ok_def authentic_def)
  with assms show ?thesis
    by (auto simp: peers_ok_def overlays_addPeer intro: reg_inv_addPeer)
qed

lemma peers_effect [simp]: "peers (record_effect e s) = peers s"
  by (simp add: record_effect_def)

text \<open>
  \<open>weaker h g\<close>: \<open>g\<close> is \<open>h\<close> with a registry that knows at least the same providers, so
  what \<open>h\<close> authenticates \<open>g\<close> does too.
\<close>

definition weaker :: "handshake_service \<Rightarrow> handshake_service \<Rightarrow> bool" where
  "weaker h g \<longleftrightarrow>
     getEthAddress g = getEthAddress h \<and> hs_signer_Verify g = hs_signer_Verify h \<and>
     (\<forall>a. CheckProviderRegistered h a \<longrightarrow> CheckProviderRegistered g a)"

lemma weaker_refl [simp]: "weaker h h"
  by (simp add: weaker_def)

lemma authentic_weaker: "authentic h i req p \<Longrightarrow> weaker h g \<Longrightarrow> authentic g i req p"
  by (auto simp: authentic_def weaker_def)

lemma handleConnectReq_peers_weaker:
  assumes ok: "peers_ok g addr_of (peers s)" "addresses_ok g addr_of"
    and np: "fst (Handle h str (RemotePeer c)) \<noteq> Panic" and w: "weaker h g"
  shows "fst (handleConnectReq h notif now c str s) \<noteq> Panic \<and>
         peers_ok g addr_of (peers (snd (handleConnectReq h notif now c str s)))"
proof (cases "fst (Handle h str (RemotePeer c))")
  case (Ok p)
  then obtain req where "authentic h (RemotePeer c) req p" by (rule Handle_authentic)
  with ok have "peers_ok g addr_of (snd (addPeer c p (peers s)))"
    by (intro peers_ok_addPeer authentic_weaker [OF _ w])
  with Ok show ?thesis
    by (cases "addPeer c p (peers s)") (auto simp: handleConnectReq_def split: bool.split)
next
  case (Fail e)
  with ok show ?thesis by (simp add: handleConnectReq_def Let_def)
qed (use np in simp)

lemma connect_handshake_peers_weaker:
  assumes ok: "peers_ok g addr_of (peers s)" "addresses_ok g addr_of"
    and np: "fst (Handshake h (RemotePeer c) str) \<noteq> Panic" and w: "weaker h g"
  shows "fst (connect_handshake h now (RemotePeer c) addrs c str s) \<noteq> Panic \<and>
         peers_ok g addr_of (peers (snd (connect_handshake h now (RemotePeer c) addrs c str s)))"
proof (cases "fst (Handshake h (RemotePeer c) str)")
  case (Ok p)
  then obtain req where "authentic h (RemotePeer c) req p" by (rule Handshake_authentic)
  from peers_ok_addPeer [OF ok authentic_weaker [OF this w]] Ok
  show ?thesis by (simp add: connect_handshake_def)
next
  case (Fail e)
  with ok show ?thesis by (simp add: connect_handshake_def Let_def)
qed (use np in simp)

lemma isConnected_None: "isConnected i r \<noteq> (None, True)"
  by (simp add: isConnected_def split: option.split)

lemma p2p_Connect_peers_weaker:
  assumes ok: "peers_ok g addr_of (peers s)" "addresses_ok g addr_of"
    and net: "\<And>i addrs c str. cn_Unmarshal net info = Inr (i, addrs) \<Longrightarrow>
        cn_NewStream net = Inr (c, str) \<Longrightarrow> RemotePeer c = i \<and> fst (Handshake h i str) \<noteq> Panic"
    and w: "weaker h g"
  shows "fst (p2p_Connect h net now info s) \<noteq> Panic \<and>
         peers_ok g addr_of (peers (snd (p2p_Connect h net now info s)))"
proof -
  have "fst (connect_handshake h now i addrs c str s) \<noteq> Panic \<and>
        peers_ok g addr_of (peers (snd (connect_handshake h now i addrs c str s)))"
    if "cn_Unmarshal net info = Inr (i, addrs)" "cn_NewStream net = Inr (c, str)" for i addrs c str
    using net [OF that] connect_handshake_peers_weaker [OF ok _ w] by metis
  with ok show ?thesis
    by (auto simp: p2p_Connect_def isConnected_None split: sum.splits prod.splits option.splits bool.splits)
qed

lemmas handleConnectReq_peers = handleConnectReq_peers_weaker [OF _ _ _ weaker_refl]
  and connect_handshake_peers = connect_handshake_peers_weaker [OF _ _ _ weaker_refl]
  and p2p_Connect_peers = p2p_Connect_peers_weaker [OF _ _ _ weaker_refl]

lemma service_Disconnected_peers:
  assumes "peers_ok h addr_of (peers s)" "addresses_ok h addr_of"
  shows "fst (service_Disconnected c s) \<noteq> Panic \<and>
         peers_ok h addr_of (peers (snd (service_Disconnected c s)))"
proof -
  from assms have inv: "reg_inv addr_of (peers s)" "inj addr_of"
    by (simp_all add: peers_ok_def addresses_ok_def)
  have "overlays (snd (Disconnected c (peers s))) i = Some p \<Longrightarrow> overlays (peers s) i = Some p"
    for i p
    using inv(1) by (cases rule: Disconnected_cases [where c = c]) (auto split: if_splits)
  moreover have "fst (Disconnected c (peers s)) \<noteq> Panic"
    using inv(1) by (cases rule: Disconnected_cases [where c = c]) auto
  ultimately show ?thesis
    using assms reg_inv_Disconnected [OF inv, of c]
    by (auto simp: service_Disconnected_def peers_ok_def split: prod.split)
qed

lemma peers_ok_streams:
  "peers_ok h addr_of r \<Longrightarrow> peers_ok h addr_of (addStream i str r)"
  "peers_ok h addr_of r \<Longrightarrow> peers_ok h addr_of (removeStream i str r)"
proof -
  have "overlays (addStream i str r) = overlays r" "overlays (removeStream i str r) = overlays r"
    by (simp_all add: addStream_def removeStream_def split: option.split)
  then show "peers_ok h addr_of r \<Longrightarrow> peers_ok h addr_of (addStream i str r)"
    and "peers_ok h addr_of r \<Longrightarrow> peers_ok h addr_of (removeStream i str r)"
    by (auto simp: peers_ok_def intro: reg_inv_addStream reg_inv_removeStream)
qed

lemma sv_inv_step:
  assumes "sv_step h notif s l s'" and "sv_inv h addr_of s"
  shows "sv_inv h addr_of s'"
  using assms
proof (induction rule: sv_step.induct)
  case (incoming s str c now)
  then show ?case
    using handleConnectReq_peers [of h addr_of "sv_service s" str c notif now]
    by (simp add: sv_inv_def after_def)
next
  case (connect s net info now)
  show ?case
    unfolding sv_inv_def after_def
    using connect(3) p2p_Connect_peers [of h addr_of "sv_service s" net info now, OF _ _ connect(2)]
    by (simp add: sv_inv_def)
next
  case (disconnect s c)
  then show ?case
    using service_Disconnected_peers [of h addr_of "sv_service s" c]
    by (simp add: sv_inv_def after_def)
qed (auto simp: sv_inv_def peers_ok_streams)

interpretation service: invariant_system sv_start "sv_step h notif" "sv_inv h addr_of"
  for h notif addr_of
proof unfold_locales
  show "sv_inv h addr_of s" if "sv_start s" for s
    using that by (simp add: sv_start_def sv_inv_def peers_ok_def new_p2p_service_def reg_inv_new)
       (simp add: newPeerRegistry_def)
  show "sv_inv h addr_of s'" if "sv_inv h addr_of s" "sv_step h notif s l s'" for s l s'
    using that(2,1) by (rule sv_inv_step)
qed

section \<open>Refinement: the registry is a map of authenticated members\<close>

text \<open>
  What the other components see of the service: a map from peer ids to peers. A peer joins
  when it is absent and authenticated, leaves when it disconnects, and is never replaced.
\<close>

inductive member_step ::
  "handshake_service \<Rightarrow> (peer_id \<rightharpoonup> peer) \<Rightarrow> sv_label \<Rightarrow> (peer_id \<rightharpoonup> peer) \<Rightarrow> bool" for h where
  join_in: "m (RemotePeer c) = None \<Longrightarrow> authentic h (RemotePeer c) req p \<Longrightarrow>
     member_step h m (SvIncoming c) (m(RemotePeer c \<mapsto> p))"
| join_out: "m i = None \<Longrightarrow> authentic h i req p \<Longrightarrow>
     member_step h m (SvConnect info) (m(i \<mapsto> p))"
| leave: "m (RemotePeer c) = Some p \<Longrightarrow>
     member_step h m (SvDisconnected c) (m(RemotePeer c := None))"

definition members :: "sv_state \<Rightarrow> peer_id \<rightharpoonup> peer" where
  "members s = overlays (peers (sv_service s))"

lemma addPeer_members:
  assumes "peers_ok h addr_of r" "addresses_ok h addr_of" "authentic h (RemotePeer c) req p"
  shows "overlays (snd (addPeer c p r)) = overlays r \<or>
         (overlays r (RemotePeer c) = None \<and>
          overlays (snd (addPeer c p r)) = (overlays r)(RemotePeer c \<mapsto> p))"
proof (cases "underlays r (EthAddress p)")
  case None
  from assms(2,3) have p: "EthAddress p = addr_of (RemotePeer c)"
    by (auto simp: addresses_ok_def authentic_def)
  from assms(1) have inv: "reg_inv addr_of r" by (simp add: peers_ok_def)
  have "overlays r (RemotePeer c) = None"
    using None p reg_invD(2) [OF inv, of "RemotePeer c"] by (cases "overlays r (RemotePeer c)") auto
  with None show ?thesis by (auto simp: overlays_addPeer)
next
  case (Some i)
  then show ?thesis by (auto simp: overlays_addPeer)
qed

lemma handleConnectReq_members:
  assumes ok: "peers_ok h addr_of (peers s)" "addresses_ok h addr_of"
  shows "overlays (peers (snd (handleConnectReq h notif now c str s))) = overlays (peers s) \<or>
         member_step h (overlays (peers s)) (SvIncoming c)
           (overlays (peers (snd (handleConnectReq h notif now c str s))))"
proof (cases "fst (Handle h str (RemotePeer c))")
  case (Ok p)
  then obtain req where a: "authentic h (RemotePeer c) req p" by (rule Handle_authentic)
  have "overlays (peers (snd (handleConnectReq h notif now c str s))) =
        overlays (snd (addPeer c p (peers s)))"
    using Ok by (cases "addPeer c p (peers s)") (auto simp: handleConnectReq_def split: bool.split)
  with addPeer_members [OF ok a] show ?thesis using join_in [OF _ a] by auto
qed (simp_all add: handleConnectReq_def Let_def)

lemma connect_handshake_members:
  assumes ok: "peers_ok h addr_of (peers s)" "addresses_ok h addr_of"
  shows "overlays (peers (snd (connect_handshake h now (RemotePeer c) addrs c str s))) =
           overlays (peers s) \<or>
         member_step h (overlays (peers s)) (SvConnect info)
           (overlays (peers (snd (connect_handshake h now (RemotePeer c) addrs c str s))))"
proof (cases "fst (Handshake h (RemotePeer c) str)")
  case (Ok p)
  then obtain req where a: "authentic h (RemotePeer c) req p" by (rule Handshake_authentic)
  have "overlays (peers (snd (connect_handshake h now (RemotePeer c) addrs c str s))) =
        overlays (snd (addPeer c p (peers s)))"
    using Ok by (simp add: connect_handshake_def)
  with addPeer_members [OF ok a] show ?thesis using join_out [OF _ a] by auto
qed (simp_all add: connect_handshake_def Let_def)

lemma p2p_Connect_members:
  assumes ok: "peers_ok h addr_of (peers s)" "addresses_ok h addr_of"
    and net: "\<And>i addrs c str. cn_Unmarshal net info = Inr (i, addrs) \<Longrightarrow>
        cn_NewStream net = Inr (c, str) \<Longrightarrow> RemotePeer c = i"
  shows "overlays (peers (snd (p2p_Connect h net now info s))) = overlays (peers s) \<or>
         member_step h (overlays (peers s)) (SvConnect info)
           (overlays (peers (snd (p2p_Connect h net now info s))))"
proof -
  have "overlays (peers (snd (connect_handshake h now i addrs c str s))) = overlays (peers s) \<or>
      member_step h (overlays (peers s)) (SvConnect info)
        (overlays (peers (snd (connect_handshake h now i addrs c str s))))"
    if "cn_Unmarshal net info = Inr (i, addrs)" "cn_NewStream net = Inr (c, str)" for i addrs c str
    using net [OF that] connect_handshake_members [OF ok] by metis
  then show ?thesis
    by (auto simp: p2p_Connect_def split: sum.splits prod.splits option.splits bool.splits)
qed

lemma service_Disconnected_members:
  assumes ok: "peers_ok h addr_of (peers s)"
  shows "overlays (peers (snd (service_Disconnected c s))) = overlays (peers s) \<or>
         member_step h (overlays (peers s)) (SvDisconnected c)
           (overlays (peers (snd (service_Disconnected c s))))"
proof -
  from ok have inv: "reg_inv addr_of (peers s)" by (simp add: peers_ok_def)
  then show ?thesis
    by (cases rule: Disconnected_cases [where c = c])
       (auto simp: service_Disconnected_def intro: leave)
qed

lemma stream_members [simp]:
  "overlays (addStream i str r) = overlays r" "overlays (removeStream i str r) = overlays r"
  by (simp_all add: addStream_def removeStream_def split: option.split)

definition sv_ok :: "handshake_service \<Rightarrow> (peer_id \<Rightarrow> address) \<Rightarrow> sv_state \<Rightarrow> bool" where
  "sv_ok h addr_of s \<longleftrightarrow> addresses_ok h addr_of \<and> sv_inv h addr_of s"

lemma sv_members_step:
  assumes "sv_step h notif s l s'" and "sv_ok h addr_of s"
  shows "member_step h (members s) l (members s') \<or> members s' = members s"
  using assms
proof (induction rule: sv_step.induct)
  case (incoming s str c now)
  then show ?case
    using handleConnectReq_members [of h addr_of "sv_service s" notif now c str]
    by (auto simp: sv_ok_def sv_inv_def members_def after_def)
next
  case (connect s net info now)
  have "overlays (peers (snd (p2p_Connect h net now info (sv_service s)))) = overlays (peers (sv_service s)) \<or>
      member_step h (overlays (peers (sv_service s))) (SvConnect info)
        (overlays (peers (snd (p2p_Connect h net now info (sv_service s)))))"
    using connect(3)
    by (intro p2p_Connect_members [of h addr_of]) (auto simp: sv_ok_def sv_inv_def dest: connect(2))
  then show ?case by (auto simp: members_def after_def)
next
  case (disconnect s c)
  then show ?case
    using service_Disconnected_members [of h addr_of "sv_service s" c]
    by (auto simp: sv_ok_def sv_inv_def members_def after_def)
qed (simp_all add: members_def)

interpretation membership: simulation_system
  "\<lambda>s. addresses_ok h addr_of \<and> sv_start s" "sv_step h notif"
  "\<lambda>m. m = Map.empty" "member_step h" members "sv_ok h addr_of"
  for h notif addr_of
proof unfold_locales
  show "sv_ok h addr_of s" if "addresses_ok h addr_of \<and> sv_start s" for s
    using that service.inv_start by (simp add: sv_ok_def)
  show "sv_ok h addr_of s'" if "sv_ok h addr_of s" "sv_step h notif s l s'" for s l s'
    using that service.inv_next by (auto simp: sv_ok_def)
  show "members s = Map.empty" if "addresses_ok h addr_of \<and> sv_start s" for s
    using that by (simp add: members_def sv_start_def new_p2p_service_def newPeerRegistry_def)
  show "member_step h (members s) l (members s') \<or> members s' = members s"
    if "sv_ok h addr_of s" "sv_step h notif s l s'" for s l s'
    using that(2,1) by (rule sv_members_step)
qed

section \<open>Blocking, negotiation, streams\<close>

lemma handleConnectReq_blocks:
  assumes "fst (Handle h str (RemotePeer c)) = Fail err"
  shows "blockMap (snd (handleConnectReq h notif now c str s)) =
           block_for now (RemotePeer c) (2 * minute) err (blockMap s)"
    and "peers (snd (handleConnectReq h notif now c str s)) = peers s"
  using assms by (simp_all add: handleConnectReq_def record_effect_def Let_def)

lemma block_for_forever:
  assumes "errors_is err ErrSignatureVerificationFailed \<or> errors_is err ErrObservedAddressMismatch"
  shows "fst (isBlocked later i (block_for now i d err m))"
  using assms by (auto simp: block_for_def isBlocked_blockPeer)

lemma block_for_stake:
  assumes "errors_is err ErrInsufficientStake"
    and "\<not> errors_is err ErrSignatureVerificationFailed" "\<not> errors_is err ErrObservedAddressMismatch"
    and "0 < d"
  shows "fst (isBlocked later i (block_for now i d err m)) \<longleftrightarrow> later \<le> now + d"
  using assms by (simp add: block_for_def isBlocked_blockPeer)

lemma handler_matches_streamID:
  assumes "CHR ''/'' \<notin> set n" "CHR ''/'' \<notin> set v" "NewVersion v = Inr sv" "NewVersion w = Inr sw"
  shows "handler_matches NewVersion name w (streamID n v) \<longleftrightarrow>
           n = name \<and> Major sw = Major sv \<and> Minor sv \<le> Minor sw"
proof -
  have "split_on CHR ''/'' (streamID n v) = [[], n, v]"
    using split_on_append [OF assms(1), of v] split_on_whole [OF assms(2)]
    by (simp add: streamID_def)
  with assms(3,4) show ?thesis
    by (auto simp: handler_matches_def matchProtocolIDWithSemver_def)
qed

text \<open>
  Two nodes of this version agree on their protocols: each handler serves exactly the streams
  of its own protocol, and none takes a handshake.
\<close>

lemma own_streams_served:
  assumes "NewVersion ''2.0.0'' = Inr v"
    and "d \<in> {preconfStream, peerListStream}" "e \<in> {preconfStream, peerListStream}"
  shows "handler_matches NewVersion (sd_Name d) (sd_Version d) (streamID (sd_Name e) (sd_Version e)) \<longleftrightarrow>
      d = e"
    and "\<not> handler_matches NewVersion (sd_Name d) (sd_Version d) handshake_ProtocolID"
  using assms(2,3)
  by (auto simp: handler_matches_streamID [where NewVersion = NewVersion and v = "''2.0.0''"
        and w = "''2.0.0''" and sv = v and sw = v] assms(1) preconfStream_def
      peerListStream_def handshake_ProtocolID_def)

lemma removeStream_gone: "str \<notin> stream_set (removeStream i str r) i"
  by (auto simp: stream_set_def removeStream_def split: option.splits)

lemma serve_stream_untracked:
  "getPeer i (peers s) = Some p \<Longrightarrow> str \<notin> stream_set (peers (snd (serve_stream sh net i str s))) i"
  by (auto simp: serve_stream_def removeStream_gone split: prod.split)

end
