(* ===== verification/Bootstrap.thy ===== *)
theory Bootstrap
  imports P2p_Service
begin

text \<open>
  \<open>pkg/p2p/libp2p/bootstrapper.go\<close>: one round of the loop that connects to the bootnodes
  every minute. Multiaddresses and the DNS resolver are libraries: a record of functions. The
  lemmas show that a round is a run of connects of the service, never takes a peer away, and
  connects every bootnode that answers.
\<close>

section \<open>The peer id in a multiaddress\<close>

record 'm ma_lib =
  NewMultiaddr :: "string \<Rightarrow> go_error + 'm"
  FirstCode :: "'m \<Rightarrow> nat"
  Resolve :: "'m \<Rightarrow> go_error + 'm list"
  Protocols :: "'m \<Rightarrow> nat list"
  ValueForProtocol :: "'m \<Rightarrow> nat \<Rightarrow> go_error + string"
  peer_Decode :: "string \<Rightarrow> go_error + peer_id"
  AddrInfoFromString :: "string \<Rightarrow> go_error + peer_id \<times> 'm list"
  MarshalJSON :: "peer_id \<times> 'm list \<Rightarrow> go_error + bytes"

definition P_P2P :: nat where "P_P2P = 421"
definition P_DNSADDR :: nat where "P_DNSADDR = 56"

fun find_peer_id :: "'m ma_lib \<Rightarrow> 'm \<Rightarrow> nat list \<Rightarrow> peer_id outcome" where
  "find_peer_id L maddr [] = Fail (Err_Msg ''no peer ID found in multiaddress'')"
| "find_peer_id L maddr (code # codes) =
     (if code = P_P2P
      then obind (of_sum (ValueForProtocol L maddr code)) (\<lambda>peerIDStr.
             of_sum (peer_Decode L peerIDStr))
      else find_peer_id L maddr codes)"

definition getPeerIDFromMultiaddr :: "'m ma_lib \<Rightarrow> 'm \<Rightarrow> peer_id outcome" where
  "getPeerIDFromMultiaddr L maddr = find_peer_id L maddr (Protocols L maddr)"

section \<open>One address of a round\<close>

definition bootstrap_info :: "'m ma_lib \<Rightarrow> string \<Rightarrow> (peer_id \<times> 'm list) outcome" where
  "bootstrap_info L addr =
     obind (of_sum (NewMultiaddr L addr)) (\<lambda>mAddr.
       if FirstCode L mAddr = P_DNSADDR
       then obind (of_sum (Resolve L mAddr)) (\<lambda>resolvedAddrs.
              case resolvedAddrs of
                [] \<Rightarrow> Fail (Err_Msg ''no addresses found'')
              | ra # _ \<Rightarrow> obind (getPeerIDFromMultiaddr L ra) (\<lambda>pID. Ok (pID, resolvedAddrs)))
       else of_sum (AddrInfoFromString L addr))"

text \<open>Every error is logged and the loop goes on with the next address; a panic ends it.\<close>

definition bootstrap_addr ::
  "'m ma_lib \<Rightarrow> handshake_service \<Rightarrow> (string \<Rightarrow> connect_net) \<Rightarrow> (string \<Rightarrow> int) \<Rightarrow> string \<Rightarrow>
     (p2p_service, unit) act" where
  "bootstrap_addr L h net now addr = (\<lambda>s.
     case bootstrap_info L addr of
       Panic \<Rightarrow> (Panic, s)
     | Fail _ \<Rightarrow> (Ok (), s)
     | Ok addrInfo \<Rightarrow>
         if snd (isConnected (fst addrInfo) (peers s)) then (Ok (), s)
         else (case MarshalJSON L addrInfo of
                 Inl _ \<Rightarrow> (Ok (), s)
               | Inr addrInfoBytes \<Rightarrow>
                  (case p2p_Connect h (net addr) (now addr) addrInfoBytes s of
                     (Panic, s') \<Rightarrow> (Panic, s')
                   | (_, s') \<Rightarrow> (Ok (), s'))))"

fun bootstrap_round ::
  "'m ma_lib \<Rightarrow> handshake_service \<Rightarrow> (string \<Rightarrow> connect_net) \<Rightarrow> (string \<Rightarrow> int) \<Rightarrow> string list \<Rightarrow>
     (p2p_service, unit) act" where
  "bootstrap_round L h net now [] = aret ()"
| "bootstrap_round L h net now (addr # addrs) =
     abind (bootstrap_addr L h net now addr) (\<lambda>_. bootstrap_round L h net now addrs)"

section \<open>A round is a run of the service\<close>

text \<open>The network gives the stream of the peer that was dialled, and no handshake panics.\<close>

definition dials_ok :: "handshake_service \<Rightarrow> connect_net \<Rightarrow> bool" where
  "dials_ok h net \<longleftrightarrow>
     (\<forall>info i addrs c str. cn_Unmarshal net info = Inr (i, addrs) \<longrightarrow> cn_NewStream net = Inr (c, str) \<longrightarrow>
        RemotePeer c = i \<and> fst (Handshake h i str) \<noteq> Panic)"

lemma bootstrap_addr_cases:
  obtains (quiet) "bootstrap_addr L h net now addr s = (Ok (), s)"
  | (panic) "bootstrap_info L addr = Panic" "bootstrap_addr L h net now addr s = (Panic, s)"
  | (connect) i as info where "bootstrap_info L addr = Ok (i, as)" "MarshalJSON L (i, as) = Inr info"
      "\<not> snd (isConnected i (peers s))"
      "bootstrap_addr L h net now addr s =
         ((case fst (p2p_Connect h (net addr) (now addr) info s) of Panic \<Rightarrow> Panic | _ \<Rightarrow> Ok ()),
          snd (p2p_Connect h (net addr) (now addr) info s))"
proof (cases "bootstrap_info L addr")
  case (Ok ai)
  obtain i as where ai: "ai = (i, as)" by (cases ai)
  show thesis
  proof (cases "snd (isConnected i (peers s))")
    case True
    with Ok ai show thesis by (intro quiet) (simp add: bootstrap_addr_def)
  next
    case False
    show thesis
    proof (cases "MarshalJSON L (i, as)")
      case (Inl e)
      with Ok ai False show thesis by (intro quiet) (simp add: bootstrap_addr_def)
    next
      case (Inr info)
      with Ok ai False show thesis
        by (intro connect) (auto simp: bootstrap_addr_def split: prod.split outcome.split)
    qed
  qed
qed (auto simp: bootstrap_addr_def intro: quiet panic)

lemma find_peer_id_not_Panic: "find_peer_id L m codes \<noteq> Panic"
  by (induction codes) (simp_all add: obind_eq_Panic)

lemma bootstrap_info_not_Panic: "bootstrap_info L addr \<noteq> Panic"
  by (auto simp: bootstrap_info_def obind_eq_Panic getPeerIDFromMultiaddr_def
      find_peer_id_not_Panic split: if_splits list.splits)

lemma bootstrap_addr_ok:
  assumes ok: "peers_ok h addr_of (peers s)" "addresses_ok h addr_of" and net: "dials_ok h (net addr)"
  obtains s' where "bootstrap_addr L h net now addr s = (Ok (), s')" and "peers_ok h addr_of (peers s')"
proof (cases rule: bootstrap_addr_cases [of L h net now addr s])
  case quiet
  with ok show thesis by (intro that)
next
  case panic
  then show thesis by (simp add: bootstrap_info_not_Panic)
next
  case (connect i as info)
  have "fst (p2p_Connect h (net addr) (now addr) info s) \<noteq> Panic \<and>
        peers_ok h addr_of (peers (snd (p2p_Connect h (net addr) (now addr) info s)))"
    using net by (intro p2p_Connect_peers [OF ok]) (auto simp: dials_ok_def)
  with connect(4) show thesis
    by (cases "fst (p2p_Connect h (net addr) (now addr) info s)") (auto intro: that)
qed

text \<open>Each address is one connect of the transition system, or nothing happens.\<close>

lemma bootstrap_addr_step:
  assumes "bootstrap_addr L h net now addr s = (r, s')" and "dials_ok h (net addr)"
  shows "s' = s \<or> (\<exists>info. sv_step h notif \<lparr> sv_service = s, sv_crashed = False \<rparr> (SvConnect info)
                     \<lparr> sv_service = s', sv_crashed = (r = Panic) \<rparr>)"
proof (cases rule: bootstrap_addr_cases [of L h net now addr s])
  case (connect i as info)
  let ?c = "p2p_Connect h (net addr) (now addr) info s"
  let ?s = "\<lparr> sv_service = s, sv_crashed = False \<rparr>"
  have "sv_step h notif ?s (SvConnect info) (after (p2p_Connect h (net addr) (now addr) info (sv_service ?s)))"
    by (rule sv_step.connect) (use assms(2) in \<open>auto simp: dials_ok_def\<close>)
  moreover have "snd ?c = s'" "(fst ?c = Panic) = (r = Panic)"
    using connect(4) assms(1) by (auto split: outcome.splits)
  ultimately show ?thesis by (auto simp: after_def)
qed (use assms(1) in auto)

section \<open>What a round achieves\<close>

definition connected :: "peer_id \<Rightarrow> p2p_service \<Rightarrow> bool" where
  "connected i s \<longleftrightarrow> snd (isConnected i (peers s))"

lemma isConnected_iff:
  "snd (isConnected i r) \<longleftrightarrow> overlays r i \<noteq> None \<and> connections r i \<noteq> None"
  by (auto simp: isConnected_def split: option.split)

lemma connected_addPeer:
  "snd (isConnected i r) \<Longrightarrow> snd (isConnected i (snd (addPeer c p r)))"
  by (auto simp: isConnected_iff overlays_addPeer) (auto simp: addPeer_def Let_def)

lemma connect_handshake_keeps:
  "connected i s \<Longrightarrow> connected i (snd (connect_handshake h now j addrs c str s))"
  by (auto simp: connected_def connect_handshake_def connected_addPeer Let_def split: outcome.split)

lemma p2p_Connect_keeps: "connected i s \<Longrightarrow> connected i (snd (p2p_Connect h net now info s))"
  by (auto simp: p2p_Connect_def connect_handshake_keeps split: sum.split prod.split option.split bool.split)

lemma bootstrap_addr_keeps:
  "connected i s \<Longrightarrow> connected i (snd (bootstrap_addr L h net now addr s))"
  by (cases rule: bootstrap_addr_cases [of L h net now addr s])
     (simp_all add: p2p_Connect_keeps)

text \<open>A bootnode that answers: its address resolves and its handshake succeeds.\<close>

definition answers_dial ::
  "'m ma_lib \<Rightarrow> handshake_service \<Rightarrow> connect_net \<Rightarrow> string \<Rightarrow> peer_id \<Rightarrow> bool" where
  "answers_dial L h net addr i \<longleftrightarrow>
     (\<exists>as info addrs c str p. bootstrap_info L addr = Ok (i, as) \<and> MarshalJSON L (i, as) = Inr info \<and>
        cn_Unmarshal net info = Inr (i, addrs) \<and> addrs \<noteq> [] \<and> cn_Connect net = Inr () \<and>
        cn_NewStream net = Inr (c, str) \<and> fst (Handshake h i str) = Ok p)"

lemma addPeer_connects:
  assumes ok: "peers_ok h addr_of r" "addresses_ok h addr_of" and a: "authentic h (RemotePeer c) req p"
  shows "snd (isConnected (RemotePeer c) (snd (addPeer c p r)))"
proof -
  from ok a have p: "EthAddress p = addr_of (RemotePeer c)" and inv: "reg_inv addr_of r"
    and inj: "inj addr_of"
    by (auto simp: addresses_ok_def authentic_def peers_ok_def)
  have "overlays r (RemotePeer c) \<noteq> None" if "underlays r (EthAddress p) = Some i" for i
    using reg_invD(3,4) [OF inv that] p injD [OF inj, of "RemotePeer c" i] by auto
  then have "overlays (snd (addPeer c p r)) (RemotePeer c) \<noteq> None"
    by (cases "underlays r (EthAddress p)") (auto simp: overlays_addPeer)
  then show ?thesis by (simp add: isConnected_iff) (simp add: addPeer_def Let_def)
qed

lemma bootstrap_addr_connects:
  assumes ok: "peers_ok h addr_of (peers s)" "addresses_ok h addr_of"
    and net: "dials_ok h (net addr)" and ans: "answers_dial L h (net addr) addr i"
  shows "connected i (snd (bootstrap_addr L h net now addr s))"
proof (cases "connected i s")
  case True
  then show ?thesis by (rule bootstrap_addr_keeps)
next
  case False
  from ans obtain as info addrs c str p where run:
    "bootstrap_info L addr = Ok (i, as)" "MarshalJSON L (i, as) = Inr info"
    "cn_Unmarshal (net addr) info = Inr (i, addrs)" "addrs \<noteq> []" "cn_Connect (net addr) = Inr ()"
    "cn_NewStream (net addr) = Inr (c, str)" "fst (Handshake h i str) = Ok p"
    by (auto simp: answers_dial_def)
  with net have c: "RemotePeer c = i" by (auto simp: dials_ok_def)
  from run(7) obtain req where a: "authentic h (RemotePeer c) req p"
    unfolding c by (rule Handshake_authentic)
  from False obtain q where nc: "isConnected i (peers s) = (q, False)"
    by (cases "isConnected i (peers s)") (simp add: connected_def)
  have conn: "p2p_Connect h (net addr) (now addr) info s =
      (Ok p, record_effect (AddAddrs i addrs) (s\<lparr> peers := snd (addPeer c p (peers s)) \<rparr>))"
    using run nc by (cases q) (simp_all add: p2p_Connect_def connect_handshake_def)
  have "bootstrap_addr L h net now addr s =
      (Ok (), record_effect (AddAddrs i addrs) (s\<lparr> peers := snd (addPeer c p (peers s)) \<rparr>))"
    using run False conn by (simp add: bootstrap_addr_def connected_def)
  then show ?thesis using addPeer_connects [OF ok a] c by (simp add: connected_def)
qed

lemma bootstrap_round_keeps:
  "connected i s \<Longrightarrow> connected i (snd (bootstrap_round L h net now addrs s))"
proof (induction addrs arbitrary: s)
  case (Cons addr addrs)
  then show ?case
    using bootstrap_addr_keeps [OF Cons.prems, of L h net now addr]
    by (cases "bootstrap_addr L h net now addr s"; cases "fst (bootstrap_addr L h net now addr s)")
       (simp_all add: abind_def)
qed simp

lemma bootstrap_round_all:
  assumes "peers_ok h addr_of (peers s)" "addresses_ok h addr_of"
    and "\<And>addr. addr \<in> set addrs \<Longrightarrow> dials_ok h (net addr)"
  shows "\<exists>s'. bootstrap_round L h net now addrs s = (Ok (), s') \<and> peers_ok h addr_of (peers s') \<and>
    (\<forall>addr \<in> set addrs. \<forall>i. answers_dial L h (net addr) addr i \<longrightarrow> connected i s')"
  using assms(1,3)
proof (induction addrs arbitrary: s)
  case (Cons addr addrs)
  obtain s1 where s1: "bootstrap_addr L h net now addr s = (Ok (), s1)" "peers_ok h addr_of (peers s1)"
    by (rule bootstrap_addr_ok [where net = net, OF Cons.prems(1) assms(2)])
       (auto intro: Cons.prems(2))
  have "\<And>a. a \<in> set addrs \<Longrightarrow> dials_ok h (net a)" using Cons.prems(2) by simp
  from Cons.IH [OF s1(2) this] obtain s' where
    s': "bootstrap_round L h net now addrs s1 = (Ok (), s')" "peers_ok h addr_of (peers s')"
    "\<forall>a \<in> set addrs. \<forall>i. answers_dial L h (net a) a i \<longrightarrow> connected i s'" by blast
  have "connected i s'" if "answers_dial L h (net addr) addr i" for i
  proof -
    have "connected i (snd (bootstrap_addr L h net now addr s))"
      by (rule bootstrap_addr_connects [where net = net, OF Cons.prems(1) assms(2) _ that])
         (simp add: Cons.prems(2))
    then show ?thesis using bootstrap_round_keeps [of i s1 L h net now addrs] s1(1) s'(1) by simp
  qed
  with s1(1) s' show ?case by (simp add: abind_Ok)
qed simp

end
