(* ===== verification/Two_Nodes.thy ===== *)
theory Two_Nodes
  imports Bootstrap
begin

text \<open>
  Two services of \<open>pkg/p2p/libp2p/libp2p.go\<close> together: what \<open>Connect\<close> on one node and
  \<open>handleConnectReq\<close> on the other leave in both registries when the nodes are honest.
\<close>

section \<open>A registration\<close>

definition knows :: "peer_id \<Rightarrow> peer \<Rightarrow> p2p_service \<Rightarrow> bool" where
  "knows i p s \<longleftrightarrow> getPeer i (peers s) = Some p \<and> getPeerID (EthAddress p) (peers s) = Some i \<and>
     connected i s"

lemma knows_effect [simp]: "knows i p (record_effect e s) = knows i p s"
  by (simp add: knows_def connected_def)

lemma addPeer_knows:
  assumes ok: "peers_ok h addr_of (peers s)" "addresses_ok h addr_of"
    and a: "authentic h (RemotePeer c) req p" and new: "getPeer (RemotePeer c) (peers s) = None"
  obtains r where "addPeer c p (peers s) = (False, r)" and "knows (RemotePeer c) p (s\<lparr> peers := r \<rparr>)"
proof -
  from ok a have p: "EthAddress p = addr_of (RemotePeer c)" and inv: "reg_inv addr_of (peers s)"
    and inj: "inj addr_of"
    by (auto simp: addresses_ok_def authentic_def peers_ok_def)
  have "underlays (peers s) (EthAddress p) = None"
  proof (cases "underlays (peers s) (EthAddress p)")
    case (Some i)
    with reg_invD(3,4) [OF inv Some] p injD [OF inj, of "RemotePeer c" i] new show ?thesis
      by (simp add: getPeer_def)
  qed
  then show thesis
    by (intro that [where r = "snd (addPeer c p (peers s))"])
       (simp_all add: knows_def connected_def isConnected_iff getPeer_def getPeerID_def addPeer_def Let_def)
qed

section \<open>Both ends\<close>

lemma Connect_knows:
  assumes ok: "peers_ok h addr_of (peers s)" "addresses_ok h addr_of"
    and new: "getPeer i (peers s) = None"
    and net: "cn_Unmarshal net info = Inr (i, addrs)" "addrs \<noteq> []" "cn_Connect net = Inr ()"
      "cn_NewStream net = Inr (c, str)" "RemotePeer c = i"
    and hs: "fst (Handshake h i str) = Ok p"
  shows "fst (p2p_Connect h net now info s) = Ok p \<and> knows i p (snd (p2p_Connect h net now info s))"
proof -
  from hs obtain req where a: "authentic h (RemotePeer c) req p"
    unfolding net(5) by (rule Handshake_authentic)
  have "isConnected i (peers s) = (None, False)" using new by (simp add: isConnected_def getPeer_def)
  moreover obtain r where "addPeer c p (peers s) = (False, r)" "knows i p (s\<lparr> peers := r \<rparr>)"
    using addPeer_knows [OF ok a] new net(5) by auto
  ultimately show ?thesis using net hs by (simp add: p2p_Connect_def connect_handshake_def)
qed

lemma handleConnectReq_knows:
  assumes ok: "peers_ok h addr_of (peers s)" "addresses_ok h addr_of"
    and new: "getPeer (RemotePeer c) (peers s) = None"
    and hs: "fst (Handle h str (RemotePeer c)) = Ok p"
  shows "fst (handleConnectReq h notif now c str s) = Ok () \<and>
    knows (RemotePeer c) p (snd (handleConnectReq h notif now c str s)) \<and>
    (notif \<longrightarrow> NotifyConnected p \<in> set (sv_effects (snd (handleConnectReq h notif now c str s))))"
proof -
  from hs obtain req where a: "authentic h (RemotePeer c) req p" by (rule Handle_authentic)
  obtain r where "addPeer c p (peers s) = (False, r)" "knows (RemotePeer c) p (s\<lparr> peers := r \<rparr>)"
    using addPeer_knows [OF ok a new] .
  with hs show ?thesis
    by (cases notif)
       (simp_all add: handleConnectReq_def Let_def, simp add: record_effect_def)
qed

text \<open>The network of a dial that reaches the peer \<open>j\<close> over the connection \<open>c\<close>.\<close>

definition dial_net :: "peer_id \<Rightarrow> string list \<Rightarrow> conn \<Rightarrow> hs_stream \<Rightarrow> connect_net" where
  "dial_net j addrs c str =
     \<lparr> cn_Unmarshal = (\<lambda>_. Inr (j, addrs)), cn_Connect = Inr (), cn_NewStream = Inr (c, str) \<rparr>"

lemma addresses_ok_honest:
  assumes "honest C h addr_of i" "ecdsa_ok C" "inj addr_of"
  shows "addresses_ok h addr_of"
  using assms honestD(3) [OF assms(1,2)] by (simp add: addresses_ok_def)

lemma honest_services_connect:
  assumes g: "honest C g addr_of i" and h: "honest C h addr_of j" and ok: "ecdsa_ok C" "inj addr_of"
    and "hs_peerType g = PeerTypeProvider \<Longrightarrow> CheckProviderRegistered h (addr_of i)"
    and "hs_peerType h = PeerTypeProvider \<Longrightarrow> CheckProviderRegistered g (addr_of j)"
    and W: "hs_wire_ok W" "marshals (hw_req W) (handshakeReq g)" "marshals (hw_req W) (handshakeReq h)"
      "marshals (hw_resp W) (resp_to (handshakeReq g) (addr_of i))"
      "marshals (hw_resp W) (resp_to (handshakeReq h) (addr_of j))"
    and s: "peers_ok g addr_of (peers s)" "getPeer j (peers s) = None"
    and t: "peers_ok h addr_of (peers t)" "getPeer i (peers t) = None"
    and c: "addrs \<noteq> []" "RemotePeer c = j" "RemotePeer d = i"
  shows "\<exists>out inn s' t'.
    (\<forall>n \<ge> 3. exchange (Handshake g j) (\<lambda>str. Handle h str i) W n = (out, inn)) \<and>
    p2p_Connect g (dial_net j addrs c (carry W inn)) now info s =
       (Ok (peer_of (handshakeReq h) (addr_of j)), s') \<and>
    handleConnectReq h True now' d (carry W out) t = (Ok (), t') \<and>
    knows j (peer_of (handshakeReq h) (addr_of j)) s' \<and>
    knows i (peer_of (handshakeReq g) (addr_of i)) t' \<and>
    NotifyConnected (peer_of (handshakeReq g) (addr_of i)) \<in> set (sv_effects t')"
proof -
  let ?pg = "peer_of (handshakeReq g) (addr_of i)" and ?ph = "peer_of (handshakeReq h) (addr_of j)"
  let ?out = "initiator_frames W g h (addr_of j)" and ?inn = "responder_frames W g h (addr_of i)"
  note hs = honest_handshake [OF g h ok(1) assms(5,6) W]
  note ag = addresses_ok_honest [OF g ok] and ah = addresses_ok_honest [OF h ok]
  let ?C = "p2p_Connect g (dial_net j addrs c (carry W ?inn)) now info s"
  let ?H = "handleConnectReq h True now' d (carry W ?out) t"
  have "fst ?C = Ok ?ph \<and> knows j ?ph (snd ?C)"
    by (rule Connect_knows [OF s(1) ag s(2), where addrs = addrs and c = c and str = "carry W ?inn"])
       (use c hs(2) in \<open>simp_all add: dial_net_def\<close>)
  moreover have "fst ?H = Ok () \<and> knows i ?pg (snd ?H) \<and> NotifyConnected ?pg \<in> set (sv_effects (snd ?H))"
    using handleConnectReq_knows [OF t(1) ah, of d "carry W ?out" ?pg True now'] t(2) c hs(3) by simp
  ultimately show ?thesis
    using hs(1) by (intro exI [of _ ?out] exI [of _ ?inn] exI [of _ "snd ?C"] exI [of _ "snd ?H"])
      (simp add: prod_eq_iff)
qed

end
