(* ===== verification/Topo.thy ===== *)
theory Topo
  imports P2p_Types
begin

text \<open>
  \<open>pkg/topology/topology.go\<close>: the providers and bidders known to the node, and the
  broadcasts it makes when a peer connects. The lemmas show who learns of whom: whatever
  the order of arrival, every bidder is told of every provider.
\<close>

section \<open>State and operations\<close>

record topology =
  providers :: "address \<rightharpoonup> peer"
  bidders :: "address \<rightharpoonup> peer"
  ConnectedProvidersCount :: int
  ConnectedBiddersCount :: int

definition topology_New :: topology where
  "topology_New =
     \<lparr> providers = Map.empty, bidders = Map.empty, ConnectedProvidersCount = 0,
       ConnectedBiddersCount = 0 \<rparr>"

definition topology_add :: "peer \<Rightarrow> topology \<Rightarrow> topology" where
  "topology_add p t =
     (case Type p of
        PeerTypeProvider \<Rightarrow>
          t\<lparr> providers := (providers t)(EthAddress p \<mapsto> p),
             ConnectedProvidersCount := ConnectedProvidersCount t + 1 \<rparr>
      | PeerTypeBidder \<Rightarrow>
          t\<lparr> bidders := (bidders t)(EthAddress p \<mapsto> p),
             ConnectedBiddersCount := ConnectedBiddersCount t + 1 \<rparr>
      | _ \<Rightarrow> t)"

definition topology_Disconnected :: "peer \<Rightarrow> topology \<Rightarrow> topology" where
  "topology_Disconnected p t =
     (case Type p of
        PeerTypeProvider \<Rightarrow>
          t\<lparr> providers := (providers t)(EthAddress p := None),
             ConnectedProvidersCount := ConnectedProvidersCount t - 1 \<rparr>
      | PeerTypeBidder \<Rightarrow>
          t\<lparr> bidders := (bidders t)(EthAddress p := None),
             ConnectedBiddersCount := ConnectedBiddersCount t - 1 \<rparr>
      | _ \<Rightarrow> t)"

definition AddPeers :: "peer list \<Rightarrow> topology \<Rightarrow> topology" where
  "AddPeers ps t = fold topology_add ps t"

text \<open>A query visits one of the maps in some order; \<open>ord\<close> lists its addresses.\<close>

definition topology_map :: "peer_type \<Rightarrow> topology \<Rightarrow> address \<rightharpoonup> peer" where
  "topology_map ty t =
     (case ty of
        PeerTypeProvider \<Rightarrow> providers t
      | PeerTypeBidder \<Rightarrow> bidders t
      | _ \<Rightarrow> Map.empty)"

definition GetPeers :: "peer_type \<Rightarrow> address list \<Rightarrow> topology \<Rightarrow> peer list" where
  "GetPeers ty ord t = List.map_filter (topology_map ty t) ord"

definition IsConnected :: "address \<Rightarrow> topology \<Rightarrow> bool" where
  "IsConnected addr t \<longleftrightarrow> providers t addr \<noteq> None \<or> bidders t addr \<noteq> None"

section \<open>Broadcasts of a new peer\<close>

type_synonym broadcast = "peer \<times> peer_info list"

definition info_of :: "peer \<Rightarrow> bytes \<Rightarrow> peer_info" where
  "info_of p u = \<lparr> pi_EthAddress = EthAddress p, pi_Underlay = u \<rparr>"

text \<open>\<open>book\<close> is the addressbook's \<open>GetPeerInfo\<close>.\<close>

definition known_underlays ::
  "(peer \<Rightarrow> go_error + bytes) \<Rightarrow> peer \<Rightarrow> peer list \<Rightarrow> peer_info list" where
  "known_underlays book p ps =
     List.map_filter (\<lambda>q.
        if EthAddress q = EthAddress p then None
        else case book q of
               Inl _ \<Rightarrow> None
             | Inr u \<Rightarrow> Some (info_of q u)) ps"

definition to_peer :: "peer \<Rightarrow> peer_info list \<Rightarrow> broadcast list" where
  "to_peer p underlays = (if underlays \<noteq> [] then [(p, underlays)] else [])"

definition to_bidders ::
  "(peer \<Rightarrow> go_error + bytes) \<Rightarrow> peer \<Rightarrow> peer list \<Rightarrow> broadcast list" where
  "to_bidders book p qs =
     (if Type p = PeerTypeProvider
      then (case book p of
              Inl _ \<Rightarrow> []
            | Inr u \<Rightarrow> map (\<lambda>q. (q, [info_of p u])) qs)
      else [])"

definition Connected ::
  "(peer \<Rightarrow> go_error + bytes) \<Rightarrow> bool \<Rightarrow> address list \<Rightarrow> address list \<Rightarrow> peer \<Rightarrow> topology \<Rightarrow>
     topology \<times> broadcast list" where
  "Connected book hasAnnouncer provOrd bidOrd p t =
     (let t' = topology_add p t
      in (t',
          if hasAnnouncer
          then to_peer p (known_underlays book p (GetPeers PeerTypeProvider provOrd t')) @
               to_bidders book p (GetPeers PeerTypeBidder bidOrd t')
          else []))"

lemma in_to_peer: "(d, is) \<in> set (to_peer p us) \<longleftrightarrow> d = p \<and> is = us \<and> us \<noteq> []"
  by (cases us) (simp_all add: to_peer_def)

lemma in_to_bidders:
  "(d, is) \<in> set (to_bidders book p qs) \<longleftrightarrow>
     Type p = PeerTypeProvider \<and> d \<in> set qs \<and> (\<exists>u. book p = Inr u \<and> is = [info_of p u])"
  by (cases "book p"; cases "Type p = PeerTypeProvider") (auto simp: to_bidders_def)

lemma in_Connected:
  "(d, is) \<in> set (snd (Connected book ann po bo p t)) \<longleftrightarrow> ann \<and>
     ((d, is) \<in> set (to_peer p (known_underlays book p (GetPeers PeerTypeProvider po (topology_add p t)))) \<or>
      (d, is) \<in> set (to_bidders book p (GetPeers PeerTypeBidder bo (topology_add p t))))"
  by (cases ann) (simp_all add: Connected_def Let_def)

text \<open>The orders fit the state in which the maps are visited.\<close>

definition orders_fit :: "address list \<Rightarrow> address list \<Rightarrow> peer \<Rightarrow> topology \<Rightarrow> bool" where
  "orders_fit provOrd bidOrd p t \<longleftrightarrow>
     enumerates provOrd (dom (providers (topology_add p t))) \<and>
     enumerates bidOrd (dom (bidders (topology_add p t)))"

section \<open>Well-formedness\<close>

definition topo_wf :: "topology \<Rightarrow> bool" where
  "topo_wf t \<longleftrightarrow>
     (\<forall>a p. providers t a = Some p \<longrightarrow> EthAddress p = a \<and> Type p = PeerTypeProvider) \<and>
     (\<forall>a p. bidders t a = Some p \<longrightarrow> EthAddress p = a \<and> Type p = PeerTypeBidder)"

lemma topo_wf_New: "topo_wf topology_New"
  by (simp add: topo_wf_def topology_New_def)

lemma topo_wf_add: "topo_wf t \<Longrightarrow> topo_wf (topology_add p t)"
  by (cases "Type p") (auto simp: topo_wf_def topology_add_def topology_Disconnected_def)

lemma topo_wf_Disconnected: "topo_wf t \<Longrightarrow> topo_wf (topology_Disconnected p t)"
  by (cases "Type p") (auto simp: topo_wf_def topology_add_def topology_Disconnected_def)

lemma topology_map_simps [simp]:
  "topology_map PeerTypeProvider t = providers t" "topology_map PeerTypeBidder t = bidders t"
  by (simp_all add: topology_map_def)

text \<open>The topology holds a peer; bootnodes are never in it.\<close>

definition in_topo :: "peer \<Rightarrow> topology \<Rightarrow> bool" where
  "in_topo p t \<longleftrightarrow>
     (Type p = PeerTypeProvider \<or> Type p = PeerTypeBidder \<longrightarrow>
        topology_map (Type p) t (EthAddress p) = Some p)"

lemma in_topo_add_same: "in_topo p (topology_add p t)"
  by (auto simp: in_topo_def topology_add_def)

lemma peer_eqI: "EthAddress p = EthAddress q \<Longrightarrow> Type p = Type q \<Longrightarrow> p = (q :: peer)"
  by simp

lemma in_topo_add: "in_topo p t \<Longrightarrow> in_topo p (topology_add q t)"
  using peer_eqI [of p q] by (cases "Type q") (auto simp: in_topo_def topology_add_def)

lemma in_topo_Disconnected:
  "in_topo p t \<Longrightarrow> EthAddress p \<noteq> EthAddress q \<Longrightarrow> in_topo p (topology_Disconnected q t)"
  by (cases "Type q") (auto simp: in_topo_def topology_Disconnected_def)

lemma IsConnected_add:
  "IsConnected a (topology_add p t) \<longleftrightarrow>
     IsConnected a t \<or> (a = EthAddress p \<and> (Type p = PeerTypeProvider \<or> Type p = PeerTypeBidder))"
  by (cases "Type p") (auto simp: IsConnected_def topology_add_def)

lemma set_GetPeers:
  assumes "enumerates ord (dom (topology_map ty t))"
  shows "set (GetPeers ty ord t) = ran (topology_map ty t)"
  using enumeratesD(2) [OF assms] by (force simp: GetPeers_def List.map_filter_def ran_def)

lemma set_known_underlays:
  "i \<in> set (known_underlays book p ps) \<longleftrightarrow>
     (\<exists>q \<in> set ps. EthAddress q \<noteq> EthAddress p \<and>
        (\<exists>u. book q = Inr u \<and> i = info_of q u))"
proof (induction ps)
  case (Cons q ps)
  then show ?case
    by (cases "EthAddress q = EthAddress p"; cases "book q")
       (auto simp: known_underlays_def List.map_filter_simps info_of_def)
qed (simp add: known_underlays_def List.map_filter_simps)

section \<open>Who is told of whom\<close>

text \<open>\<open>told bs b q u\<close>: some broadcast tells the peer of address \<open>b\<close> about \<open>q\<close>.\<close>

definition told :: "broadcast list \<Rightarrow> address \<Rightarrow> peer \<Rightarrow> bytes \<Rightarrow> bool" where
  "told bs b q u \<longleftrightarrow>
     (\<exists>(d, is) \<in> set bs. EthAddress d = b \<and>
        info_of q u \<in> set is)"

lemma told_append: "told (xs @ ys) b q u \<longleftrightarrow> told xs b q u \<or> told ys b q u"
  by (auto simp: told_def)

text \<open>The new peer hears of every provider that is there.\<close>

lemma Connected_tells_new:
  assumes "orders_fit po bo p t" "topo_wf t" and "providers t (EthAddress q) = Some q"
    and "EthAddress q \<noteq> EthAddress p" and "book q = Inr u"
  shows "told (snd (Connected book True po bo p t)) (EthAddress p) q u"
proof -
  let ?t = "topology_add p t"
  have "providers ?t (EthAddress q) = Some q" using assms(3,4) by (cases "Type p") (auto simp: topology_add_def)
  then have "q \<in> set (GetPeers PeerTypeProvider po ?t)"
    using assms(1) by (auto simp: orders_fit_def set_GetPeers intro: ranI)
  with assms(4,5) have
    "info_of q u \<in>
       set (known_underlays book p (GetPeers PeerTypeProvider po ?t))"
    by (auto simp: set_known_underlays)
  then show ?thesis
    unfolding told_def by (force simp: in_Connected in_to_peer)
qed

text \<open>Every bidder that is there hears of a new provider.\<close>

lemma Connected_tells_bidders:
  assumes "orders_fit po bo p t" "topo_wf t" and "bidders t b = Some d"
    and "Type p = PeerTypeProvider" and "book p = Inr u"
  shows "told (snd (Connected book True po bo p t)) b p u"
proof -
  let ?t = "topology_add p t"
  have "bidders ?t b = Some d" and d: "EthAddress d = b"
    using assms(2,3,4) by (auto simp: topo_wf_def topology_add_def)
  then have "d \<in> set (GetPeers PeerTypeBidder bo ?t)"
    using assms(1) by (auto simp: orders_fit_def set_GetPeers intro: ranI)
  with assms(4,5) d show ?thesis
    unfolding told_def by (force simp: in_Connected in_to_bidders info_of_def)
qed

text \<open>No broadcast tells a peer about itself, and only providers are announced.\<close>

lemma Connected_broadcasts:
  assumes "orders_fit po bo p t" "topo_wf t" and "(d, is) \<in> set (snd (Connected book ann po bo p t))"
    and "i \<in> set is" and disj: "\<not> IsConnected (EthAddress p) t"
  shows "pi_EthAddress i \<noteq> EthAddress d \<and> ann \<and>
         (\<exists>q. providers (topology_add p t) (pi_EthAddress i) = Some q \<and> book q = Inr (pi_Underlay i))"
proof -
  let ?t = "topology_add p t"
  have wf: "topo_wf ?t" using assms(2) by (rule topo_wf_add)
  have pr: "set (GetPeers PeerTypeProvider po ?t) = ran (providers ?t)"
    and bi: "set (GetPeers PeerTypeBidder bo ?t) = ran (bidders ?t)"
    using assms(1) by (auto simp: orders_fit_def set_GetPeers)
  have ann: ann using assms(3) by (simp add: in_Connected)
  with assms(3,4) consider
    (new) "d = p" "i \<in> set (known_underlays book p (GetPeers PeerTypeProvider po ?t))"
  | (prov) u where "Type p = PeerTypeProvider" "book p = Inr u" "d \<in> ran (bidders ?t)"
      "i = info_of p u"
    by (auto simp: in_Connected in_to_peer in_to_bidders bi)
  then show ?thesis
  proof cases
    case new
    then obtain q u where q: "q \<in> ran (providers ?t)" "EthAddress q \<noteq> EthAddress p" "book q = Inr u"
      "i = info_of q u"
      by (auto simp: set_known_underlays pr)
    with wf have "providers ?t (EthAddress q) = Some q" by (auto simp: ran_def topo_wf_def)
    with q new ann show ?thesis by (auto simp: info_of_def)
  next
    case prov
    then have "bidders t (EthAddress d) = Some d"
      using assms(2) by (auto simp: ran_def topo_wf_def topology_add_def)
    with disj have "EthAddress d \<noteq> EthAddress p" by (auto simp: IsConnected_def)
    with prov ann show ?thesis by (auto simp: info_of_def topology_add_def)
  qed
qed

section \<open>A run of arrivals\<close>

text \<open>Peers connect one after the other, each with the orders in which the maps are visited.\<close>

type_synonym arrival = "peer \<times> address list \<times> address list"

fun arrivals ::
  "(peer \<Rightarrow> go_error + bytes) \<Rightarrow> arrival list \<Rightarrow> topology \<Rightarrow> topology \<times> broadcast list" where
  "arrivals book [] t = (t, [])"
| "arrivals book ((p, po, bo) # xs) t =
     (case Connected book True po bo p t of
        (t', bs) \<Rightarrow> (case arrivals book xs t' of (t'', bs') \<Rightarrow> (t'', bs @ bs')))"

fun arrivals_fit :: "arrival list \<Rightarrow> topology \<Rightarrow> bool" where
  "arrivals_fit [] t \<longleftrightarrow> True"
| "arrivals_fit ((p, po, bo) # xs) t \<longleftrightarrow> orders_fit po bo p t \<and> arrivals_fit xs (topology_add p t)"

lemma fst_Connected [simp]: "fst (Connected book ann po bo p t) = topology_add p t"
  by (simp add: Connected_def Let_def)

lemma told_arrivals_Cons:
  "told (snd (arrivals book ((p, po, bo) # xs) t)) b q u \<longleftrightarrow>
     told (snd (Connected book True po bo p t)) b q u \<or>
     told (snd (arrivals book xs (topology_add p t))) b q u"
  using fst_Connected [of book True po bo p t]
  by (cases "Connected book True po bo p t")
     (simp add: told_append split: prod.split del: fst_Connected)

lemma bidder_told_later:
  assumes "arrivals_fit xs t" "topo_wf t" and "providers t (EthAddress q) = Some q"
    and "(b, po, bo) \<in> set xs" and "EthAddress q \<notin> (EthAddress \<circ> fst) ` set xs" and "book q = Inr u"
  shows "told (snd (arrivals book xs t)) (EthAddress b) q u"
  using assms(1-5)
proof (induction xs arbitrary: t)
  case (Cons x xs)
  obtain p po' bo' where x: "x = (p, po', bo')" by (cases x)
  from Cons.prems x have ne: "EthAddress q \<noteq> EthAddress p" by auto
  show ?case
  proof (cases "(b, po, bo) = x")
    case True
    with Cons.prems x ne assms(6) show ?thesis
      unfolding x told_arrivals_Cons by (auto intro: Connected_tells_new)
  next
    case False
    have "providers (topology_add p t) (EthAddress q) = Some q"
      using Cons.prems ne by (cases "Type p") (auto simp: topology_add_def)
    with False Cons.prems x show ?thesis
      unfolding x told_arrivals_Cons
      by (intro disjI2 Cons.IH) (auto intro: topo_wf_add)
  qed
qed simp

lemma provider_told_later:
  assumes "arrivals_fit xs t" "topo_wf t" and "bidders t b \<noteq> None"
    and "(q, po, bo) \<in> set xs" and "Type q = PeerTypeProvider" and "book q = Inr u"
  shows "told (snd (arrivals book xs t)) b q u"
  using assms(1-4)
proof (induction xs arbitrary: t)
  case (Cons x xs)
  obtain p po' bo' where x: "x = (p, po', bo')" by (cases x)
  from Cons.prems obtain d where d: "bidders t b = Some d" by auto
  show ?case
  proof (cases "(q, po, bo) = x")
    case True
    with Cons.prems x d assms(5,6) show ?thesis
      unfolding x told_arrivals_Cons by (auto intro: Connected_tells_bidders)
  next
    case False
    have "bidders (topology_add p t) b \<noteq> None" using d by (cases "Type p") (auto simp: topology_add_def)
    with False Cons.prems x show ?thesis
      unfolding x told_arrivals_Cons
      by (intro disjI2 Cons.IH) (auto intro: topo_wf_add)
  qed
qed simp

lemma all_bidders_told:
  assumes "arrivals_fit xs t" "topo_wf t"
    and "distinct (map (EthAddress \<circ> fst) xs)"
    and "(q, qo) \<in> set xs" "Type q = PeerTypeProvider" and "(b, bo) \<in> set xs" "Type b = PeerTypeBidder"
    and "book q = Inr u"
  shows "told (snd (arrivals book xs t)) (EthAddress b) q u"
  using assms(1-7)
proof (induction xs arbitrary: t)
  case (Cons x xs)
  obtain p po' bo' where x: "x = (p, po', bo')" by (cases x)
  have wf: "topo_wf (topology_add p t)" using Cons.prems by (intro topo_wf_add)
  have fit: "arrivals_fit xs (topology_add p t)" using Cons.prems x by simp
  have ne: "q \<noteq> b" using assms(5,7) by auto
  consider "x = (q, qo)" | "x = (b, bo)" | "x \<noteq> (q, qo)" "x \<noteq> (b, bo)" by blast
  then show ?case
  proof cases
    case 1
    with x have p: "p = q" by simp
    from 1 Cons.prems ne have "(b, bo) \<in> set xs" by auto
    moreover have "EthAddress q \<notin> (EthAddress \<circ> fst) ` set xs" using Cons.prems x p by auto
    moreover have "providers (topology_add p t) (EthAddress q) = Some q" using p assms(5) by (simp add: topology_add_def)
    ultimately show ?thesis
      unfolding x told_arrivals_Cons using fit wf assms(8)
      by (cases bo) (auto intro: bidder_told_later simp del: o_apply)
  next
    case 2
    with x have p: "p = b" by simp
    from 2 Cons.prems ne have "(q, qo) \<in> set xs" by auto
    moreover have "bidders (topology_add p t) (EthAddress b) \<noteq> None" using p assms(7) by (simp add: topology_add_def)
    ultimately show ?thesis
      unfolding x told_arrivals_Cons using fit wf assms(5,8)
      by (cases qo) (auto intro: provider_told_later)
  next
    case 3
    with Cons.prems have "(q, qo) \<in> set xs" "(b, bo) \<in> set xs" by auto
    then show ?thesis
      unfolding x told_arrivals_Cons using fit wf Cons.prems
      by (auto intro: Cons.IH)
  qed
qed simp

section \<open>The gauges\<close>

text \<open>
  The gauges count the peers as long as no peer is added twice or removed twice, which
  \<open>topology_add\<close> does not check.
\<close>

definition gauges_ok :: "topology \<Rightarrow> bool" where
  "gauges_ok t \<longleftrightarrow>
     finite (dom (providers t)) \<and> finite (dom (bidders t)) \<and>
     ConnectedProvidersCount t = int (card (dom (providers t))) \<and>
     ConnectedBiddersCount t = int (card (dom (bidders t)))"

lemma gauges_add:
  assumes "gauges_ok t" and "\<not> IsConnected (EthAddress p) t"
  shows "gauges_ok (topology_add p t)"
  using assms by (cases "Type p") (auto simp: gauges_ok_def IsConnected_def topology_add_def domIff)

end
