(* ===== verification/Discovery.thy ===== *)
theory Discovery
  imports Topo "HOL-Library.Multiset"
begin

text \<open>
  \<open>pkg/discovery/discovery.go\<close>: the peer lists that nodes exchange. The handler offers the
  unknown peers of a list to the check loop; the loop starts at most \<open>checkWorkers\<close>
  connections at a time and adds the peers it reached to the topology.
\<close>

section \<open>Messages\<close>

record pb_peer_info =
  ppi_EthAddress :: "bytes option"
  ppi_Underlay :: "bytes option"

text \<open>\<open>common.BytesToAddress\<close> keeps the last 20 bytes and pads with zeros on the left.\<close>

definition BytesToAddress :: "bytes \<Rightarrow> address" where
  "BytesToAddress b =
     (let tail = drop (length b - 20) b in Address (replicate (20 - length tail) 0 @ tail))"

lemma BytesToAddress_addr: "length (addr_bytes a) = 20 \<Longrightarrow> BytesToAddress (addr_bytes a) = a"
  by (cases a) (simp add: BytesToAddress_def)

section \<open>The handler and the broadcast\<close>

text \<open>
  \<open>connected k\<close> is \<open>IsConnected\<close> when entry \<open>k\<close> is looked at, \<open>taken k\<close> whether the
  check loop takes it before the handler's context ends (else with that error).
\<close>

fun offer_peers ::
  "(nat \<Rightarrow> address \<Rightarrow> bool) \<Rightarrow> (nat \<Rightarrow> go_error option) \<Rightarrow> nat \<Rightarrow> pb_peer_info list \<Rightarrow>
     unit outcome \<times> pb_peer_info list" where
  "offer_peers connected taken k [] = (Ok (), [])"
| "offer_peers connected taken k (p # ps) =
     (if connected k (BytesToAddress (bval (ppi_EthAddress p)))
      then offer_peers connected taken (Suc k) ps
      else case taken k of
             Some ctxErr \<Rightarrow> (Fail ctxErr, [])
           | None \<Rightarrow> (case offer_peers connected taken (Suc k) ps of (r, qs) \<Rightarrow> (r, p # qs)))"

definition handlePeersList ::
  "pb_peer_info list outcome \<Rightarrow> (nat \<Rightarrow> address \<Rightarrow> bool) \<Rightarrow> (nat \<Rightarrow> go_error option) \<Rightarrow>
     unit outcome \<times> pb_peer_info list" where
  "handlePeersList readMsg connected taken =
     (case readMsg of
        Panic \<Rightarrow> (Panic, [])
      | Fail _ \<Rightarrow> (Fail (Err_Status InvalidArgument ''failed to read peers list''), [])
      | Ok ps \<Rightarrow> offer_peers connected taken 0 ps)"

definition peers_message :: "peer_info list \<Rightarrow> pb_peer_info list" where
  "peers_message ps =
     map (\<lambda>p. \<lparr> ppi_EthAddress = Some (addr_bytes (pi_EthAddress p)),
                ppi_Underlay = Some (pi_Underlay p) \<rparr>) ps"

definition BroadcastPeers ::
  "unit outcome \<Rightarrow> (pb_peer_info list \<Rightarrow> unit outcome) \<Rightarrow> peer_info list \<Rightarrow> unit outcome" where
  "BroadcastPeers newStream writeMsg ps =
     obind newStream (\<lambda>_. obind (writeMsg (peers_message ps)) (\<lambda>_. Ok ()))"

section \<open>The check loop\<close>

definition checkWorkers :: nat where
  "checkWorkers = 10"

text \<open>
  \<open>ds_waiting\<close> is the peer the loop has taken and holds until it gets the semaphore,
  \<open>ds_running\<close> the workers. \<open>ds_taken\<close> and \<open>ds_done\<close> record history.
\<close>

record disc_state =
  ds_topo :: topology
  ds_waiting :: "pb_peer_info option"
  ds_running :: "pb_peer_info list"
  ds_sem :: nat
  ds_quit :: bool
  ds_taken :: "pb_peer_info list"
  ds_done :: "pb_peer_info list"

definition disc_start :: "disc_state \<Rightarrow> bool" where
  "disc_start s \<longleftrightarrow>
     s = \<lparr> ds_topo = topology_New, ds_waiting = None, ds_running = [], ds_sem = checkWorkers,
           ds_quit = False, ds_taken = [], ds_done = [] \<rparr>"

datatype disc_label =
    DTake pb_peer_info
  | DAcquire
  | DDone pb_peer_info
  | DQuit

text \<open>\<open>connect\<close> is the result of \<open>Connect\<close> on the peer's underlay.\<close>

definition worker_done :: "go_error + peer \<Rightarrow> pb_peer_info \<Rightarrow> disc_state \<Rightarrow> disc_state" where
  "worker_done connect p s =
     s\<lparr> ds_topo := (case connect of Inl _ \<Rightarrow> ds_topo s | Inr q \<Rightarrow> AddPeers [q] (ds_topo s)),
        ds_running := remove1 p (ds_running s), ds_sem := Suc (ds_sem s),
        ds_done := ds_done s @ [p] \<rparr>"

inductive disc_step :: "disc_state \<Rightarrow> disc_label \<Rightarrow> disc_state \<Rightarrow> bool" where
  take_peer: "\<not> ds_quit s \<Longrightarrow> ds_waiting s = None \<Longrightarrow>
     disc_step s (DTake p) (s\<lparr> ds_waiting := Some p, ds_taken := ds_taken s @ [p] \<rparr>)"
| acquire: "ds_waiting s = Some p \<Longrightarrow> 0 < ds_sem s \<Longrightarrow>
     disc_step s DAcquire
       (s\<lparr> ds_waiting := None, ds_running := ds_running s @ [p], ds_sem := ds_sem s - 1 \<rparr>)"
| worker: "p \<in> set (ds_running s) \<Longrightarrow> disc_step s (DDone p) (worker_done connect p s)"
| quit: "ds_waiting s = None \<Longrightarrow> disc_step s DQuit (s\<lparr> ds_quit := True \<rparr>)"

section \<open>Properties\<close>

text \<open>Unless its context ends, the handler offers exactly the entries not connected.\<close>

lemma offer_peers_all:
  "(\<And>j. taken j = None) \<Longrightarrow>
     offer_peers (\<lambda>_. conn) taken k ps =
       (Ok (), filter (\<lambda>p. \<not> conn (BytesToAddress (bval (ppi_EthAddress p)))) ps)"
  by (induction ps arbitrary: k) auto

lemma offer_peers_subset: "set (snd (offer_peers conn taken k ps)) \<subseteq> set ps"
proof (induction ps arbitrary: k)
  case (Cons p ps)
  from Cons.IH [of "Suc k"] show ?case
    by (cases "offer_peers conn taken (Suc k) ps") (auto split: option.split)
qed simp

text \<open>A broadcast list is read back as the infos that were sent.\<close>

lemma peers_message_inverse:
  assumes "\<And>p. p \<in> set ps \<Longrightarrow> length (addr_bytes (pi_EthAddress p)) = 20"
  shows "map (\<lambda>p. (BytesToAddress (bval (ppi_EthAddress p)), bval (ppi_Underlay p)))
           (peers_message ps) = map (\<lambda>p. (pi_EthAddress p, pi_Underlay p)) ps"
  using assms by (simp add: peers_message_def BytesToAddress_addr)

text \<open>At most ten workers run, and no peer taken is lost.\<close>

definition disc_inv :: "disc_state \<Rightarrow> bool" where
  "disc_inv s \<longleftrightarrow>
     length (ds_running s) + ds_sem s = checkWorkers \<and>
     mset (ds_taken s) =
       mset (ds_done s) + mset (ds_running s) + (case ds_waiting s of None \<Rightarrow> {#} | Some p \<Rightarrow> {#p#}) \<and>
     topo_wf (ds_topo s)"

lemma disc_inv_step:
  assumes "disc_step s l s'" and "disc_inv s"
  shows "disc_inv s'"
  using assms
proof (induction rule: disc_step.induct)
  case (worker p s connect)
  then have p: "p \<in> set (ds_running s)" by simp
  have "Suc (length (remove1 p (ds_running s))) = length (ds_running s)"
    using p by (rule length_remove1_mem)
  moreover have "mset (ds_running s) = mset (remove1 p (ds_running s)) + {#p#}"
    using p by simp
  moreover have "topo_wf (ds_topo (worker_done connect p s))"
    using worker by (auto simp: disc_inv_def worker_done_def AddPeers_def topo_wf_add split: sum.split)
  ultimately show ?case
    using worker(2) by (simp add: disc_inv_def worker_done_def del: mset_remove1)
qed (auto simp: disc_inv_def)

text \<open>As long as there is room, the loop takes peer after peer and starts a worker for each.\<close>

definition filled :: "pb_peer_info list \<Rightarrow> disc_state \<Rightarrow> disc_state" where
  "filled ps s =
     s\<lparr> ds_running := ds_running s @ ps, ds_sem := ds_sem s - length ps, ds_taken := ds_taken s @ ps \<rparr>"

lemma disc_fill:
  assumes "reach disc_start disc_step s" "\<not> ds_quit s" "ds_waiting s = None" "length ps \<le> ds_sem s"
  shows "reach disc_start disc_step (filled ps s)"
  using assms
proof (induction ps arbitrary: s)
  case Nil
  then show ?case by (simp add: filled_def)
next
  case (Cons p ps)
  let ?t = "s\<lparr> ds_waiting := Some p, ds_taken := ds_taken s @ [p] \<rparr>"
  let ?u = "?t\<lparr> ds_waiting := None, ds_running := ds_running ?t @ [p], ds_sem := ds_sem ?t - 1 \<rparr>"
  have "reach disc_start disc_step ?t" using Cons.prems by (auto intro: reach_step take_peer)
  moreover have "disc_step ?t DAcquire ?u" using Cons.prems by (intro acquire) simp_all
  ultimately have "reach disc_start disc_step ?u" by (rule reach_step)
  then have "reach disc_start disc_step (filled ps ?u)" using Cons by (intro Cons.IH) simp_all
  moreover have "filled ps ?u = filled (p # ps) s" using Cons.prems(3) by (simp add: filled_def)
  ultimately show ?case by simp
qed

interpretation disc: invariant_system disc_start disc_step disc_inv
proof unfold_locales
  show "disc_inv s" if "disc_start s" for s
    using that by (simp add: disc_start_def disc_inv_def topo_wf_New)
  show "disc_inv s'" if "disc_inv s" "disc_step s l s'" for s l s'
    using that(2,1) by (rule disc_inv_step)
qed

end
