(* ===== verification/Overlay.thy ===== *)
theory Overlay
  imports Two_Nodes Discovery
begin

text \<open>
  The p2p service and the topology of one node together: \<open>handleConnectReq\<close> and
  \<open>Disconnected\<close> of \<open>pkg/p2p/libp2p\<close> with the notifier's calls they make, the connections of
  \<open>pkg/discovery\<close> and of the bootstrap loop, and \<open>pkg/topology\<close>. The topology only ever holds
  authenticated peers and misses no peer that was announced; it can keep one that has left.
\<close>

section \<open>State and steps\<close>

text \<open>
  A registered peer reaches the topology in a step of its own: the registry's lock is free
  between \<open>addPeer\<close> and \<open>notifier.Connected\<close>, and between \<open>Connect\<close> and \<open>AddPeers\<close> of a
  discovery worker. \<open>ov_tasks\<close> are the goroutines in between. \<open>Disconnected\<close> calls the
  notifier under the lock, so it is one step. \<open>ov_boot\<close> records the peers that the bootstrap
  loop connected, which it tells nobody.
\<close>

datatype overlay_task = TConnected (task_peer: peer) | TAddPeers (task_peer: peer)

record overlay =
  ov_service :: p2p_service
  ov_topo :: topology
  ov_tasks :: "overlay_task list"
  ov_boot :: "peer set"

definition ov_start :: "overlay \<Rightarrow> bool" where
  "ov_start s \<longleftrightarrow>
     s = \<lparr> ov_service = new_p2p_service, ov_topo = topology_New, ov_tasks = [], ov_boot = {} \<rparr>"

datatype overlay_label =
    OvIncoming conn
  | OvDiscovered bytes
  | OvBootstrapped bytes
  | OvTask overlay_task
  | OvDisconnected conn

text \<open>The calls of the notifier that an operation has made.\<close>

definition notified_connected :: "p2p_service \<Rightarrow> p2p_service \<Rightarrow> peer list" where
  "notified_connected s s' =
     List.map_filter (\<lambda>e. case e of NotifyConnected p \<Rightarrow> Some p | _ \<Rightarrow> None)
       (drop (length (sv_effects s)) (sv_effects s'))"

definition notified_disconnected :: "p2p_service \<Rightarrow> p2p_service \<Rightarrow> peer list" where
  "notified_disconnected s s' =
     drop (length (pr_notified (peers s))) (pr_notified (peers s'))"

definition connected_peer :: "peer outcome \<Rightarrow> peer list" where
  "connected_peer r = (case r of Ok p \<Rightarrow> [p] | _ \<Rightarrow> [])"

text \<open>The stream of a dial is the peer's.\<close>

definition dial_sound :: "handshake_service \<Rightarrow> connect_net \<Rightarrow> bytes \<Rightarrow> bool" where
  "dial_sound h net info \<longleftrightarrow>
     (\<forall>i addrs c str. cn_Unmarshal net info = Inr (i, addrs) \<longrightarrow> cn_NewStream net = Inr (c, str) \<longrightarrow>
        RemotePeer c = i \<and> fst (Handshake h i str) \<noteq> Panic)"

inductive ov_step ::
  "handshake_service \<Rightarrow> overlay \<Rightarrow> overlay_label \<Rightarrow> overlay \<Rightarrow> bool" for h where
  incoming: "handleConnectReq h True now c str (ov_service s) = (Ok (), v) \<Longrightarrow>
     ov_step h s (OvIncoming c)
       (s\<lparr> ov_service := v,
          ov_tasks := ov_tasks s @ map TConnected (notified_connected (ov_service s) v) \<rparr>)"
| discovered: "dial_sound h net info \<Longrightarrow> p2p_Connect h net now info (ov_service s) = (r, v) \<Longrightarrow>
     ov_step h s (OvDiscovered info)
       (s\<lparr> ov_service := v, ov_tasks := ov_tasks s @ map TAddPeers (connected_peer r) \<rparr>)"
| bootstrapped: "dial_sound h net info \<Longrightarrow> p2p_Connect h net now info (ov_service s) = (r, v) \<Longrightarrow>
     ov_step h s (OvBootstrapped info)
       (s\<lparr> ov_service := v, ov_boot := ov_boot s \<union> set (connected_peer r) \<rparr>)"
| announce: "TConnected p \<in> set (ov_tasks s) \<Longrightarrow>
     ov_step h s (OvTask (TConnected p))
       (s\<lparr> ov_topo := fst (Connected book ann po bo p (ov_topo s)),
          ov_tasks := remove1 (TConnected p) (ov_tasks s) \<rparr>)"
| add_peers: "TAddPeers p \<in> set (ov_tasks s) \<Longrightarrow>
     ov_step h s (OvTask (TAddPeers p))
       (s\<lparr> ov_topo := AddPeers [p] (ov_topo s),
          ov_tasks := remove1 (TAddPeers p) (ov_tasks s) \<rparr>)"
| disconnect: "service_Disconnected c (ov_service s) = (Ok (), v) \<Longrightarrow>
     ov_step h s (OvDisconnected c)
       (s\<lparr> ov_service := v,
          ov_topo := fold topology_Disconnected (notified_disconnected (ov_service s) v) (ov_topo s) \<rparr>)"

inductive_cases ov_taskE: "ov_step h s (OvTask t) s'"

section \<open>What the operations tell\<close>

lemma sv_effects_record [simp]: "sv_effects (record_effect e s) = sv_effects s @ [e]"
  by (simp add: record_effect_def)

lemma handleConnectReq_told:
  assumes "handleConnectReq h True now c str s = (Ok (), v)"
  obtains (admitted) p r where "fst (Handle h str (RemotePeer c)) = Ok p" "addPeer c p (peers s) = (False, r)"
      "peers v = r" "notified_connected s v = [p]"
  | (known) p where "fst (Handle h str (RemotePeer c)) = Ok p"
      "peers v = snd (addPeer c p (peers s))" "fst (addPeer c p (peers s))" "notified_connected s v = []"
  | (refused) "peers v = peers s" "notified_connected s v = []"
proof (cases "fst (Handle h str (RemotePeer c))")
  case (Ok p)
  obtain e r where a: "addPeer c p (peers s) = (e, r)" by (cases "addPeer c p (peers s)")
  show thesis
  proof (cases e)
    case True
    with Ok a assms show thesis
      by (intro known) (auto simp: handleConnectReq_def notified_connected_def List.map_filter_simps)
  next
    case False
    with Ok a assms show thesis
      by (intro admitted) (auto simp: handleConnectReq_def notified_connected_def List.map_filter_simps)
  qed
next
  case (Fail err)
  with assms show thesis
    by (intro refused)
       (auto simp: handleConnectReq_def notified_connected_def Let_def List.map_filter_simps)
next
  case Panic
  with assms show thesis by (simp add: handleConnectReq_def)
qed


definition authentic_peer :: "handshake_service \<Rightarrow> peer \<Rightarrow> bool" where
  "authentic_peer h p \<longleftrightarrow> (\<exists>i req. authentic h i req p)"

lemma authentic_peerI [intro]: "authentic h i req p \<Longrightarrow> authentic_peer h p"
  by (auto simp: authentic_peer_def)

text \<open>What a connection adds to the registry: nothing, or the authenticated peer it returns.\<close>

definition grows_by :: "(peer_id \<rightharpoonup> peer) \<Rightarrow> peer list \<Rightarrow> (peer_id \<rightharpoonup> peer) \<Rightarrow> bool" where
  "grows_by m ps m' \<longleftrightarrow> m' = m \<or> (\<exists>i. \<exists>p \<in> set ps. m' = m(i \<mapsto> p))"

lemma grows_byE:
  assumes "grows_by m ps m'" "m' i = Some p"
  obtains "m i = Some p" | "p \<in> set ps"
  using assms by (auto simp: grows_by_def split: if_splits)

lemma addPeer_grows: "grows_by (overlays r) [p] (overlays (snd (addPeer c p r)))"
  by (auto simp: grows_by_def addPeer_def Let_def)

lemma connect_handshake_grows:
  assumes "connect_handshake h now i addrs c str s = (r, v)"
  shows "grows_by (overlays (peers s)) (connected_peer r) (overlays (peers v)) \<and>
    (\<forall>p \<in> set (connected_peer r). authentic_peer h p)"
proof (cases "fst (Handshake h i str)")
  case (Ok p)
  then obtain req where a: "authentic h i req p" by (rule Handshake_authentic)
  from Ok assms have "r = Ok p" "peers v = snd (addPeer c p (peers s))"
    by (auto simp: connect_handshake_def)
  with a addPeer_grows show ?thesis by (auto simp: connected_peer_def)
next
  case (Fail e)
  with assms have "r = Fail e" "peers v = peers s" by (auto simp: connect_handshake_def Let_def)
  then show ?thesis by (simp add: connected_peer_def grows_by_def)
next
  case Panic
  with assms have "r = Panic" "v = s" by (auto simp: connect_handshake_def)
  then show ?thesis by (simp add: connected_peer_def grows_by_def)
qed

lemma authentic_peer_weaker: "authentic_peer h p \<Longrightarrow> weaker h g \<Longrightarrow> authentic_peer g p"
  unfolding authentic_peer_def by (blast intro: authentic_weaker)

lemma p2p_Connect_grows:
  assumes ok: "peers_ok g addr_of (peers s)" and w: "weaker h g"
    and r: "p2p_Connect h net now info s = (r, v)"
  shows "grows_by (overlays (peers s)) (connected_peer r) (overlays (peers v)) \<and>
    (\<forall>p \<in> set (connected_peer r). authentic_peer g p)"
proof -
  have "authentic_peer g p" if "isConnected i (peers s) = (Some p, True)" for i p
    using that ok by (simp add: isConnected_def peers_ok_def authentic_peer_def split: option.splits) blast
  moreover have "grows_by m ps m" for m ps by (simp add: grows_by_def)
  moreover have "grows_by (overlays (peers s)) (connected_peer r) (overlays (peers v)) \<and>
      (\<forall>p \<in> set (connected_peer r). authentic_peer g p)"
    if "connect_handshake h now i addrs c str s = (r, v)" for i addrs c str
    using connect_handshake_grows [OF that] authentic_peer_weaker [OF _ w] by blast
  ultimately show ?thesis
    using r unfolding p2p_Connect_def
    by (force simp: connected_peer_def split: sum.splits if_splits option.splits bool.splits prod.splits)
qed

text \<open>A disconnection that removes a peer tells the topology of this peer.\<close>

lemma service_Disconnected_told:
  assumes ok: "peers_ok h addr_of (peers s)" and r: "service_Disconnected c s = (Ok (), v)"
  obtains (kept) "overlays (peers v) = overlays (peers s)" "notified_disconnected s v = []"
  | (left) p where "overlays (peers s) (RemotePeer c) = Some p"
      "overlays (peers v) = (overlays (peers s))(RemotePeer c := None)"
      "notified_disconnected s v = [p]"
proof -
  from ok have "reg_inv addr_of (peers s)" by (simp add: peers_ok_def)
  moreover from r have v: "peers v = snd (Disconnected c (peers s))"
    by (auto simp: service_Disconnected_def split: prod.splits)
  ultimately show thesis
  proof (cases rule: Disconnected_cases [where c = c])
    case absent
    with v show thesis by (intro kept) (simp_all add: notified_disconnected_def)
  next
    case (more cs)
    with v show thesis by (intro kept) (simp_all add: notified_disconnected_def)
  next
    case (last p)
    with v show thesis by (intro left [of p]) (simp_all add: notified_disconnected_def)
  qed
qed

section \<open>The invariant\<close>

definition topo_peers :: "topology \<Rightarrow> peer set" where
  "topo_peers t = ran (providers t) \<union> ran (bidders t)"

lemma in_topo_peers:
  "p \<in> topo_peers t \<longleftrightarrow> (\<exists>a. providers t a = Some p) \<or> (\<exists>a. bidders t a = Some p)"
  by (auto simp: topo_peers_def ran_def)

lemma topo_peers_add: "q \<in> topo_peers (topology_add p t) \<Longrightarrow> q = p \<or> q \<in> topo_peers t"
  by (cases "Type p") (auto simp: in_topo_peers topology_add_def split: if_splits)

lemma topo_peers_Disconnected: "q \<in> topo_peers (topology_Disconnected p t) \<Longrightarrow> q \<in> topo_peers t"
  by (cases "Type p") (auto simp: in_topo_peers topology_Disconnected_def split: if_splits)

lemma topo_peers_New [simp]: "topo_peers topology_New = {}"
  by (simp add: topo_peers_def topology_New_def)


text \<open>
  \<open>missed\<close>: a registered peer that nobody will tell the topology of, or has told it of. The
  first part of the invariant says who can be in the topology, the last one who is.
\<close>

definition missed :: "overlay \<Rightarrow> peer \<Rightarrow> bool" where
  "missed s p \<longleftrightarrow>
     p \<notin> ov_boot s \<and> p \<notin> task_peer ` set (ov_tasks s) \<and> \<not> in_topo p (ov_topo s)"

definition ov_inv :: "handshake_service \<Rightarrow> (peer_id \<Rightarrow> address) \<Rightarrow> overlay \<Rightarrow> bool" where
  "ov_inv h addr_of s \<longleftrightarrow> addresses_ok h addr_of \<longrightarrow>
     peers_ok h addr_of (peers (ov_service s)) \<and>
     topo_wf (ov_topo s) \<and>
     (\<forall>p \<in> topo_peers (ov_topo s) \<union> task_peer ` set (ov_tasks s). authentic_peer h p) \<and>
     (\<forall>i p. overlays (peers (ov_service s)) i = Some p \<longrightarrow> \<not> missed s p)"

lemma ov_invD:
  assumes "ov_inv h addr_of s" "addresses_ok h addr_of"
  shows "peers_ok h addr_of (peers (ov_service s))" "topo_wf (ov_topo s)"
    and "p \<in> topo_peers (ov_topo s) \<Longrightarrow> authentic_peer h p"
    and "t \<in> set (ov_tasks s) \<Longrightarrow> authentic_peer h (task_peer t)"
    and "overlays (peers (ov_service s)) i = Some p \<Longrightarrow> \<not> missed s p"
  using assms by (auto simp: ov_inv_def)

lemma ov_invI:
  assumes "addresses_ok h addr_of \<Longrightarrow> peers_ok h addr_of (peers (ov_service s))"
    and "addresses_ok h addr_of \<Longrightarrow> topo_wf (ov_topo s)"
    and "\<And>p. addresses_ok h addr_of \<Longrightarrow> p \<in> topo_peers (ov_topo s) \<Longrightarrow> authentic_peer h p"
    and "\<And>t. addresses_ok h addr_of \<Longrightarrow> t \<in> set (ov_tasks s) \<Longrightarrow> authentic_peer h (task_peer t)"
    and "\<And>i p. addresses_ok h addr_of \<Longrightarrow> overlays (peers (ov_service s)) i = Some p \<Longrightarrow> \<not> missed s p"
  shows "ov_inv h addr_of s"
  using assms by (auto simp: ov_inv_def)

text \<open>A task adds its peer to the topology, whichever of the two it is.\<close>

lemma ov_inv_task:
  assumes inv: "ov_inv h addr_of s" and t: "t \<in> set (ov_tasks s)"
  shows "ov_inv h addr_of
    (s\<lparr> ov_topo := topology_add (task_peer t) (ov_topo s), ov_tasks := remove1 t (ov_tasks s) \<rparr>)"
proof (rule ov_invI)
  assume a: "addresses_ok h addr_of"
  note D = ov_invD [OF inv a]
  show "topo_wf (ov_topo (s\<lparr> ov_topo := topology_add (task_peer t) (ov_topo s),
      ov_tasks := remove1 t (ov_tasks s) \<rparr>))"
    using D(2) by (simp add: topo_wf_add)
  fix p
  show "authentic_peer h p"
    if "p \<in> topo_peers (ov_topo (s\<lparr> ov_topo := topology_add (task_peer t) (ov_topo s),
      ov_tasks := remove1 t (ov_tasks s) \<rparr>))"
    using that D(3,4) t by (auto dest: topo_peers_add)
  show "\<not> missed (s\<lparr> ov_topo := topology_add (task_peer t) (ov_topo s),
      ov_tasks := remove1 t (ov_tasks s) \<rparr>) p"
    if "overlays (peers (ov_service (s\<lparr> ov_topo := topology_add (task_peer t) (ov_topo s),
      ov_tasks := remove1 t (ov_tasks s) \<rparr>))) i = Some p" for i
  proof (cases "p = task_peer t")
    case False
    then have "p \<in> task_peer ` set (remove1 t (ov_tasks s))" if "p \<in> task_peer ` set (ov_tasks s)"
      using that by (auto simp: image_iff) (metis in_set_remove1)
    with D(5) [of i p] that in_topo_add [of p "ov_topo s" "task_peer t"] show ?thesis
      by (auto simp: missed_def)
  qed (simp add: missed_def in_topo_add_same)
qed (use ov_invD [OF inv] in \<open>auto dest: notin_set_remove1 set_remove1_subset [THEN subsetD]\<close>)

text \<open>A connection adds peers to the registry and tells of them, or marks them.\<close>

lemma ov_inv_grow:
  assumes inv: "ov_inv h addr_of s"
    and ok: "addresses_ok h addr_of \<Longrightarrow> peers_ok h addr_of (peers v)"
    and grow: "addresses_ok h addr_of \<Longrightarrow>
      grows_by (overlays (peers (ov_service s))) ps (overlays (peers v))"
    and auth: "\<And>p. p \<in> task_peer ` set ts \<Longrightarrow> authentic_peer h p"
    and told: "set ps \<subseteq> task_peer ` set ts \<union> B"
  shows "ov_inv h addr_of
    (s\<lparr> ov_service := v, ov_tasks := ov_tasks s @ ts, ov_boot := ov_boot s \<union> B \<rparr>)"
proof (rule ov_invI)
  assume a: "addresses_ok h addr_of"
  fix i p
  assume "overlays (peers (ov_service
    (s\<lparr> ov_service := v, ov_tasks := ov_tasks s @ ts, ov_boot := ov_boot s \<union> B \<rparr>))) i = Some p"
  then have "overlays (peers v) i = Some p" by simp
  with grow [OF a] consider "overlays (peers (ov_service s)) i = Some p" | "p \<in> set ps"
    by (rule grows_byE)
  then show "\<not> missed (s\<lparr> ov_service := v, ov_tasks := ov_tasks s @ ts, ov_boot := ov_boot s \<union> B \<rparr>) p"
  proof cases
    case 1
    with ov_invD(5) [OF inv a] show ?thesis by (auto simp: missed_def)
  qed (use told in \<open>auto simp: missed_def\<close>)
qed (use ov_invD [OF inv] ok auth in \<open>auto\<close>)


text \<open>A disconnection takes the peer out of both.\<close>

lemma ov_inv_leave:
  assumes inv: "ov_inv h addr_of s" and r: "service_Disconnected c (ov_service s) = (Ok (), v)"
  shows "ov_inv h addr_of
    (s\<lparr> ov_service := v,
       ov_topo := fold topology_Disconnected (notified_disconnected (ov_service s) v) (ov_topo s) \<rparr>)"
    (is "ov_inv h addr_of ?s")
proof (rule ov_invI)
  assume a: "addresses_ok h addr_of"
  note D = ov_invD [OF inv a]
  show ok: "peers_ok h addr_of (peers (ov_service ?s))"
    using service_Disconnected_peers [OF D(1) a, of c] r by simp
  have told: "notified_disconnected (ov_service s) v = [] \<or> (\<exists>p. notified_disconnected (ov_service s) v = [p])"
    using D(1) r by (cases rule: service_Disconnected_told) auto
  then show "topo_wf (ov_topo ?s)" using D(2) by (auto simp: topo_wf_Disconnected)
  show "authentic_peer h p" if "p \<in> topo_peers (ov_topo ?s)" for p
    using that told D(3) [of p] topo_peers_Disconnected [of p _ "ov_topo s"] by auto
  fix i p
  assume p: "overlays (peers (ov_service ?s)) i = Some p"
  from D(1) r show "\<not> missed ?s p"
  proof (cases rule: service_Disconnected_told)
    case kept
    with D(5) p show ?thesis by (auto simp: missed_def)
  next
    case (left q)
    with p have i: "i \<noteq> RemotePeer c" "overlays (peers (ov_service s)) i = Some p"
      by (auto split: if_splits)
    have "reg_inv addr_of (peers (ov_service s))" using D(1) by (simp add: peers_ok_def)
    from reg_invD(1) [OF this i(2)] reg_invD(1) [OF this left(1)] i(1) a
    have "EthAddress p \<noteq> EthAddress q" by (auto simp: addresses_ok_def inj_eq)
    with D(5) [OF i(2)] left(3) show ?thesis by (auto simp: missed_def intro: in_topo_Disconnected)
  qed
qed (use ov_invD(4) [OF inv] in simp)

lemma handleConnectReq_grows:
  assumes "handleConnectReq h True now c str s = (Ok (), v)"
  shows "grows_by (overlays (peers s)) (notified_connected s v) (overlays (peers v)) \<and>
    (\<forall>p \<in> set (notified_connected s v). authentic_peer h p)"
  using assms
proof (cases rule: handleConnectReq_told)
  case (admitted p r)
  obtain req where "authentic h (RemotePeer c) req p" using admitted(1) by (rule Handle_authentic)
  with admitted addPeer_grows [of "peers s" p c] show ?thesis by auto
next
  case (known p)
  then show ?thesis by (auto simp: grows_by_def addPeer_def Let_def split: if_splits)
qed (simp_all add: grows_by_def)

lemma ov_inv_step_weaker:
  assumes "ov_step h s l s'" and "ov_inv g addr_of s" and w: "weaker h g"
  shows "ov_inv g addr_of s'"
  using assms(1,2)
proof (induction rule: ov_step.induct)
  case (incoming now c str s v)
  have ok: "fst (Handle h str (RemotePeer c)) \<noteq> Panic"
    using incoming(1) by (auto simp: handleConnectReq_def)
  show ?case
  proof (cases "addresses_ok g addr_of")
    case True
    note grow = handleConnectReq_grows [OF incoming(1)]
    have "image task_peer (TConnected ` A) = A" for A by (simp add: image_image)
    with grow show ?thesis
      using ov_inv_grow [OF incoming(2), of v "notified_connected (ov_service s) v"
          "map TConnected (notified_connected (ov_service s) v)" "{}"]
        handleConnectReq_peers_weaker [OF ov_invD(1) [OF incoming(2) True] True ok w, of True now]
        incoming(1) authentic_peer_weaker [OF _ w] by simp
  qed (simp add: ov_inv_def)
next
  case (discovered net info now s r v)
  show ?case
  proof (cases "addresses_ok g addr_of")
    case True
    note grow = p2p_Connect_grows [OF ov_invD(1) [OF discovered(3) True] w discovered(2)]
    have "image task_peer (TAddPeers ` A) = A" for A by (simp add: image_image)
    with grow show ?thesis
      using ov_inv_grow [OF discovered(3), of v "connected_peer r"
          "map TAddPeers (connected_peer r)" "{}"]
        p2p_Connect_peers_weaker [OF ov_invD(1) [OF discovered(3) True] True _ w, of net info now]
        discovered(1,2) by (simp add: dial_sound_def)
  qed (simp add: ov_inv_def)
next
  case (bootstrapped net info now s r v)
  show ?case
  proof (cases "addresses_ok g addr_of")
    case True
    note grow = p2p_Connect_grows [OF ov_invD(1) [OF bootstrapped(3) True] w bootstrapped(2)]
    with ov_inv_grow [OF bootstrapped(3), of v "connected_peer r" "[]" "set (connected_peer r)"]
      p2p_Connect_peers_weaker [OF ov_invD(1) [OF bootstrapped(3) True] True _ w, of net info now]
      bootstrapped(1,2) show ?thesis by (simp add: dial_sound_def)
  qed (simp add: ov_inv_def)
next
  case (announce p s book ann po bo)
  then show ?case using ov_inv_task [of g addr_of s "TConnected p"] by simp
next
  case (add_peers p s)
  then show ?case using ov_inv_task [of g addr_of s "TAddPeers p"] by (simp add: AddPeers_def)
next
  case (disconnect c s v)
  then show ?case by (intro ov_inv_leave)
qed

lemmas ov_inv_step = ov_inv_step_weaker [OF _ _ weaker_refl]

text \<open>The invariant depends on the registry only through the providers it knows.\<close>

lemma ov_inv_weaker:
  assumes "ov_inv h addr_of s" "weaker h g" shows "ov_inv g addr_of s"
proof -
  have "addresses_ok h addr_of = addresses_ok g addr_of"
    using assms(2) by (simp add: addresses_ok_def weaker_def)
  moreover have "peers_ok h addr_of r \<Longrightarrow> peers_ok g addr_of r" for r
    using authentic_weaker [OF _ assms(2)] unfolding peers_ok_def by blast
  ultimately show ?thesis
    using assms(1) authentic_peer_weaker [OF _ assms(2)] by (simp add: ov_inv_def)
qed

lemma ov_inv_start: "ov_start s \<Longrightarrow> ov_inv h addr_of s"
  by (simp add: ov_start_def ov_inv_def missed_def peers_ok_def new_p2p_service_def
      reg_inv_new topo_wf_New) (simp add: newPeerRegistry_def)

interpretation overlay: invariant_system ov_start "ov_step h" "ov_inv h addr_of"
  for h addr_of
proof unfold_locales
  show "ov_inv h addr_of s" if "ov_start s" for s
    using that by (rule ov_inv_start)
  show "ov_inv h addr_of s'" if "ov_inv h addr_of s" "ov_step h s l s'" for s l s'
    using that(2,1) by (rule ov_inv_step)
qed


section \<open>A peer that has left\<close>

text \<open>
  A peer disconnects between its registration and the notifier's call: the topology keeps it,
  although nobody knows it any more.
\<close>

lemma departed_stays:
  fixes c :: conn
  assumes reach: "reach ov_start (ov_step h) s" and ok: "addresses_ok h addr_of"
    and hs: "fst (Handle h str (RemotePeer c)) = Ok p"
    and new: "getPeer (RemotePeer c) (peers (ov_service s)) = None"
  obtains s' where "reach ov_start (ov_step h) s'" "in_topo p (ov_topo s')"
    "getPeerID (EthAddress p) (peers (ov_service s')) = None" "mset (ov_tasks s') = mset (ov_tasks s)"
proof -
  let ?i = "RemotePeer c"
  from hs obtain req where a: "authentic h ?i req p" by (rule Handle_authentic)
  have P: "peers_ok h addr_of (peers (ov_service s))"
    using overlay.reach_inv [OF reach] ok by (rule ov_invD(1))
  then have inv: "reg_inv addr_of (peers (ov_service s))" by (simp add: peers_ok_def)
  obtain r where r: "addPeer c p (peers (ov_service s)) = (False, r)"
    and k: "knows ?i p (ov_service s\<lparr> peers := r \<rparr>)"
    using addPeer_knows [OF P ok a new] .
  obtain v where v: "handleConnectReq h True 0 c str (ov_service s) = (Ok (), v)"
    using hs r by (simp add: handleConnectReq_def)
  then have told: "peers v = r" "notified_connected (ov_service s) v = [p]"
    using hs r by (auto simp: handleConnectReq_def notified_connected_def List.map_filter_simps)
  define s1 where "s1 = s\<lparr> ov_service := v, ov_tasks := ov_tasks s @ [TConnected p] \<rparr>"
  have r1: "reach ov_start (ov_step h) s1"
    using reach_step [OF reach ov_step.incoming [OF v]] told by (simp add: s1_def)
  have "connections (peers (ov_service s)) ?i = None"
    using reg_invD(5) [OF inv] new by (simp add: getPeer_def)
  then have con: "connections r ?i = Some {conn_id c}" "overlays r ?i = Some p"
    using r by (auto simp: addPeer_def Let_def split: if_splits)
  obtain w where w: "service_Disconnected c v = (Ok (), w)"
    and gone: "underlays (peers w) (EthAddress p) = None"
    using con told(1) by (simp add: service_Disconnected_def Disconnected_def Let_def)
  define s2 where "s2 = s1\<lparr> ov_service := w,
    ov_topo := fold topology_Disconnected (notified_disconnected v w) (ov_topo s) \<rparr>"
  have r2: "reach ov_start (ov_step h) s2"
    using reach_step [OF r1, of _ s2] ov_step.disconnect [of c s1 w h] w by (simp add: s1_def s2_def)
  define s3 where "s3 = s2\<lparr> ov_topo := topology_add p (ov_topo s2),
    ov_tasks := remove1 (TConnected p) (ov_tasks s2) \<rparr>"
  have "ov_step h s2 (OvTask (TConnected p)) s3"
    using ov_step.announce [of p s2 h] by (simp add: s1_def s2_def s3_def)
  with r2 have r3: "reach ov_start (ov_step h) s3" by (rule reach_step)
  show thesis
  proof (rule that [OF r3])
    show "in_topo p (ov_topo s3)" by (simp add: s3_def in_topo_add_same)
    show "getPeerID (EthAddress p) (peers (ov_service s3)) = None"
      using gone by (simp add: s3_def s2_def getPeerID_def)
    show "mset (ov_tasks s3) = mset (ov_tasks s)"
      by (simp add: s3_def s2_def s1_def)
  qed
qed

section \<open>Peers of the topology\<close>

lemma GetPeers_inv:
  assumes "ov_inv h addr_of s" and "addresses_ok h addr_of"
    and "enumerates ord (dom (topology_map ty (ov_topo s)))" and "q \<in> set (GetPeers ty ord (ov_topo s))"
  shows "Type q = ty" and "authentic_peer h q"
proof -
  note D = ov_invD [OF assms(1,2)]
  from assms(4) obtain a where q: "topology_map ty (ov_topo s) a = Some q"
    by (auto simp: set_GetPeers [OF assms(3)] ran_def)
  then show "Type q = ty" using D(2) by (cases ty) (auto simp: topology_map_def topo_wf_def)
  have "q \<in> topo_peers (ov_topo s)" using q by (cases ty) (auto simp: topology_map_def in_topo_peers)
  with D(3) show "authentic_peer h q" .
qed

lemma GetPeers_authentic:
  assumes "reach ov_start (ov_step h) s" and "addresses_ok h addr_of"
    and "enumerates ord (dom (topology_map ty (ov_topo s)))" and "q \<in> set (GetPeers ty ord (ov_topo s))"
  shows "Type q = ty \<and> (\<exists>i req. authentic h i req q) \<and>
    (ty = PeerTypeProvider \<longrightarrow> CheckProviderRegistered h (EthAddress q))"
  using GetPeers_inv [OF overlay.reach_inv [OF assms(1)] assms(2-4)]
  by (auto simp: authentic_peer_def authentic_def)

text \<open>A peer whose handshake succeeds on a new node is announced to its topology.\<close>

lemma first_peer_announced:
  fixes c :: conn
  assumes "fst (Handle h str (RemotePeer c)) = Ok p"
  obtains s where "reach ov_start (ov_step h) s" "ov_topo s = topology_add p topology_New"
proof -
  define v where "v = snd (handleConnectReq h True 0 c str new_p2p_service)"
  define s0 where "s0 = \<lparr> ov_service = new_p2p_service, ov_topo = topology_New, ov_tasks = [], ov_boot = {} \<rparr>"
  have "handleConnectReq h True 0 c str new_p2p_service = (Ok (), v)"
    and told: "notified_connected new_p2p_service v = [p]"
    using assms by (simp_all add: v_def handleConnectReq_def addPeer_def new_p2p_service_def
        newPeerRegistry_def notified_connected_def List.map_filter_simps Let_def)
  then have "ov_step h s0 (OvIncoming c) (s0\<lparr> ov_service := v, ov_tasks := [TConnected p] \<rparr>)"
    using ov_step.incoming [of h 0 c str s0 v] by (simp add: s0_def)
  moreover have "reach ov_start (ov_step h) s0" by (rule reach_init) (simp add: s0_def ov_start_def)
  ultimately have r: "reach ov_start (ov_step h) (s0\<lparr> ov_service := v, ov_tasks := [TConnected p] \<rparr>)"
    by (auto intro: reach_step)
  show thesis
    by (rule that [OF reach_step [OF r ov_step.announce [of p]]]) (simp_all add: s0_def)
qed

end
