(* ===== verification/Staked_Overlay.thy ===== *)
theory Staked_Overlay
  imports Overlay Bid_Settlement
begin

text \<open>
  The node of \<open>Overlay\<close> with the provider registry of \<open>pkg/contracts/provider_registry\<close> on a
  chain whose state changes while the node runs. The handshake asks the registry once, when a
  provider connects; a provider that lost its stake afterwards stays connected and keeps
  getting bids. The lemmas say what is left of the check: every provider of the topology had
  the stake in some state the chain went through.
\<close>

section \<open>The node and the chain\<close>

text \<open>The handshake service of the node while the chain is in the state \<open>w\<close>.\<close>

definition checked_by ::
  "'w contract_client \<Rightarrow> handshake_service \<Rightarrow> 'w \<Rightarrow> handshake_service" where
  "checked_by r h w =
     h\<lparr> CheckProviderRegistered := (\<lambda>a. fst (registry_CheckProviderRegistered r a w) = Ok True) \<rparr>"

text \<open>
  The states of the chain so far are kept, the current one first. Either the node makes a
  step, in the current state of the chain, or the chain moves on, to any state.
\<close>

definition chain_start :: "overlay \<times> 'w list \<Rightarrow> bool" where
  "chain_start s \<longleftrightarrow> ov_start (fst s) \<and> (\<exists>w. snd s = [w])"

inductive chain_step ::
  "'w contract_client \<Rightarrow> handshake_service \<Rightarrow> overlay \<times> 'w list \<Rightarrow> overlay_label option \<Rightarrow>
     overlay \<times> 'w list \<Rightarrow> bool" for r h where
  node: "ov_step (checked_by r h w) s l s' \<Longrightarrow> chain_step r h (s, w # ws) (Some l) (s', w # ws)"
| mined: "chain_step r h (s, ws) None (s, w # ws)"

section \<open>Who was staked\<close>

text \<open>A registry that remembers: it knows whoever was staked in one of the states \<open>W\<close>.\<close>

definition ever_checked ::
  "'w contract_client \<Rightarrow> handshake_service \<Rightarrow> 'w set \<Rightarrow> handshake_service" where
  "ever_checked r h W = h\<lparr> CheckProviderRegistered := (\<lambda>a. \<exists>w \<in> W. staked r a w) \<rparr>"

lemma checked_by_weaker: "w \<in> W \<Longrightarrow> weaker (checked_by r h w) (ever_checked r h W)"
  by (auto simp: weaker_def checked_by_def ever_checked_def provider_staked)

lemma ever_checked_mono: "W \<subseteq> V \<Longrightarrow> weaker (ever_checked r h W) (ever_checked r h V)"
  by (auto simp: weaker_def ever_checked_def)

lemma addresses_ok_checked:
  "addresses_ok (ever_checked r h W) addr_of \<longleftrightarrow> addresses_ok h addr_of"
  by (simp add: addresses_ok_def ever_checked_def)

definition chain_inv ::
  "'w contract_client \<Rightarrow> handshake_service \<Rightarrow> (peer_id \<Rightarrow> address) \<Rightarrow> overlay \<times> 'w list \<Rightarrow> bool" where
  "chain_inv r h addr_of s \<longleftrightarrow> ov_inv (ever_checked r h (set (snd s))) addr_of (fst s)"

interpretation chain: invariant_system chain_start "chain_step r h" "chain_inv r h addr_of"
  for r :: "'w contract_client" and h addr_of
proof unfold_locales
  show "chain_inv r h addr_of s" if "chain_start s" for s :: "overlay \<times> 'w list"
    using ov_inv_start that unfolding chain_start_def chain_inv_def by blast
  show "chain_inv r h addr_of s'" if "chain_inv r h addr_of s" "chain_step r h s l s'" for s l s'
    using that(2,1)
  proof cases
    case (node w s l s' ws)
    with that(1) show ?thesis
      using ov_inv_step_weaker [OF node(4), of "ever_checked r h (set (w # ws))" addr_of]
        checked_by_weaker [of w "set (w # ws)" r h]
      by (simp add: chain_inv_def)
  next
    case (mined s ws w)
    from that(1) have "ov_inv (ever_checked r h (set ws)) addr_of s"
      using mined by (simp add: chain_inv_def)
    moreover have "weaker (ever_checked r h (set ws)) (ever_checked r h (set (w # ws)))"
      by (rule ever_checked_mono) auto
    ultimately have "ov_inv (ever_checked r h (set (w # ws))) addr_of s" by (rule ov_inv_weaker)
    then show ?thesis using mined by (simp add: chain_inv_def)
  qed
qed

lemma ever_checked_provider:
  assumes "authentic_peer (ever_checked r h W) q" "Type q = PeerTypeProvider"
  shows "\<exists>w \<in> W. staked r (EthAddress q) w \<and> (\<exists>i req. authentic (checked_by r h w) i req q)"
proof -
  from assms(1) obtain i req where a: "authentic (ever_checked r h W) i req q"
    by (auto simp: authentic_peer_def)
  with assms(2) obtain w where w: "w \<in> W" "staked r (EthAddress q) w"
    by (auto simp: authentic_def ever_checked_def)
  with a have "authentic (checked_by r h w) i req q"
    by (simp add: authentic_def ever_checked_def checked_by_def provider_staked)
  with w show ?thesis by blast
qed

lemma GetPeers_staked:
  assumes "reach chain_start (chain_step r h) (s, ws)" and "addresses_ok h addr_of"
    and "enumerates ord (dom (topology_map PeerTypeProvider (ov_topo s)))"
    and "q \<in> set (GetPeers PeerTypeProvider ord (ov_topo s))"
  shows "Type q = PeerTypeProvider \<and>
    (\<exists>w \<in> set ws. staked r (EthAddress q) w \<and> (\<exists>i req. authentic (checked_by r h w) i req q))"
proof -
  have "chain_inv r h addr_of (s, ws)" using assms(1) by (rule chain.reach_inv)
  then have "ov_inv (ever_checked r h (set ws)) addr_of s" by (simp add: chain_inv_def)
  from GetPeers_inv [OF this _ assms(3,4)] assms(2) show ?thesis
    by (auto simp: addresses_ok_checked intro!: ever_checked_provider)
qed

text \<open>The steps of a node on a chain at rest, and a chain that moves on afterwards.\<close>

lemma chain_reach_node:
  assumes "reach ov_start (ov_step (checked_by r h w)) s"
  shows "reach chain_start (chain_step r h) (s, [w])"
  using assms
proof (induction rule: reach.induct)
  case (reach_init s)
  then show ?case by (intro reach.reach_init) (simp add: chain_start_def)
next
  case (reach_step s l s')
  then show ?case by (blast intro: reach.reach_step node)
qed

end
