(* ===== verification/Announce.thy ===== *)
theory Announce
  imports Topo
begin

text \<open>
  \<open>Connected\<close> of \<open>pkg/topology/topology.go\<close> when peers arrive at the same time. Its lock is
  taken for one step only: to add the peer, to list the providers, to list the bidders. The
  goroutines of several arrivals interleave between these, discovery adds peers, and peers
  leave. Still every bidder hears of every provider.
\<close>

section \<open>The goroutines of Connected\<close>

datatype phase = PAdd | PProviders | PBidders

record announce =
  an_topo :: topology
  an_tasks :: "(peer \<times> phase) list"
  an_sent :: "broadcast list"
  an_started :: "peer set"
  an_left :: "address set"

definition an_start :: "announce \<Rightarrow> bool" where
  "an_start s \<longleftrightarrow>
     s = \<lparr> an_topo = topology_New, an_tasks = [], an_sent = [], an_started = {}, an_left = {} \<rparr>"

datatype announce_label =
    AnArrive peer
  | AnAdd peer
  | AnProviders peer
  | AnBidders peer
  | AnDiscovered peer
  | AnLeave peer

text \<open>A goroutine goes on to its next phase.\<close>

definition advance :: "peer \<times> phase \<Rightarrow> (peer \<times> phase) list \<Rightarrow> announce \<Rightarrow> announce" where
  "advance t next s = s\<lparr> an_tasks := next @ remove1 t (an_tasks s) \<rparr>"

inductive an_step ::
  "(peer \<Rightarrow> go_error + bytes) \<Rightarrow> announce \<Rightarrow> announce_label \<Rightarrow> announce \<Rightarrow> bool" for book where
  arrive: "an_step book s (AnArrive p)
     (s\<lparr> an_tasks := an_tasks s @ [(p, PAdd)], an_started := insert p (an_started s) \<rparr>)"
| add: "(p, PAdd) \<in> set (an_tasks s) \<Longrightarrow>
     an_step book s (AnAdd p)
       ((advance (p, PAdd) [(p, PProviders)] s)\<lparr> an_topo := topology_add p (an_topo s) \<rparr>)"
| tell_peer: "(p, PProviders) \<in> set (an_tasks s) \<Longrightarrow>
     enumerates ord (dom (providers (an_topo s))) \<Longrightarrow>
     an_step book s (AnProviders p)
       ((advance (p, PProviders) [(p, PBidders)] s)
          \<lparr> an_sent := an_sent s @
              to_peer p (known_underlays book p (GetPeers PeerTypeProvider ord (an_topo s))) \<rparr>)"
| tell_bidders: "(p, PBidders) \<in> set (an_tasks s) \<Longrightarrow>
     enumerates ord (dom (bidders (an_topo s))) \<Longrightarrow>
     an_step book s (AnBidders p)
       ((advance (p, PBidders) [] s)
          \<lparr> an_sent := an_sent s @ to_bidders book p (GetPeers PeerTypeBidder ord (an_topo s)) \<rparr>)"
| discovered: "an_step book s (AnDiscovered p) (s\<lparr> an_topo := AddPeers [p] (an_topo s) \<rparr>)"
| leave: "an_step book s (AnLeave p)
     (s\<lparr> an_topo := topology_Disconnected p (an_topo s), an_left := insert (EthAddress p) (an_left s) \<rparr>)"

text \<open>With no other step in between, the phases are \<open>Connected\<close> with an announcer.\<close>

lemma phases_are_Connected:
  assumes "enumerates po (dom (providers (topology_add p (an_topo s))))"
    and "enumerates bo (dom (bidders (topology_add p (an_topo s))))"
  obtains s' where
    "steps (an_step book) s [AnArrive p, AnAdd p, AnProviders p, AnBidders p] s'"
    "an_topo s' = fst (Connected book True po bo p (an_topo s))"
    "an_sent s' = an_sent s @ snd (Connected book True po bo p (an_topo s))"
proof -
  define s1 where "s1 = s\<lparr> an_tasks := an_tasks s @ [(p, PAdd)], an_started := insert p (an_started s) \<rparr>"
  define s2 where "s2 = (advance (p, PAdd) [(p, PProviders)] s1)\<lparr> an_topo := topology_add p (an_topo s1) \<rparr>"
  define s3 where "s3 = (advance (p, PProviders) [(p, PBidders)] s2)
    \<lparr> an_sent := an_sent s2 @
        to_peer p (known_underlays book p (GetPeers PeerTypeProvider po (an_topo s2))) \<rparr>"
  define s4 where "s4 = (advance (p, PBidders) [] s3)
    \<lparr> an_sent := an_sent s3 @ to_bidders book p (GetPeers PeerTypeBidder bo (an_topo s3)) \<rparr>"
  have "an_step book s (AnArrive p) s1" unfolding s1_def by (rule an_step.arrive)
  moreover have "an_step book s1 (AnAdd p) s2"
    unfolding s2_def by (rule an_step.add) (simp add: s1_def)
  moreover have "an_step book s2 (AnProviders p) s3"
    unfolding s3_def using assms(1)
    by (intro an_step.tell_peer) (simp_all add: s2_def s1_def advance_def)
  moreover have "an_step book s3 (AnBidders p) s4"
    unfolding s4_def using assms(2)
    by (intro an_step.tell_bidders) (simp_all add: s3_def s2_def s1_def advance_def)
  ultimately have "steps (an_step book) s [AnArrive p, AnAdd p, AnProviders p, AnBidders p] s4"
    by (blast intro: steps.intros)
  then show thesis
    by (rule that) (simp_all add: s4_def s3_def s2_def s1_def advance_def Connected_def Let_def)
qed


section \<open>Who is told\<close>

text \<open>
  A started peer that has not left is in the topology or about to be added. For a provider
  \<open>q\<close> and a bidder \<open>b\<close>: \<open>b\<close> has been told, or the goroutine of \<open>q\<close> has still to list the
  bidders, or that of \<open>b\<close> the providers.
\<close>

definition busy :: "peer \<Rightarrow> phase set \<Rightarrow> announce \<Rightarrow> bool" where
  "busy p phs s \<longleftrightarrow> (\<exists>ph \<in> phs. (p, ph) \<in> set (an_tasks s))"

definition present :: "peer \<Rightarrow> announce \<Rightarrow> bool" where
  "present p s \<longleftrightarrow> p \<in> an_started s \<and> EthAddress p \<notin> an_left s"

definition will_tell ::
  "(peer \<Rightarrow> go_error + bytes) \<Rightarrow> announce \<Rightarrow> peer \<Rightarrow> peer \<Rightarrow> bool" where
  "will_tell book s q b \<longleftrightarrow>
     (\<forall>u. book q = Inr u \<longrightarrow> told (an_sent s) (EthAddress b) q u) \<or>
     busy q {PAdd, PProviders, PBidders} s \<or> busy b {PAdd, PProviders} s"

definition an_inv :: "(peer \<Rightarrow> go_error + bytes) \<Rightarrow> announce \<Rightarrow> bool" where
  "an_inv book s \<longleftrightarrow>
     topo_wf (an_topo s) \<and>
     (\<forall>p. present p s \<longrightarrow> in_topo p (an_topo s) \<or> busy p {PAdd} s) \<and>
     (\<forall>q b. present q s \<longrightarrow> present b s \<longrightarrow> Type q = PeerTypeProvider \<longrightarrow> Type b = PeerTypeBidder \<longrightarrow>
        EthAddress q \<noteq> EthAddress b \<longrightarrow> will_tell book s q b)"

lemma an_invI:
  assumes "topo_wf (an_topo s)"
    and "\<And>p. present p s \<Longrightarrow> in_topo p (an_topo s) \<or> busy p {PAdd} s"
    and "\<And>q b. present q s \<Longrightarrow> present b s \<Longrightarrow> Type q = PeerTypeProvider \<Longrightarrow>
      Type b = PeerTypeBidder \<Longrightarrow> EthAddress q \<noteq> EthAddress b \<Longrightarrow> will_tell book s q b"
  shows "an_inv book s"
  using assms by (simp add: an_inv_def)

lemma an_invD:
  assumes "an_inv book s"
  shows "topo_wf (an_topo s)"
    and "present p s \<Longrightarrow> in_topo p (an_topo s) \<or> busy p {PAdd} s"
    and "present q s \<Longrightarrow> present b s \<Longrightarrow> Type q = PeerTypeProvider \<Longrightarrow>
      Type b = PeerTypeBidder \<Longrightarrow> EthAddress q \<noteq> EthAddress b \<Longrightarrow> will_tell book s q b"
  using assms by (simp_all add: an_inv_def)

text \<open>What remains true of the other goroutines when one goes on.\<close>

lemma busy_advance:
  assumes "busy p phs s" and "fst t \<noteq> p \<or> snd t \<notin> phs \<or> (\<exists>ph \<in> phs. (p, ph) \<in> set next)"
  shows "busy p phs (advance t next s)"
proof -
  from assms(1) obtain ph where ph: "ph \<in> phs" "(p, ph) \<in> set (an_tasks s)" by (auto simp: busy_def)
  then have "(p, ph) \<in> set (remove1 t (an_tasks s))" if "t \<noteq> (p, ph)"
    using that by (metis in_set_remove1)
  moreover have "\<exists>ph \<in> phs. (p, ph) \<in> set next" if "t = (p, ph)"
    using that ph(1) assms(2) by auto
  moreover have "an_tasks (advance t next s) = next @ remove1 t (an_tasks s)"
    by (simp add: advance_def)
  ultimately show ?thesis using ph(1) unfolding busy_def set_append by (metis UnCI set_append)
qed

lemma advance_sel [simp]:
  "an_topo (advance t next s) = an_topo s" "an_sent (advance t next s) = an_sent s"
  "an_started (advance t next s) = an_started s" "an_left (advance t next s) = an_left s"
  "present p (advance t next s) = present p s"
  by (simp_all add: advance_def present_def)

lemma busy_cong: "an_tasks s' = an_tasks s \<Longrightarrow> busy p phs s' = busy p phs s"
  by (simp add: busy_def)

lemma will_tell_mono:
  assumes "will_tell book s q b" and "set (an_sent s) \<subseteq> set (an_sent s')"
    and "busy q {PAdd, PProviders, PBidders} s \<Longrightarrow> will_tell book s' q b"
    and "busy b {PAdd, PProviders} s \<Longrightarrow> will_tell book s' q b"
  shows "will_tell book s' q b"
proof (cases "\<forall>u. book q = Inr u \<longrightarrow> told (an_sent s) (EthAddress b) q u")
  case True
  with assms(2) have "\<forall>u. book q = Inr u \<longrightarrow> told (an_sent s') (EthAddress b) q u"
    by (fastforce simp: told_def)
  then show ?thesis by (simp add: will_tell_def)
qed (use assms in \<open>auto simp: will_tell_def [of book s]\<close>)

text \<open>The broadcasts of the two phases.\<close>

lemma tells_providers:
  assumes "in_topo q (an_topo s)" "Type q = PeerTypeProvider" "EthAddress q \<noteq> EthAddress b"
    and "enumerates ord (dom (providers (an_topo s)))" and "book q = Inr u"
  shows "told (to_peer b (known_underlays book b (GetPeers PeerTypeProvider ord (an_topo s)))) (EthAddress b) q u"
proof -
  have "q \<in> set (GetPeers PeerTypeProvider ord (an_topo s))"
    using assms(1,2,4) by (auto simp: in_topo_def set_GetPeers intro: ranI)
  with assms(3,5) have "info_of q u \<in> set (known_underlays book b (GetPeers PeerTypeProvider ord (an_topo s)))"
    by (auto simp: set_known_underlays)
  then show ?thesis unfolding told_def by (force simp: in_to_peer)
qed

lemma tells_bidders:
  assumes "in_topo b (an_topo s)" "Type b = PeerTypeBidder" "Type q = PeerTypeProvider"
    and "enumerates ord (dom (bidders (an_topo s)))" and "book q = Inr u"
  shows "told (to_bidders book q (GetPeers PeerTypeBidder ord (an_topo s))) (EthAddress b) q u"
proof -
  have "b \<in> set (GetPeers PeerTypeBidder ord (an_topo s))"
    using assms(1,2,4) by (auto simp: in_topo_def set_GetPeers intro: ranI)
  with assms(3,5) show ?thesis unfolding told_def by (force simp: in_to_bidders)
qed


lemma told_right: "told ys b q u \<Longrightarrow> told (xs @ ys) b q u"
  by (simp add: told_append)

lemma an_inv_add:
  assumes inv: "an_inv book s" and t: "(p, PAdd) \<in> set (an_tasks s)"
  shows "an_inv book ((advance (p, PAdd) [(p, PProviders)] s)\<lparr> an_topo := topology_add p (an_topo s) \<rparr>)"
    (is "an_inv book ?s")
proof (rule an_invI)
  let ?a = "advance (p, PAdd) [(p, PProviders)] s"
  have busy: "busy q phs ?s = busy q phs ?a" for q phs by (rule busy_cong) simp
  have pres: "present q ?s = present q s" for q by (simp add: present_def)
  show "topo_wf (an_topo ?s)" using an_invD(1) [OF inv] by (simp add: topo_wf_add)
  show "in_topo q (an_topo ?s) \<or> busy q {PAdd} ?s" if "present q ?s" for q
  proof (cases "q = p")
    case False
    with an_invD(2) [OF inv, of q] that busy_advance [of q "{PAdd}" s "(p, PAdd)"]
      in_topo_add [of q "an_topo s" p] show ?thesis
      by (auto simp: pres busy)
  qed (simp add: in_topo_add_same)
  fix q b
  assume "present q ?s" "present b ?s" "Type q = PeerTypeProvider" "Type b = PeerTypeBidder"
    "EthAddress q \<noteq> EthAddress b"
  then have "will_tell book s q b" using an_invD(3) [OF inv] by (simp add: pres)
  then show "will_tell book ?s q b"
  proof (rule will_tell_mono)
    show "will_tell book ?s q b" if "busy q {PAdd, PProviders, PBidders} s"
      using busy_advance [OF that, of "(p, PAdd)" "[(p, PProviders)]"] by (auto simp: will_tell_def busy)
    show "will_tell book ?s q b" if "busy b {PAdd, PProviders} s"
      using busy_advance [OF that, of "(p, PAdd)" "[(p, PProviders)]"] by (auto simp: will_tell_def busy)
  qed simp
qed

text \<open>The step that lists the providers tells \<open>p\<close> of those that are there.\<close>

lemma an_inv_tell_peer:
  assumes inv: "an_inv book s" and t: "(p, PProviders) \<in> set (an_tasks s)"
    and ord: "enumerates ord (dom (providers (an_topo s)))"
  shows "an_inv book ((advance (p, PProviders) [(p, PBidders)] s)\<lparr> an_sent := an_sent s @
      to_peer p (known_underlays book p (GetPeers PeerTypeProvider ord (an_topo s))) \<rparr>)"
    (is "an_inv book ?s")
proof (rule an_invI)
  let ?a = "advance (p, PProviders) [(p, PBidders)] s"
  have busy: "busy q phs ?s = busy q phs ?a" for q phs by (rule busy_cong) simp
  have pres: "present q ?s = present q s" for q by (simp add: present_def)
  show "topo_wf (an_topo ?s)" using an_invD(1) [OF inv] by simp
  show "in_topo q (an_topo ?s) \<or> busy q {PAdd} ?s" if "present q ?s" for q
    using an_invD(2) [OF inv, of q] that busy_advance [of q "{PAdd}" s "(p, PProviders)"]
    by (auto simp: pres busy)
  fix q b
  assume qb: "present q ?s" "present b ?s" "Type q = PeerTypeProvider" "Type b = PeerTypeBidder"
    "EthAddress q \<noteq> EthAddress b"
  then have "will_tell book s q b" using an_invD(3) [OF inv] by (simp add: pres)
  then show "will_tell book ?s q b"
  proof (rule will_tell_mono)
    show q: "will_tell book ?s q b" if "busy q {PAdd, PProviders, PBidders} s"
      using busy_advance [OF that, of "(p, PProviders)" "[(p, PBidders)]"] by (auto simp: will_tell_def busy)
    show "will_tell book ?s q b" if b: "busy b {PAdd, PProviders} s"
    proof (cases "b = p")
      case False
      with busy_advance [OF b, of "(p, PProviders)" "[(p, PBidders)]"] show ?thesis
        by (auto simp: will_tell_def busy)
    next
      case True
      from an_invD(2) [OF inv, of q] qb(1) consider "in_topo q (an_topo s)" | "busy q {PAdd} s"
        by (auto simp: pres)
      then show ?thesis
      proof cases
        case 1
        from tells_providers [OF this qb(3,5) ord, of book] True show ?thesis
          by (auto simp: will_tell_def told_right)
      next
        case 2
        then have "busy q {PAdd, PProviders, PBidders} s" by (auto simp: busy_def)
        then show ?thesis by (rule q)
      qed
    qed
  qed simp
qed

text \<open>The step that lists the bidders tells those that are there of \<open>p\<close>.\<close>

lemma an_inv_tell_bidders:
  assumes inv: "an_inv book s" and t: "(p, PBidders) \<in> set (an_tasks s)"
    and ord: "enumerates ord (dom (bidders (an_topo s)))"
  shows "an_inv book ((advance (p, PBidders) [] s)\<lparr> an_sent := an_sent s @
      to_bidders book p (GetPeers PeerTypeBidder ord (an_topo s)) \<rparr>)"
    (is "an_inv book ?s")
proof (rule an_invI)
  let ?a = "advance (p, PBidders) [] s"
  have busy: "busy q phs ?s = busy q phs ?a" for q phs by (rule busy_cong) simp
  have pres: "present q ?s = present q s" for q by (simp add: present_def)
  show "topo_wf (an_topo ?s)" using an_invD(1) [OF inv] by simp
  show "in_topo q (an_topo ?s) \<or> busy q {PAdd} ?s" if "present q ?s" for q
    using an_invD(2) [OF inv, of q] that busy_advance [of q "{PAdd}" s "(p, PBidders)"]
    by (auto simp: pres busy)
  fix q b
  assume qb: "present q ?s" "present b ?s" "Type q = PeerTypeProvider" "Type b = PeerTypeBidder"
    "EthAddress q \<noteq> EthAddress b"
  then have "will_tell book s q b" using an_invD(3) [OF inv] by (simp add: pres)
  then show "will_tell book ?s q b"
  proof (rule will_tell_mono)
    show b: "will_tell book ?s q b" if "busy b {PAdd, PProviders} s"
      using busy_advance [OF that, of "(p, PBidders)" "[]"] by (auto simp: will_tell_def busy)
    show "will_tell book ?s q b" if q: "busy q {PAdd, PProviders, PBidders} s"
    proof (cases "q = p")
      case False
      with busy_advance [OF q, of "(p, PBidders)" "[]"] show ?thesis by (auto simp: will_tell_def busy)
    next
      case True
      from an_invD(2) [OF inv, of b] qb(2) consider "in_topo b (an_topo s)" | "busy b {PAdd} s"
        by (auto simp: pres)
      then show ?thesis
      proof cases
        case 1
        from tells_bidders [OF this qb(4,3) ord, of book] True show ?thesis
          by (auto simp: will_tell_def told_right)
      next
        case 2
        then have "busy b {PAdd, PProviders} s" by (auto simp: busy_def)
        then show ?thesis by (rule b)
      qed
    qed
  qed simp
qed


lemma an_inv_arrive:
  assumes inv: "an_inv book s"
  shows "an_inv book
    (s\<lparr> an_tasks := an_tasks s @ [(p, PAdd)], an_started := insert p (an_started s) \<rparr>)"
    (is "an_inv book ?s")
proof (rule an_invI)
  have busy: "busy q phs ?s \<longleftrightarrow> busy q phs s \<or> (q = p \<and> PAdd \<in> phs)" for q phs
    by (auto simp: busy_def)
  have pres: "present q s" if "present q ?s" "q \<noteq> p" for q
    using that by (simp add: present_def)
  show "topo_wf (an_topo ?s)" using an_invD(1) [OF inv] by simp
  show "in_topo q (an_topo ?s) \<or> busy q {PAdd} ?s" if "present q ?s" for q
    using an_invD(2) [OF inv, of q] pres [OF that] by (cases "q = p") (auto simp: busy)
  fix q b
  assume "present q ?s" "present b ?s" "Type q = PeerTypeProvider" "Type b = PeerTypeBidder"
    "EthAddress q \<noteq> EthAddress b"
  then show "will_tell book ?s q b"
    using an_invD(3) [OF inv, of q b] pres [of q] pres [of b]
    by (cases "q = p \<or> b = p") (auto simp: will_tell_def busy)
qed

text \<open>A change of the topology that keeps the peers that are present.\<close>

lemma an_inv_topo:
  assumes inv: "an_inv book s" and wf: "topo_wf t" and left: "an_left s \<subseteq> left"
    and keep: "\<And>q. in_topo q (an_topo s) \<Longrightarrow> EthAddress q \<notin> left \<Longrightarrow> in_topo q t"
  shows "an_inv book (s\<lparr> an_topo := t, an_left := left \<rparr>)"
    (is "an_inv book ?s")
proof (rule an_invI)
  have busy: "busy q phs ?s = busy q phs s" for q phs by (rule busy_cong) simp
  have pres: "present q s" "EthAddress q \<notin> left" if "present q ?s" for q
    using that left by (auto simp: present_def)
  show "topo_wf (an_topo ?s)" using wf by simp
  show "in_topo q (an_topo ?s) \<or> busy q {PAdd} ?s" if "present q ?s" for q
    using an_invD(2) [OF inv pres(1) [OF that]] keep [of q] pres(2) [OF that] by (auto simp: busy)
  fix q b
  assume "present q ?s" "present b ?s" "Type q = PeerTypeProvider" "Type b = PeerTypeBidder"
    "EthAddress q \<noteq> EthAddress b"
  then show "will_tell book ?s q b"
    using an_invD(3) [OF inv, of q b] pres(1) by (auto simp: will_tell_def busy)
qed

lemma an_inv_step: "an_step book s l s' \<Longrightarrow> an_inv book s \<Longrightarrow> an_inv book s'"
proof (induction rule: an_step.induct)
  case (arrive s p)
  then show ?case by (rule an_inv_arrive)
next
  case (add p s)
  from add(2,1) show ?case by (rule an_inv_add)
next
  case (tell_peer p s ord)
  from tell_peer(3,1,2) show ?case by (rule an_inv_tell_peer)
next
  case (tell_bidders p s ord)
  from tell_bidders(3,1,2) show ?case by (rule an_inv_tell_bidders)
next
  case (discovered s p)
  then show ?case
    using an_inv_topo [OF discovered, of "topology_add p (an_topo s)" "an_left s"]
    by (simp add: AddPeers_def topo_wf_add an_invD(1) in_topo_add)
next
  case (leave s p)
  then show ?case
    using an_inv_topo [OF leave, of "topology_Disconnected p (an_topo s)" "insert (EthAddress p) (an_left s)"]
    by (auto simp: topo_wf_Disconnected an_invD(1) in_topo_Disconnected)
qed

interpretation announcing: invariant_system an_start "an_step book" "an_inv book"
  for book
proof unfold_locales
  show "an_inv book s" if "an_start s" for s
    using that by (intro an_invI) (simp_all add: an_start_def topo_wf_New present_def)
  show "an_inv book s'" if "an_inv book s" "an_step book s l s'" for s l s'
    using that(2,1) by (rule an_inv_step)
qed

text \<open>When the two goroutines have ended, the bidder has been told of the provider.\<close>

lemma all_told:
  assumes "reach an_start (an_step book) s" and "present q s" "present b s"
    and "Type q = PeerTypeProvider" "Type b = PeerTypeBidder" "EthAddress q \<noteq> EthAddress b"
    and "book q = Inr u" and "\<And>ph. (q, ph) \<notin> set (an_tasks s)" "\<And>ph. (b, ph) \<notin> set (an_tasks s)"
  shows "told (an_sent s) (EthAddress b) q u"
proof -
  have "an_inv book s" using assms(1) by (rule announcing.reach_inv)
  from an_invD(3) [OF this assms(2-6)] assms(7-9) show ?thesis
    by (auto simp: will_tell_def busy_def)
qed

text \<open>
  What is sent: every broadcast goes to a peer that started and announces providers with the
  underlay of the addressbook.
\<close>

definition broadcast_ok :: "(peer \<Rightarrow> go_error + bytes) \<Rightarrow> broadcast \<Rightarrow> bool" where
  "broadcast_ok book b \<longleftrightarrow>
     snd b \<noteq> [] \<and> (\<forall>i \<in> set (snd b). \<exists>q u. Type q = PeerTypeProvider \<and> book q = Inr u \<and> i = info_of q u)"

lemma sent_ok_step:
  assumes "an_step book s l s'" "an_inv book s" "\<forall>b \<in> set (an_sent s). broadcast_ok book b"
  shows "\<forall>b \<in> set (an_sent s'). broadcast_ok book b"
  using assms
proof (induction rule: an_step.induct)
  case (tell_peer p s ord)
  have "Type q = PeerTypeProvider" if "q \<in> set (GetPeers PeerTypeProvider ord (an_topo s))" for q
    using that tell_peer(2) an_invD(1) [OF tell_peer(3)]
    by (auto simp: set_GetPeers ran_def topo_wf_def)
  then have "broadcast_ok book (p, known_underlays book p (GetPeers PeerTypeProvider ord (an_topo s)))"
    if "known_underlays book p (GetPeers PeerTypeProvider ord (an_topo s)) \<noteq> []"
    using that by (auto simp: broadcast_ok_def set_known_underlays) blast
  with tell_peer(4) show ?case by (auto simp: in_to_peer)
next
  case (tell_bidders p s ord)
  then show ?case by (auto simp: in_to_bidders broadcast_ok_def) blast
qed (simp_all add: advance_def)

lemma sent_ok:
  assumes "reach an_start (an_step book) s"
  shows "\<forall>b \<in> set (an_sent s). broadcast_ok book b"
  using assms
proof (induction rule: reach.induct)
  case (reach_step s l s')
  then show ?case using sent_ok_step announcing.reach_inv by blast
qed (simp add: an_start_def)

end
