(* ===== verification/Metrics.thy ===== *)
theory Metrics
  imports Go_Std "HOL-Library.Multiset"
begin

text \<open>
  The \<open>metrics.go\<close> files and the metrics part of \<open>pkg/apiserver/api.go\<close> and
  \<open>pkg/node/node.go\<close>: the collectors of each component and the order in which a node of each
  type registers them. The registry refuses a second collector of one name and
  \<open>MustRegister\<close> panics then; the lemmas show that a node's registrations do not.
\<close>

section \<open>The prometheus library\<close>

datatype metric_kind = Counter | Gauge

record collector =
  co_kind :: metric_kind
  co_Namespace :: string
  co_Subsystem :: string
  co_Name :: string

text \<open>
  The library as a parameter: how it builds a name from its parts, what its \<open>Register\<close> answers
  and leaves for a name, and the names a registry holds.
\<close>

record 'r prom_lib =
  BuildFQName :: "string \<Rightarrow> string \<Rightarrow> string \<Rightarrow> string"
  Register :: "string \<Rightarrow> 'r \<Rightarrow> go_error option \<times> 'r"
  reg_names :: "'r \<Rightarrow> string set"
  NewRegistry :: 'r

text \<open>
  What its documentation says: the parts that are not empty are joined by underscores; a name
  has letters, digits, underscores and colons and does not begin with a digit; a second
  collector of one name is an error, and nothing else is.
\<close>

definition join_parts :: "string \<Rightarrow> string \<Rightarrow> string \<Rightarrow> string" where
  "join_parts namespace subsystem name =
     (if name = [] then []
      else (if namespace \<noteq> [] then namespace @ ''_'' else []) @
           (if subsystem \<noteq> [] then subsystem @ ''_'' else []) @ name)"

definition name_start :: "char \<Rightarrow> bool" where
  "name_start c \<longleftrightarrow>
     (of_char c :: nat) \<in> {65..90} \<union> {97..122} \<or> c = CHR ''_'' \<or> c = CHR '':''"

definition valid_name :: "string \<Rightarrow> bool" where
  "valid_name s \<longleftrightarrow>
     (case s of [] \<Rightarrow> False
      | c # cs \<Rightarrow> name_start c \<and> list_all (\<lambda>d. name_start d \<or> (of_char d :: nat) \<in> {48..57}) cs)"

definition prom_ok :: "'r prom_lib \<Rightarrow> bool" where
  "prom_ok P \<longleftrightarrow>
     (\<forall>ns sub n. BuildFQName P ns sub n = join_parts ns sub n) \<and>
     (\<forall>n r. valid_name n \<longrightarrow> n \<notin> reg_names P r \<longrightarrow>
        (\<exists>r'. Register P n r = (None, r') \<and> reg_names P r' = insert n (reg_names P r))) \<and>
     (\<forall>n r. \<not> valid_name n \<or> n \<in> reg_names P r \<longrightarrow> fst (Register P n r) \<noteq> None) \<and>
     reg_names P (NewRegistry P) = {}"

lemma prom_okD:
  "prom_ok P \<Longrightarrow> valid_name n \<Longrightarrow> n \<notin> reg_names P r \<Longrightarrow>
     \<exists>r'. Register P n r = (None, r') \<and> reg_names P r' = insert n (reg_names P r)"
  by (simp add: prom_ok_def)

text \<open>The documented behaviour can be had.\<close>

definition set_prom :: "string set prom_lib" where
  "set_prom =
     \<lparr> BuildFQName = join_parts,
       Register = (\<lambda>n r. if valid_name n \<and> n \<notin> r then (None, insert n r)
                         else (Some (Err_Lib ''duplicate or invalid''), r)),
       reg_names = id, NewRegistry = {} \<rparr>"

lemma set_prom_ok: "prom_ok set_prom"
  by (simp add: prom_ok_def set_prom_def)

definition co_FQName :: "'r prom_lib \<Rightarrow> collector \<Rightarrow> string" where
  "co_FQName P c = BuildFQName P (co_Namespace c) (co_Subsystem c) (co_Name c)"

text \<open>\<open>MustRegister\<close> registers its collectors in order and panics at the first error.\<close>

fun MustRegister :: "'r prom_lib \<Rightarrow> string list \<Rightarrow> ('r, unit) act" where
  "MustRegister P [] = aret ()"
| "MustRegister P (n # ns) =
     (\<lambda>r. case Register P n r of
            (Some _, r') \<Rightarrow> (Panic, r')
          | (None, r') \<Rightarrow> MustRegister P ns r')"

lemma MustRegister_append:
  "MustRegister P (ms @ ns) r = abind (MustRegister P ms) (\<lambda>_. MustRegister P ns) r"
  by (induction ms arbitrary: r) (auto simp: abind_def split: prod.splits option.splits)

lemma MustRegister_Ok:
  assumes "prom_ok P" "list_all valid_name ns" "distinct ns" "set ns \<inter> reg_names P r = {}"
  shows "\<exists>r'. MustRegister P ns r = (Ok (), r') \<and> reg_names P r' = reg_names P r \<union> set ns"
  using assms(2-4)
proof (induction ns arbitrary: r)
  case (Cons n ns)
  then obtain r' where r': "Register P n r = (None, r')" "reg_names P r' = insert n (reg_names P r)"
    using prom_okD [OF assms(1), of n r] by auto
  with Cons.prems Cons.IH [of r'] show ?case by auto
qed simp

section \<open>The collectors of the components\<close>

definition defaultNamespace :: string where
  "defaultNamespace = ''mev_commit''"

definition NewCounter :: "string \<Rightarrow> string \<Rightarrow> collector" where
  "NewCounter subsystem name =
     \<lparr> co_kind = Counter, co_Namespace = defaultNamespace, co_Subsystem = subsystem, co_Name = name \<rparr>"

definition NewGauge :: "string \<Rightarrow> string \<Rightarrow> collector" where
  "NewGauge subsystem name =
     \<lparr> co_kind = Gauge, co_Namespace = defaultNamespace, co_Subsystem = subsystem, co_Name = name \<rparr>"

definition evmclient_metrics :: "collector list" where
  "evmclient_metrics =
     [NewCounter [] ''attempted_tx_count'', NewCounter [] ''sent_tx_count'',
      NewCounter [] ''successful_tx_count'', NewCounter [] ''cancelled_tx_count'',
      NewCounter [] ''failed_tx_count'', NewCounter [] ''not_found_during_cancel_count'',
      NewGauge [] ''last_used_nonce'', NewGauge [] ''last_confirmed_nonce'',
      NewGauge [] ''current_block_number'', NewGauge [] ''get_receipt_batch_operation_time_ms'']"

definition libp2p_metrics :: "collector list" where
  "libp2p_metrics =
     [NewCounter ''libp2p'' ''blocked_peer_count'', NewCounter ''libp2p'' ''rejected_connection_count'',
      NewCounter ''libp2p'' ''failed_incoming_handshake_count'',
      NewCounter ''libp2p'' ''failed_outgoing_handshake_count'']"

definition topology_metrics :: "collector list" where
  "topology_metrics =
     [NewGauge ''topology'' ''connected_bidders_count'', NewGauge ''topology'' ''connected_providers_count'']"

definition preconf_metrics :: "collector list" where
  "preconf_metrics =
     [NewCounter ''preconfirmation'' ''sent_bids_count'',
      NewCounter ''preconfirmation'' ''received_preconfs_count'']"

definition providerapi_metrics :: "collector list" where
  "providerapi_metrics =
     [NewCounter ''provider_api'' ''bids_sent_to_provider_count'',
      NewCounter ''provider_api'' ''bids_accepted_by_provider_count'',
      NewCounter ''provider_api'' ''bids_rejected_by_provider_count'']"

definition bidderapi_metrics :: "collector list" where
  "bidderapi_metrics =
     [NewCounter ''bidder_api'' ''received_bids_count'', NewCounter ''bidder_api'' ''received_preconfs_count'']"

text \<open>The \<open>info\<close> gauge; its version is a constant label, which is not part of the name.\<close>

definition info_metric :: collector where
  "info_metric = NewGauge [] ''info''"

section \<open>The registrations of a node\<close>

text \<open>
  \<open>process\<close>, \<open>runtime\<close> and \<open>rcmgr\<close> are the names of the collectors of the two libraries: the
  process and Go collectors of prometheus and the resource manager of libp2p.
\<close>

definition apiserver_newMetrics :: "'r prom_lib \<Rightarrow> string list \<Rightarrow> string list \<Rightarrow> ('r, unit) act" where
  "apiserver_newMetrics P process runtime =
     MustRegister P (process @ runtime @ [co_FQName P info_metric])"

definition RegisterMetricsCollectors :: "'r prom_lib \<Rightarrow> collector list \<Rightarrow> ('r, unit) act" where
  "RegisterMetricsCollectors P cs = MustRegister P (map (co_FQName P) cs)"

definition libp2p_newMetrics :: "'r prom_lib \<Rightarrow> string list \<Rightarrow> ('r, unit) act" where
  "libp2p_newMetrics P rcmgr =
     abind (MustRegister P rcmgr) (\<lambda>_. RegisterMetricsCollectors P libp2p_metrics)"

definition role_metrics :: "'r prom_lib \<Rightarrow> string \<Rightarrow> ('r, unit) act" where
  "role_metrics P peerType =
     (if peerType = ''provider''
      then abind (RegisterMetricsCollectors P providerapi_metrics)
             (\<lambda>_. RegisterMetricsCollectors P preconf_metrics)
      else if peerType = ''bidder''
      then abind (RegisterMetricsCollectors P preconf_metrics)
             (\<lambda>_. RegisterMetricsCollectors P bidderapi_metrics)
      else aret ())"

definition node_metrics ::
  "'r prom_lib \<Rightarrow> string list \<Rightarrow> string list \<Rightarrow> string list \<Rightarrow> string \<Rightarrow> ('r, unit) act" where
  "node_metrics P process runtime rcmgr peerType =
     abind (apiserver_newMetrics P process runtime) (\<lambda>_.
     abind (RegisterMetricsCollectors P evmclient_metrics) (\<lambda>_.
     abind (libp2p_newMetrics P rcmgr) (\<lambda>_.
     abind (RegisterMetricsCollectors P topology_metrics) (\<lambda>_. role_metrics P peerType))))"

section \<open>No registration panics\<close>

definition role_collectors :: "string \<Rightarrow> collector list" where
  "role_collectors peerType =
     (if peerType = ''provider'' then providerapi_metrics @ preconf_metrics
      else if peerType = ''bidder'' then preconf_metrics @ bidderapi_metrics
      else [])"

definition own_collectors :: "string \<Rightarrow> collector list" where
  "own_collectors peerType =
     info_metric # evmclient_metrics @ libp2p_metrics @ topology_metrics @ role_collectors peerType"

text \<open>The registrations in sequence are one registration of all names.\<close>

lemma MustRegister_seq: "abind (MustRegister P ms) (\<lambda>_. MustRegister P ns) = MustRegister P (ms @ ns)"
  by (simp add: fun_eq_iff MustRegister_append)

lemma node_metrics_names:
  "node_metrics P process runtime rcmgr peerType =
     MustRegister P (process @ runtime @ co_FQName P info_metric # map (co_FQName P) evmclient_metrics @
       rcmgr @ map (co_FQName P) (libp2p_metrics @ topology_metrics @ role_collectors peerType))"
proof -
  have "role_metrics P peerType = MustRegister P (map (co_FQName P) (role_collectors peerType))"
    by (simp add: role_metrics_def role_collectors_def RegisterMetricsCollectors_def MustRegister_seq)
  then show ?thesis
    by (simp add: node_metrics_def apiserver_newMetrics_def libp2p_newMetrics_def
        RegisterMetricsCollectors_def MustRegister_seq)
qed

lemmas collector_defs =
  info_metric_def evmclient_metrics_def libp2p_metrics_def topology_metrics_def preconf_metrics_def
  providerapi_metrics_def bidderapi_metrics_def NewCounter_def NewGauge_def defaultNamespace_def
  join_parts_def

lemma own_names:
  assumes "prom_ok P"
  shows "distinct (map (co_FQName P) (own_collectors peerType))"
    and "list_all valid_name (map (co_FQName P) (own_collectors peerType))"
proof -
  have fq: "co_FQName P c = join_parts (co_Namespace c) (co_Subsystem c) (co_Name c)" for c
    using assms by (simp add: prom_ok_def co_FQName_def)
  show "distinct (map (co_FQName P) (own_collectors peerType))"
    and "list_all valid_name (map (co_FQName P) (own_collectors peerType))"
    by (cases "peerType = ''provider''"; cases "peerType = ''bidder''";
        simp add: own_collectors_def role_collectors_def fq collector_defs valid_name_def name_start_def)+
qed

text \<open>
  When the libraries' names are valid, all different and none of the node's own, no
  registration of a node panics and exactly these names are registered.
\<close>

lemma node_metrics_Ok:
  assumes P: "prom_ok P" and lib: "list_all valid_name (process @ runtime @ rcmgr)"
      "distinct (process @ runtime @ rcmgr)"
      "set (process @ runtime @ rcmgr) \<inter> co_FQName P ` set (own_collectors peerType) = {}"
  shows "\<exists>r. node_metrics P process runtime rcmgr peerType (NewRegistry P) = (Ok (), r) \<and>
    reg_names P r = set (process @ runtime @ rcmgr) \<union> co_FQName P ` set (own_collectors peerType)"
proof -
  let ?own = "map (co_FQName P) (own_collectors peerType)"
  let ?all = "process @ runtime @ co_FQName P info_metric # map (co_FQName P) evmclient_metrics @
    rcmgr @ map (co_FQName P) (libp2p_metrics @ topology_metrics @ role_collectors peerType)"
  have "mset ?all = mset ((process @ runtime @ rcmgr) @ ?own)" by (simp add: own_collectors_def)
  then have all: "set ?all = set ((process @ runtime @ rcmgr) @ ?own)"
    and "distinct ?all \<longleftrightarrow> distinct ((process @ runtime @ rcmgr) @ ?own)"
    by (metis mset_eq_setD, metis mset_eq_imp_distinct_iff)
  moreover have "distinct ((process @ runtime @ rcmgr) @ ?own)"
    using lib(2,3) own_names(1) [OF P] by (subst distinct_append) simp
  moreover from all have "list_all valid_name ?all"
    using lib(1) own_names(2) [OF P, of peerType] by (simp only: list_all_iff) auto
  moreover have "reg_names P (NewRegistry P) = {}" using P by (simp add: prom_ok_def)
  ultimately have "\<exists>r. MustRegister P ?all (NewRegistry P) = (Ok (), r) \<and> reg_names P r = set ?all"
    using MustRegister_Ok [OF P, of ?all "NewRegistry P"] by simp
  then show ?thesis using all by (simp add: node_metrics_names Un_assoc)
qed

end
