(* ===== verification/Http_Std.thy ===== *)
theory Http_Std
  imports Go_Std
begin

text \<open>
  What the HTTP API uses of Go's standard library: \<open>encoding/json\<close> (encoding) and the
  response writer of \<open>net/http\<close>.
\<close>

section \<open>encoding/json\<close>

text \<open>
  A struct is an object in field order, a map an object in key order. The texts the API
  encodes are ASCII; \<open><\<close>, \<open>>\<close> and \<open>&\<close> are escaped, as \<open>Encoder\<close> does by default.
\<close>

datatype json =
    JNull
  | JNum int
  | JStr string
  | JArr "json list"
  | JObj "(string \<times> json) list"

definition json_hex :: "nat \<Rightarrow> string" where
  "json_hex n = [CHR 0x5C] @ ''u00'' @ [hex_digit (n div 16), hex_digit (n mod 16)]"

definition json_char :: "char \<Rightarrow> string" where
  "json_char c =
     (let n = (of_char c :: nat)
      in if n = 34 \<or> n = 92 then [CHR 0x5C, c]
         else if n = 10 then [CHR 0x5C, CHR ''n''] else if n = 13 then [CHR 0x5C, CHR ''r''] else if n = 9 then [CHR 0x5C, CHR ''t'']
         else if n < 32 \<or> n = 60 \<or> n = 62 \<or> n = 38 then json_hex n
         else [c])"

definition json_quote :: "string \<Rightarrow> string" where
  "json_quote s = [CHR 0x22] @ concat (map json_char s) @ [CHR 0x22]"

fun json_text :: "json \<Rightarrow> string" where
  "json_text JNull = ''null''"
| "json_text (JNum i) = show_int i"
| "json_text (JStr s) = json_quote s"
| "json_text (JArr js) = ''['' @ join_with '','' (map json_text js) @ '']''"
| "json_text (JObj fs) =
     ''{'' @ join_with '','' (map (\<lambda>(k, j). json_quote k @ '':'' @ json_text j) fs) @ ''}''"

text \<open>\<open>Encode\<close> ends the value with a newline.\<close>

definition json_Encode :: "json \<Rightarrow> string" where
  "json_Encode j = json_text j @ [CHR 0x0A]"

section \<open>http.ResponseWriter\<close>

text \<open>
  A handler is what it does to its writer, in order. The header that is sent is the one at
  the first \<open>WriteHeader\<close>; a write without one sends status 200; later calls of
  \<open>WriteHeader\<close> and later changes of the header have no effect.
\<close>

datatype w_op = SetHeader string string | WriteStatus nat | WriteBody string

record response =
  rw_hdr :: "string \<rightharpoonup> string"
  rw_sent :: "(nat \<times> (string \<rightharpoonup> string)) option"
  rw_body :: string

definition new_response :: response where
  "new_response = \<lparr> rw_hdr = Map.empty, rw_sent = None, rw_body = [] \<rparr>"

definition send_status :: "nat \<Rightarrow> response \<Rightarrow> response" where
  "send_status code w =
     (if rw_sent w = None then w\<lparr> rw_sent := Some (code, rw_hdr w) \<rparr> else w)"

fun w_run :: "w_op \<Rightarrow> response \<Rightarrow> response" where
  "w_run (SetHeader k v) w = w\<lparr> rw_hdr := (rw_hdr w)(k \<mapsto> v) \<rparr>"
| "w_run (WriteStatus code) w = send_status code w"
| "w_run (WriteBody s) w = (let w' = send_status 200 w in w'\<lparr> rw_body := rw_body w' @ s \<rparr>)"

definition respond :: "w_op list \<Rightarrow> response" where
  "respond ops = fold w_run ops new_response"

text \<open>A handler that returns without having written anything answers 200.\<close>

definition status_of :: "response \<Rightarrow> nat" where
  "status_of w = (case rw_sent w of None \<Rightarrow> 200 | Some (code, _) \<Rightarrow> code)"

definition sent_header :: "response \<Rightarrow> string \<Rightarrow> string option" where
  "sent_header w = (case rw_sent w of None \<Rightarrow> rw_hdr w | Some (_, h) \<Rightarrow> h)"

record http_req =
  rq_Method :: string
  rq_Path :: string

type_synonym handler = "http_req \<Rightarrow> w_op list"

definition StatusOK :: nat where "StatusOK = 200"
definition StatusMethodNotAllowed :: nat where "StatusMethodNotAllowed = 405"
definition StatusInternalServerError :: nat where "StatusInternalServerError = 500"
definition StatusBadGateway :: nat where "StatusBadGateway = 502"

lemmas status_codes =
  StatusOK_def StatusMethodNotAllowed_def StatusInternalServerError_def StatusBadGateway_def

text \<open>\<open>http.Error\<close> sends a status with a text.\<close>

definition http_Error :: "string \<Rightarrow> nat \<Rightarrow> w_op list" where
  "http_Error msg code =
     [SetHeader ''Content-Type'' ''text/plain; charset=utf-8'',
      SetHeader ''X-Content-Type-Options'' ''nosniff'', WriteStatus code,
      WriteBody (msg @ [CHR 0x0A])]"

section \<open>The status that is sent\<close>

fun first_status :: "w_op list \<Rightarrow> nat" where
  "first_status [] = 200"
| "first_status (SetHeader _ _ # ops) = first_status ops"
| "first_status (WriteStatus code # ops) = code"
| "first_status (WriteBody _ # ops) = 200"

lemma sent_stays: "rw_sent w = Some x \<Longrightarrow> rw_sent (fold w_run ops w) = Some x"
proof (induction ops arbitrary: w)
  case (Cons op ops)
  then show ?case by (cases op) (simp_all add: send_status_def Let_def)
qed simp

lemma status_of_respond: "status_of (respond ops) = first_status ops"
proof -
  have "status_of (fold w_run ops w) = first_status ops" if "rw_sent w = None" for w
    using that
  proof (induction ops arbitrary: w rule: first_status.induct)
    case (3 code ops)
    then have "rw_sent (fold w_run ops (w\<lparr> rw_sent := Some (code, rw_hdr w) \<rparr>)) = Some (code, rw_hdr w)"
      by (intro sent_stays) simp
    with 3 show ?case by (simp add: status_of_def send_status_def)
  next
    case (4 s ops)
    let ?w = "w\<lparr> rw_sent := Some (200, rw_hdr w), rw_body := rw_body w @ s \<rparr>"
    have "rw_sent (fold w_run ops ?w) = Some (200, rw_hdr w)" by (intro sent_stays) simp
    with 4 show ?case by (simp add: status_of_def send_status_def Let_def)
  qed (simp_all add: status_of_def)
  then show ?thesis by (simp add: respond_def new_response_def)
qed

fun bodies :: "w_op list \<Rightarrow> string" where
  "bodies [] = []"
| "bodies (WriteBody s # ops) = s @ bodies ops"
| "bodies (_ # ops) = bodies ops"

lemma body_respond: "rw_body (respond ops) = bodies ops"
proof -
  have "rw_body (fold w_run ops w) = rw_body w @ bodies ops" for w
    by (induction ops arbitrary: w rule: bodies.induct) (simp_all add: send_status_def Let_def)
  then show ?thesis by (simp add: respond_def new_response_def)
qed

end
