(* ===== verification/P2p_Host.thy ===== *)
theory P2p_Host
  imports P2p_Service Launcher Http_Std Key_Files
begin

text \<open>
  The construction of the p2p service (\<open>New\<close> and \<open>Self\<close> of \<open>pkg/p2p/libp2p/libp2p.go\<close>)
  and \<open>address.go\<close>. The libp2p host, its managers and multiaddresses are libraries: their
  answers are an environment. The lemmas show that the signer's key is fetched first and
  \<open>ZeroPrivateKey\<close> called last on every path, that the external address of the command line
  reaches the host, and that the address of the node's peer id is the address of its key.
\<close>

section \<open>net.SplitHostPort\<close>

text \<open>The text before and after the last colon.\<close>

definition split_last :: "char \<Rightarrow> string \<Rightarrow> (string \<times> string) option" where
  "split_last c s =
     (if c \<notin> set s then None
      else let port = rev (takeWhile (\<lambda>x. x \<noteq> c) (rev s))
           in Some (take (length s - length port - 1) s, port))"

definition addr_err :: "string \<Rightarrow> 'a outcome" where
  "addr_err why = Fail (Err_Lib why)"

definition SplitHostPort :: "string \<Rightarrow> (string \<times> string) outcome" where
  "SplitHostPort hostport =
     (case split_last CHR '':'' hostport of
        None \<Rightarrow> addr_err ''missing port in address''
      | Some (before, port) \<Rightarrow>
          if hd hostport = CHR ''['' then
            (let inner = takeWhile (\<lambda>x. x \<noteq> CHR '']'') (tl hostport);
                 rest = drop (length inner + 2) hostport
             in if CHR '']'' \<notin> set hostport then addr_err ''missing ']' in address''
                else if rest = [] then addr_err ''missing port in address''
                else if length inner + 2 \<noteq> length before
                then (if hd rest = CHR '':'' then addr_err ''too many colons in address''
                      else addr_err ''missing port in address'')
                else if CHR ''['' \<in> set (tl hostport) then addr_err ''unexpected '[' in address''
                else if CHR '']'' \<in> set rest then addr_err ''unexpected ']' in address''
                else Ok (inner, port))
          else if CHR '':'' \<in> set before then addr_err ''too many colons in address''
          else if CHR ''['' \<in> set hostport then addr_err ''unexpected '[' in address''
          else if CHR '']'' \<in> set hostport then addr_err ''unexpected ']' in address''
          else Ok (before, port))"

section \<open>address.go\<close>

text \<open>
  The public key inside a peer id and its decompression are libraries. \<open>pbBytes[1:]\<close> panics
  on an empty encoding and \<open>[12:]\<close> on a hash shorter than that.
\<close>

record 'pub id_lib =
  ExtractPublicKey :: "peer_id \<Rightarrow> go_error + bytes"
  DecompressPubkey :: "bytes \<Rightarrow> go_error + 'pub"

definition GetEthAddressFromPubKey :: "('key, 'pub) eth_lib \<Rightarrow> 'pub \<Rightarrow> address outcome" where
  "GetEthAddressFromPubKey C key =
     (let pbBytes = from_ecdsa_pub C key
      in if pbBytes = [] then Panic
         else let hash = keccak256 C (tl pbBytes)
              in if length hash < 12 then Panic else Ok (Address (drop 12 hash)))"

definition GetEthAddressFromPeerID ::
  "('key, 'pub) eth_lib \<Rightarrow> 'pub id_lib \<Rightarrow> peer_id \<Rightarrow> address outcome" where
  "GetEthAddressFromPeerID C L peerID =
     obind (of_sum (ExtractPublicKey L peerID)) (\<lambda>pubKeyBytes.
     obind (of_sum (DecompressPubkey L pubKeyBytes)) (\<lambda>pbDcom.
       GetEthAddressFromPubKey C pbDcom))"

text \<open>
  The handshake's \<open>getEthAddress\<close>. A public key whose encoding is empty does not occur.
\<close>

definition getEthAddress_of ::
  "('key, 'pub) eth_lib \<Rightarrow> 'pub id_lib \<Rightarrow> peer_id \<Rightarrow> go_error + address" where
  "getEthAddress_of C L i =
     (case GetEthAddressFromPeerID C L i of
        Ok a \<Rightarrow> Inr a | Fail e \<Rightarrow> Inl e | Panic \<Rightarrow> Inl (Err_Lib ''panic''))"

section \<open>New\<close>

datatype host_event =
    KeyFetched
  | ZeroKeyCalled
  | HostStarted string "string option"
  | HandlersSet
  | BootstrapStarted "string list"

text \<open>
  \<open>KeyFetched\<close> and \<open>ZeroKeyCalled\<close> are the calls of \<open>GetPrivateKey\<close> and \<open>ZeroPrivateKey\<close>;
  what the second does is the signer's own business (\<open>pks_ZeroPrivateKey\<close>,
  \<open>kss_ZeroPrivateKey\<close>). \<open>he_New\<close> is \<open>libp2p.New\<close> with the identity, the listen address and the external
  address; it returns the host's peer id.
\<close>

record ('key, 'lk) host_env =
  he_GetPrivateKey :: "go_error + 'key"
  he_D :: "'key \<Rightarrow> nat"
  he_Unmarshal :: "bytes \<Rightarrow> go_error + 'lk"
  he_ConnManager :: "go_error option"
  he_Peerstore :: "go_error option"
  he_StatsReporter :: "go_error option"
  he_ResourceManager :: "go_error option"
  he_NewMultiaddr :: "string \<Rightarrow> go_error option"
  he_New :: "'lk \<Rightarrow> string \<Rightarrow> string option \<Rightarrow> go_error + peer_id"

record host_options =
  ho_PeerType :: peer_type
  ho_Secret :: string
  ho_ListenPort :: int
  ho_ListenAddr :: string
  ho_BootstrapAddrs :: "string list"
  ho_NatAddr :: string

record host_service =
  hv_ethAddress :: address
  hv_peerType :: peer_type
  hv_hostID :: peer_id
  hv_hsSvc :: handshake_service
  hv_service :: p2p_service

definition multiaddr_text :: "string \<Rightarrow> string \<Rightarrow> string" where
  "multiaddr_text host port = ''/ip4/'' @ host @ ''/tcp/'' @ port"

definition nat_multiaddr :: "('key, 'lk) host_env \<Rightarrow> string \<Rightarrow> string option outcome" where
  "nat_multiaddr E natAddr =
     (if natAddr = [] then Ok None
      else obind (SplitHostPort natAddr) (\<lambda>(addr, port).
             case he_NewMultiaddr E (multiaddr_text addr port) of
               Some err \<Rightarrow> Fail err
             | None \<Rightarrow> Ok (Some (multiaddr_text addr port))))"

definition check_err :: "go_error option \<Rightarrow> unit outcome" where
  "check_err e = (case e of None \<Rightarrow> Ok () | Some err \<Rightarrow> Fail err)"

text \<open>From the fetched key to the host; the deferred call of \<open>ZeroPrivateKey\<close> is in \<open>p2p_New\<close>.\<close>

definition prepare_host ::
  "('key, 'lk) host_env \<Rightarrow> host_options \<Rightarrow> 'key \<Rightarrow> ('lk \<times> string option) outcome" where
  "prepare_host E opts privKey =
     obind (of_sum (he_Unmarshal E (PadKeyTo32Bytes (he_D E privKey)))) (\<lambda>libp2pKey.
     obind (check_err (he_ConnManager E)) (\<lambda>_.
     obind (check_err (he_Peerstore E)) (\<lambda>_.
     obind (check_err (he_StatsReporter E)) (\<lambda>_.
     obind (check_err (he_ResourceManager E)) (\<lambda>_.
     obind (nat_multiaddr E (ho_NatAddr opts)) (\<lambda>ext. Ok (libp2pKey, ext)))))))"

definition start_service ::
  "('key, 'pub) eth_lib \<Rightarrow> 'pub id_lib \<Rightarrow> key_signer \<Rightarrow> (address \<Rightarrow> bool) \<Rightarrow> host_options \<Rightarrow>
     peer_id \<Rightarrow> host_service outcome \<times> host_event list" where
  "start_service C L ks register opts hostID =
     emit [] id (GetEthAddressFromPeerID C L hostID) (\<lambda>ethAddress.
     emit [] id
       (handshake_New C ks (ho_PeerType opts) (ho_Secret opts) register
          (getEthAddress_of C L)) (\<lambda>hsSvc.
       (Ok \<lparr> hv_ethAddress = ethAddress, hv_peerType = ho_PeerType opts, hv_hostID = hostID,
             hv_hsSvc = hsSvc, hv_service = new_p2p_service \<rparr>,
        HandlersSet #
        (if 0 < length (ho_BootstrapAddrs opts)
         then [BootstrapStarted (ho_BootstrapAddrs opts)] else []))))"

definition p2p_New ::
  "('key, 'pub) eth_lib \<Rightarrow> 'pub id_lib \<Rightarrow> ('key, 'lk) host_env \<Rightarrow> key_signer \<Rightarrow> (address \<Rightarrow> bool) \<Rightarrow>
     host_options \<Rightarrow> host_service outcome \<times> host_event list" where
  "p2p_New C L E ks register opts =
     (case he_GetPrivateKey E of
        Inl err \<Rightarrow> (Fail (Err_Wrap ''failed to get priv key'' err), [])
      | Inr privKey \<Rightarrow>
         (case emit [] id (prepare_host E opts privKey) (\<lambda>(libp2pKey, ext).
                 let listen = multiaddr_text (ho_ListenAddr opts) (show_int (ho_ListenPort opts))
                 in emit [] id (of_sum (he_New E libp2pKey listen ext)) (\<lambda>hostID.
                      case start_service C L ks register opts hostID of
                        (r, es) \<Rightarrow> (r, HostStarted listen ext # es))) of
            (r, es) \<Rightarrow> (r, KeyFetched # es @ [ZeroKeyCalled])))"

definition Self :: "(address \<Rightarrow> string) \<Rightarrow> (peer_id \<Rightarrow> string) \<Rightarrow> string list \<Rightarrow> host_service \<Rightarrow> json" where
  "Self hexText idText hostAddrs s =
     JObj [(''Addresses'', JArr (map JStr hostAddrs)),
           (''Ethereum Address'', JStr (hexText (hv_ethAddress s))),
           (''Peer Type'', JStr (peer_type_String (hv_peerType s))),
           (''Underlay'', JStr (idText (hv_hostID s)))]"

section \<open>The external address\<close>

lemma split_last_colon:
  assumes "c \<notin> set port"
  shows "split_last c (host @ c # port) = Some (host, port)"
proof -
  have "takeWhile (\<lambda>x. x \<noteq> c) (rev port @ c # rev host) = rev port"
    using assms by (subst takeWhile_append2) auto
  then show ?thesis by (simp add: split_last_def Let_def)
qed

definition plain_host :: "string \<Rightarrow> bool" where
  "plain_host h \<longleftrightarrow> h \<noteq> [] \<and> CHR '':'' \<notin> set h \<and> CHR ''['' \<notin> set h \<and> CHR '']'' \<notin> set h"

lemma show_int_chars: "c \<in> set (show_int i) \<Longrightarrow> digit_val c \<noteq> None \<or> c = CHR ''-''"
  using show_nat_digits by (auto simp: show_int_def split: if_splits)

lemma show_int_plain: "CHR '':'' \<notin> set (show_int i)" "CHR ''['' \<notin> set (show_int i)"
  "CHR '']'' \<notin> set (show_int i)"
proof -
  have "digit_val CHR '':'' = None" "digit_val CHR ''['' = None" "digit_val CHR '']'' = None"
    by (simp_all add: digit_val_def)
  then show "CHR '':'' \<notin> set (show_int i)" "CHR ''['' \<notin> set (show_int i)"
    "CHR '']'' \<notin> set (show_int i)"
    using show_int_chars by fastforce+
qed

lemma SplitHostPort_host_port:
  assumes "plain_host host"
  shows "SplitHostPort (host_port host port) = Ok (host, show_int port)"
proof -
  have "hd (host_port host port) \<in> set host"
    using assms by (cases host) (simp_all add: plain_host_def host_port_def)
  with assms have "hd (host_port host port) \<noteq> CHR ''[''" by (auto simp: plain_host_def)
  moreover have "split_last CHR '':'' (host_port host port) = Some (host, show_int port)"
    using split_last_colon [of "CHR '':''" "show_int port" host] show_int_plain(1)
    by (simp add: host_port_def)
  ultimately show ?thesis
    using assms show_int_plain [of port] by (simp add: SplitHostPort_def plain_host_def host_port_def)
qed

text \<open>The external address of the command line, with its port, is the one announced.\<close>

lemma nat_option_announced:
  assumes "plain_host addr" "he_NewMultiaddr E (multiaddr_text addr (show_int port)) = None"
  shows "nat_multiaddr E (nat_addr_option addr port) = Ok (Some (multiaddr_text addr (show_int port)))"
proof -
  have "nat_addr_option addr port = host_port addr port" "host_port addr port \<noteq> []"
    using assms(1) by (auto simp: nat_addr_option_def host_port_def plain_host_def)
  then show ?thesis
    using assms by (simp add: nat_multiaddr_def SplitHostPort_host_port)
qed

section \<open>The private key is fetched and given back\<close>

lemma p2p_New_key:
  assumes "p2p_New C L E ks register opts = (r, es)" and "he_GetPrivateKey E = Inr key"
  shows "\<exists>mid. es = KeyFetched # mid @ [ZeroKeyCalled]"
  using assms by (auto simp: p2p_New_def split: prod.splits)

section \<open>The node's identity\<close>

text \<open>
  What the libraries promise: an address is the last 20 bytes of the hash of the encoded
  public key without its first byte; the key of 32 bytes that \<open>Unmarshal\<close> reads is the one
  whose number was padded; the host's peer id holds the public key of its identity.
\<close>

definition address_lib_ok :: "('key, 'pub) eth_lib \<Rightarrow> bool" where
  "address_lib_ok C \<longleftrightarrow> keccak_ok C \<and>
     (\<forall>p. from_ecdsa_pub C p \<noteq> [] \<and>
          pubkey_to_address C p = Address (drop 12 (keccak256 C (tl (from_ecdsa_pub C p)))))"

definition identity_lib_ok ::
  "('key, 'pub) eth_lib \<Rightarrow> 'pub id_lib \<Rightarrow> ('key, 'lk) host_env \<Rightarrow> bool" where
  "identity_lib_ok C L E \<longleftrightarrow>
     (\<forall>key lk listen ext i. length (PadKeyTo32Bytes (he_D E key)) = 32 \<longrightarrow>
        he_Unmarshal E (PadKeyTo32Bytes (he_D E key)) = Inr lk \<longrightarrow>
        he_New E lk listen ext = Inr i \<longrightarrow>
        (\<exists>raw. ExtractPublicKey L i = Inr raw \<and> DecompressPubkey L raw = Inr (public_key C key)))"

lemma GetEthAddressFromPubKey_address:
  "address_lib_ok C \<Longrightarrow> GetEthAddressFromPubKey C p = Ok (pubkey_to_address C p)"
  by (simp add: GetEthAddressFromPubKey_def address_lib_ok_def keccak_ok_def Let_def)

lemma p2p_New_Ok:
  assumes "p2p_New C L E ks register opts = (Ok s, es)"
  obtains key lk ext where "he_GetPrivateKey E = Inr key"
    and "he_Unmarshal E (PadKeyTo32Bytes (he_D E key)) = Inr lk"
    and "nat_multiaddr E (ho_NatAddr opts) = Ok ext"
    and "he_New E lk (multiaddr_text (ho_ListenAddr opts) (show_int (ho_ListenPort opts))) ext =
           Inr (hv_hostID s)"
    and "GetEthAddressFromPeerID C L (hv_hostID s) = Ok (hv_ethAddress s)"
    and "HostStarted (multiaddr_text (ho_ListenAddr opts) (show_int (ho_ListenPort opts))) ext \<in> set es"
proof -
  from assms obtain key where key: "he_GetPrivateKey E = Inr key"
    by (auto simp: p2p_New_def split: sum.splits)
  let ?listen = "multiaddr_text (ho_ListenAddr opts) (show_int (ho_ListenPort opts))"
  from assms key obtain lk ext hid es' where
    prep: "prepare_host E opts key = Ok (lk, ext)" and new: "he_New E lk ?listen ext = Inr hid"
    and st: "start_service C L ks register opts hid = (Ok s, es')"
    and es: "HostStarted ?listen ext \<in> set es"
    by (auto simp: p2p_New_def emit_def Let_def split: outcome.splits prod.splits sum.splits)
  from st have id: "hv_hostID s = hid" "GetEthAddressFromPeerID C L hid = Ok (hv_ethAddress s)"
    by (auto simp: start_service_def emit_def split: outcome.splits prod.splits)
  from prep have "he_Unmarshal E (PadKeyTo32Bytes (he_D E key)) = Inr lk"
    "nat_multiaddr E (ho_NatAddr opts) = Ok ext"
    by (auto simp: prepare_host_def)
  with key new id es show thesis by (intro that) auto
qed

lemma identity_is_key_address:
  assumes "p2p_New C L E ks register opts = (Ok s, es)"
    and "address_lib_ok C" "identity_lib_ok C L E"
    and "\<And>key. he_GetPrivateKey E = Inr key \<Longrightarrow>
           he_D E key < 2 ^ 256 \<and> ks = PrivateKeySigner C key"
  shows "hv_ethAddress s = GetAddress ks"
proof -
  from p2p_New_Ok [OF assms(1)] obtain key lk ext where
    run: "he_GetPrivateKey E = Inr key" "he_Unmarshal E (PadKeyTo32Bytes (he_D E key)) = Inr lk"
    "he_New E lk (multiaddr_text (ho_ListenAddr opts) (show_int (ho_ListenPort opts))) ext =
       Inr (hv_hostID s)"
    "GetEthAddressFromPeerID C L (hv_hostID s) = Ok (hv_ethAddress s)" by metis
  from assms(4) [OF run(1)] have key: "length (PadKeyTo32Bytes (he_D E key)) = 32"
    "ks = PrivateKeySigner C key"
    by (simp_all add: PadKey_length)
  with assms(3) run obtain raw where "ExtractPublicKey L (hv_hostID s) = Inr raw"
    "DecompressPubkey L raw = Inr (public_key C key)"
    unfolding identity_lib_ok_def by metis
  with run(4) assms(2) key show ?thesis
    by (simp add: GetEthAddressFromPeerID_def GetEthAddressFromPubKey_address PrivateKeySigner_def)
qed

end
