(* ===== verification/Http_Api.thy ===== *)
theory Http_Api
  imports Http_Std Topo Blocklist
begin

text \<open>
  The HTTP API: \<open>pkg/apiserver\<close> (registration and chaining of handlers, the access log,
  the response helpers), \<open>pkg/debugapi/debugapi.go\<close> and the health handler of
  \<open>pkg/node/node.go\<close>. The lemmas give the status and the body of each answer and compare
  the status that is logged with the one that is sent.
\<close>

section \<open>apiserver/helpers.go\<close>

text \<open>
  A message is a string, wrapped in a \<open>StatusResponse\<close>, or a value that encodes or not.
\<close>

datatype api_message = MsgString string | MsgValue "go_error + json"

definition status_response :: "nat \<Rightarrow> string \<Rightarrow> json" where
  "status_response code msg = JObj [(''code'', JNum (int code)), (''message'', JStr msg)]"

definition WriteResponse :: "nat \<Rightarrow> api_message \<Rightarrow> go_error option \<times> w_op list" where
  "WriteResponse code message =
     (case (case message of MsgString s \<Rightarrow> Inr (status_response code s) | MsgValue v \<Rightarrow> v) of
        Inl err \<Rightarrow>
          (Some (Err_Wrap ''failed to encode response'' err), [WriteStatus StatusInternalServerError])
      | Inr j \<Rightarrow>
          (None, [WriteStatus code, SetHeader ''Content-Type'' ''application/json'',
                  WriteBody (json_Encode j @ [CHR 0x0A])]))"

definition MethodHandler :: "string \<Rightarrow> handler \<Rightarrow> handler" where
  "MethodHandler m h = (\<lambda>r.
     if rq_Method r \<noteq> m
     then (case WriteResponse StatusMethodNotAllowed (MsgString ''method not allowed'') of
             (err, ops) \<Rightarrow> ops @ (if err \<noteq> None then [WriteStatus StatusInternalServerError] else []))
     else h r)"

text \<open>\<open>decode\<close> is the JSON decoder; a missing body is an error.\<close>

definition BindJSON :: "(string \<Rightarrow> go_error + 'a) \<Rightarrow> string option \<Rightarrow> 'a outcome" where
  "BindJSON decode body =
     (case body of
        None \<Rightarrow> Fail (Err_Msg ''no body'')
      | Some b \<Rightarrow> of_sum (decode b))"

section \<open>apiserver/middleware.go\<close>

text \<open>
  The recorder passes every call on and keeps the last status given to \<open>WriteHeader\<close>; a
  write does not go through it. It starts at 0.
\<close>

definition recorded :: "w_op list \<Rightarrow> nat" where
  "recorded ops = fold (\<lambda>op st. case op of WriteStatus code \<Rightarrow> code | _ \<Rightarrow> st) ops 0"

record access_entry =
  al_status :: nat
  al_method :: string
  al_path :: string

definition accessLog :: "handler \<Rightarrow> http_req \<Rightarrow> response \<times> access_entry" where
  "accessLog h r =
     (let ops = h r
      in (respond ops,
          \<lparr> al_status = recorded ops, al_method = rq_Method r, al_path = rq_Path r \<rparr>))"

section \<open>apiserver/api.go\<close>

text \<open>
  The router maps patterns to handlers; registering a pattern twice panics.
\<close>

type_synonym routes = "string \<rightharpoonup> handler"

definition Handle_route :: "string \<Rightarrow> handler \<Rightarrow> (routes, unit) act" where
  "Handle_route path h = (\<lambda>rs. if rs path \<noteq> None then (Panic, rs) else (Ok (), rs(path \<mapsto> h)))"

text \<open>The loop over the middlewares runs from the last to the first.\<close>

fun wrap_handlers :: "(handler \<Rightarrow> handler) list \<Rightarrow> nat \<Rightarrow> handler \<Rightarrow> handler" where
  "wrap_handlers mws 0 h = h"
| "wrap_handlers mws (Suc i) h = wrap_handlers mws i ((mws ! i) h)"

definition ChainHandlers :: "string \<Rightarrow> handler \<Rightarrow> (handler \<Rightarrow> handler) list \<Rightarrow> (routes, unit) act" where
  "ChainHandlers path h mws = Handle_route path (wrap_handlers mws (length mws) h)"

text \<open>
  The debug endpoints in the order of their registration; \<open>ext\<close> gives the handlers of
  \<open>promhttp\<close>, \<open>pprof\<close> and \<open>expvar\<close>, which are libraries.
\<close>

definition debug_paths :: "string list" where
  "debug_paths =
     [''/metrics'', ''/debug/pprof'', ''/debug/pprof/'', ''/debug/pprof/cmdline'',
      ''/debug/pprof/profile'', ''/debug/pprof/symbol'', ''/debug/pprof/trace'',
      ''/debug/pprof/{profile}'', ''/debug/vars'']"

fun register_all :: "(string \<Rightarrow> handler) \<Rightarrow> string list \<Rightarrow> (routes, unit) act" where
  "register_all ext [] = aret ()"
| "register_all ext (p # ps) = abind (Handle_route p (ext p)) (\<lambda>_. register_all ext ps)"

definition api_New :: "(string \<Rightarrow> handler) \<Rightarrow> unit outcome \<times> routes" where
  "api_New ext = register_all ext debug_paths Map.empty"

section \<open>debugapi.go\<close>

text \<open>
  \<open>addrText\<close> is the text of an address in JSON and \<open>durText\<close> a duration's. A slice that
  was never appended to is \<open>null\<close>; the map of connected peers has a key only for the types
  that are present. The two queries of the topology are two reads.
\<close>

definition block_left_text :: "(int \<Rightarrow> string) \<Rightarrow> block_left \<Rightarrow> string" where
  "block_left_text durText d = (case d of Forever \<Rightarrow> ''Forever'' | Remaining t \<Rightarrow> durText t)"

definition blocked_json ::
  "(address \<Rightarrow> string) \<Rightarrow> (int \<Rightarrow> string) \<Rightarrow> blocked_peer_info \<Rightarrow> json" where
  "blocked_json addrText durText b =
     JObj [(''Peer'', JStr (addrText (bp_Peer b))), (''Reason'', JStr (bp_Reason b)),
           (''Duration'', JStr (block_left_text durText (bp_Duration b)))]"

definition peers_field :: "(address \<Rightarrow> string) \<Rightarrow> string \<Rightarrow> peer list \<Rightarrow> (string \<times> json) list" where
  "peers_field addrText k ps =
     (if 0 < length ps then [(k, JArr (map (\<lambda>p. JStr (addrText (EthAddress p))) ps))] else [])"

definition topology_response ::
  "(address \<Rightarrow> string) \<Rightarrow> (int \<Rightarrow> string) \<Rightarrow> json \<Rightarrow> peer list \<Rightarrow> peer list \<Rightarrow>
     blocked_peer_info list \<Rightarrow> json" where
  "topology_response addrText durText self provs bids blocked =
     JObj [(''self'', self),
           (''connected_peers'',
              JObj (peers_field addrText ''bidders'' bids @ peers_field addrText ''providers'' provs)),
           (''blocked_peers'',
              if blocked = [] then JNull else JArr (map (blocked_json addrText durText) blocked))]"

definition handleTopology ::
  "(address \<Rightarrow> string) \<Rightarrow> (int \<Rightarrow> string) \<Rightarrow> json \<Rightarrow> peer list \<Rightarrow> peer list \<Rightarrow>
     blocked_peer_info list \<Rightarrow> handler" where
  "handleTopology addrText durText self provs bids blocked = (\<lambda>r.
     snd (WriteResponse StatusOK
            (MsgValue (Inr (topology_response addrText durText self provs bids blocked)))))"

definition RegisterAPI :: "handler \<Rightarrow> (routes, unit) act" where
  "RegisterAPI topo = ChainHandlers ''/topology'' (MethodHandler ''GET'' topo) []"

section \<open>The health handler of node.go\<close>

text \<open>\<open>grpcState\<close> is the name of the connection's state.\<close>

definition health_handler :: "string \<Rightarrow> handler" where
  "health_handler grpcState = (\<lambda>r.
     SetHeader ''Content-Type'' ''text/plain'' #
     (if grpcState \<noteq> ''READY''
      then http_Error (''grpc server is '' @ grpcState) StatusBadGateway
      else [WriteBody (''ok'' @ [CHR 0x0A])]))"

text \<open>The routes of a node: \<open>gateway\<close> is the gRPC gateway's mux.\<close>

definition node_routes ::
  "(string \<Rightarrow> handler) \<Rightarrow> handler \<Rightarrow> bool \<Rightarrow> handler \<Rightarrow> string \<Rightarrow> unit outcome \<times> routes" where
  "node_routes ext topo bootnode gateway grpcState =
     abind (register_all ext debug_paths) (\<lambda>_.
     abind (RegisterAPI topo) (\<lambda>_.
       if bootnode then aret ()
       else abind (ChainHandlers ''/'' gateway []) (\<lambda>_.
              ChainHandlers ''/health'' (health_handler grpcState) []))) Map.empty"

section \<open>Registration and chaining\<close>

lemma wrap_handlers_foldr: "n \<le> length mws \<Longrightarrow> wrap_handlers mws n h = foldr id (take n mws) h"
proof (induction n arbitrary: h)
  case (Suc n)
  then show ?case by (simp add: take_Suc_conv_app_nth)
qed simp

text \<open>The first middleware is the outermost.\<close>

lemma ChainHandlers_order:
  "ChainHandlers path h mws = Handle_route path (foldr (\<lambda>mw k. mw k) mws h)"
  by (simp add: ChainHandlers_def wrap_handlers_foldr id_def)

lemma register_all_run:
  "distinct ps \<Longrightarrow> set ps \<inter> dom rs = {} \<Longrightarrow>
     register_all ext ps rs = (Ok (), \<lambda>p. if p \<in> set ps then Some (ext p) else rs p)"
proof (induction ps arbitrary: rs)
  case (Cons p ps)
  then have "rs p = None" by auto
  moreover from Cons have "register_all ext ps (rs(p \<mapsto> ext p)) =
      (Ok (), \<lambda>q. if q \<in> set ps then Some (ext q) else (rs(p \<mapsto> ext p)) q)" by auto
  ultimately show ?case using Cons.prems by (auto simp: Handle_route_def abind_def fun_eq_iff)
qed simp

lemma debug_paths_distinct: "distinct debug_paths"
  unfolding debug_paths_def by code_simp

text \<open>No registration of a node panics.\<close>

lemma node_routes_run:
  "node_routes ext topo bootnode gateway st =
     (Ok (), \<lambda>p. if p \<in> set debug_paths then Some (ext p)
                 else if p = ''/topology'' then Some (MethodHandler ''GET'' topo)
                 else if bootnode then None
                 else if p = ''/'' then Some gateway
                 else if p = ''/health'' then Some (health_handler st) else None)"
proof -
  have new: "''/topology'' \<notin> set debug_paths" "''/'' \<notin> set debug_paths" "''/health'' \<notin> set debug_paths"
    unfolding debug_paths_def by code_simp+
  have "register_all ext debug_paths Map.empty =
      (Ok (), \<lambda>p. if p \<in> set debug_paths then Some (ext p) else None)"
    by (subst register_all_run) (simp_all add: debug_paths_distinct)
  with new show ?thesis
    by (auto simp: node_routes_def RegisterAPI_def ChainHandlers_order Handle_route_def abind_def fun_eq_iff)
qed

section \<open>Answers\<close>

lemma WriteResponse_Inr:
  "WriteResponse code (MsgValue (Inr j)) =
     (None, [WriteStatus code, SetHeader ''Content-Type'' ''application/json'',
             WriteBody (json_Encode j @ [CHR 0x0A])])"
  by (simp add: WriteResponse_def)

lemma MethodHandler_other:
  "rq_Method r \<noteq> m \<Longrightarrow>
     MethodHandler m h r =
       snd (WriteResponse StatusMethodNotAllowed (MsgString ''method not allowed''))"
  by (simp add: MethodHandler_def WriteResponse_def)

text \<open>
  The content type is set after the header was sent: no answer of \<open>WriteResponse\<close> has it.
\<close>

lemma WriteResponse_no_type: "sent_header (respond (snd (WriteResponse code m))) ''Content-Type'' = None"
  by (cases m; cases "case m of MsgString s \<Rightarrow> Inr (status_response code s) | MsgValue v \<Rightarrow> v")
     (auto simp: WriteResponse_def respond_def new_response_def sent_header_def send_status_def Let_def)

text \<open>The log has the status that is sent when \<open>WriteHeader\<close> comes first and once.\<close>

definition one_status :: "w_op list \<Rightarrow> bool" where
  "one_status ops \<longleftrightarrow>
     (\<exists>code rest. dropWhile (\<lambda>op. \<exists>k v. op = SetHeader k v) ops = WriteStatus code # rest \<and>
        (\<forall>op \<in> set rest. \<forall>c. op \<noteq> WriteStatus c))"

lemma recorded_simps [simp]:
  "recorded [] = 0" "recorded (SetHeader k v # ops) = recorded ops"
  "recorded (WriteBody s # ops) = recorded ops"
  by (simp_all add: recorded_def)

lemma recorded_last: "\<forall>op \<in> set rest. \<forall>c. op \<noteq> WriteStatus c \<Longrightarrow> recorded (WriteStatus code # rest) = code"
proof -
  have "fold (\<lambda>op st. case op of WriteStatus code \<Rightarrow> code | _ \<Rightarrow> st) rest st = st"
    if "\<forall>op \<in> set rest. \<forall>c. op \<noteq> WriteStatus c" for st
    using that by (induction rest) (auto split: w_op.split)
  then show "\<forall>op \<in> set rest. \<forall>c. op \<noteq> WriteStatus c \<Longrightarrow> ?thesis" by (simp add: recorded_def)
qed

lemma one_status_logged: "one_status ops \<Longrightarrow> recorded ops = first_status ops"
proof (induction ops)
  case (Cons op ops)
  then show ?case
    by (cases op) (auto simp: one_status_def recorded_last)
qed (simp add: one_status_def)

lemma WriteResponse_one_status: "one_status (snd (WriteResponse code m))"
  by (auto simp: WriteResponse_def one_status_def split: api_message.splits sum.splits)

text \<open>The body of the topology, spelled out.\<close>

lemma topology_response_text:
  "topology_response addrText durText self ps bs blocked =
     JObj [(''self'', self),
       (''connected_peers'', JObj
         ((if bs = [] then [] else [(''bidders'', JArr (map (\<lambda>p. JStr (addrText (EthAddress p))) bs))]) @
          (if ps = [] then [] else [(''providers'', JArr (map (\<lambda>p. JStr (addrText (EthAddress p))) ps))]))),
       (''blocked_peers'', if blocked = [] then JNull
          else JArr (map (\<lambda>b. JObj [(''Peer'', JStr (addrText (bp_Peer b))),
            (''Reason'', JStr (bp_Reason b)),
            (''Duration'', JStr (case bp_Duration b of
               Forever \<Rightarrow> ''Forever'' | Remaining d \<Rightarrow> durText d))]) blocked))]"
  by (auto simp: topology_response_def peers_field_def blocked_json_def block_left_text_def)

text \<open>What the log entry of a route says.\<close>

lemma topology_logged:
  "al_status (snd (accessLog (MethodHandler m (handleTopology at dt self ps bs bl)) r)) =
   status_of (fst (accessLog (MethodHandler m (handleTopology at dt self ps bs bl)) r))"
proof -
  have "one_status (MethodHandler m (handleTopology at dt self ps bs bl) r)"
    by (cases "rq_Method r = m")
       (simp add: MethodHandler_def handleTopology_def WriteResponse_one_status,
        simp add: MethodHandler_other WriteResponse_one_status)
  then show ?thesis by (simp add: accessLog_def Let_def status_of_respond one_status_logged)
qed

lemma health_logged:
  "al_status (snd (accessLog (health_handler st) r)) = (if st = ''READY'' then 0 else 502)"
  "status_of (fst (accessLog (health_handler st) r)) = (if st = ''READY'' then 200 else 502)"
  by (simp_all add: accessLog_def health_handler_def status_of_respond http_Error_def Let_def
      recorded_def status_codes)

end
