(* ===== verification/Node_Assembly.thy ===== *)
theory Node_Assembly
  imports Provider_Api Preconf
begin

text \<open>
  \<open>pkg/node/node.go\<close>: \<open>NewNode\<close> starts the components one after the other and \<open>Close\<close>
  closes them. The outcome of every constructor and connection attempt is a field of the
  environment; the result is the node, or an error, with the trace of what was started,
  registered and closed.
\<close>

section \<open>The node\<close>

text \<open>
  What holds connections or goroutines: the connection to the chain and the EVM client on
  it, the p2p service, the discovery, the listener of the RPC server, that server, the
  node's own connection to it, and the HTTP server.
\<close>

datatype resource =
    EthClientR
  | EvmClientR
  | P2pR
  | DiscoveryR
  | ListenerR
  | GrpcServerR
  | GrpcConnR
  | HttpServerR

datatype node_event =
    Started resource
  | Closed resource
  | GrpcServes
  | StreamHandlers string
  | GrpcService string
  | HttpRoute string

record node_env =
  ne_DialRPC :: "go_error option"
  ne_NewEvm :: "go_error option"
  ne_NewP2p :: "go_error option"
  ne_Listen :: "go_error option"
  ne_LoadTLS :: "go_error option"
  ne_NewValidator :: "go_error option"
  ne_DialGrpc :: "nat \<Rightarrow> go_error option"
  ne_RegisterHandler :: "go_error option"
  ne_Close :: "resource \<Rightarrow> go_error option"

record node_options =
  no_PeerType :: string
  no_TLSCert :: string
  no_TLSKey :: string

section \<open>Close\<close>

text \<open>\<open>errors.Join\<close> drops nil errors and is nil when nothing is left.\<close>

definition err_join :: "go_error option list \<Rightarrow> go_error option" where
  "err_join es =
     (case List.map_filter id es of [] \<Rightarrow> None | xs \<Rightarrow> Some (Err_Join xs))"

definition node_Close :: "node_env \<Rightarrow> resource list \<Rightarrow> go_error option \<times> node_event list" where
  "node_Close E closers =
     fold (\<lambda>c (err, es). (err_join [err, ne_Close E c], es @ [Closed c])) closers (None, [])"

section \<open>NewNode\<close>

text \<open>An error without closing, and one joined with the error of closing what was started.\<close>

definition fail_open :: "go_error \<Rightarrow> resource list outcome \<times> node_event list" where
  "fail_open err = (Fail err, [])"

definition fail_closed ::
  "node_env \<Rightarrow> resource list \<Rightarrow> go_error \<Rightarrow> resource list outcome \<times> node_event list" where
  "fail_closed E closers err =
     (case node_Close E closers of
        (cerr, es) \<Rightarrow> (Fail (the (err_join [Some err, cerr])), es))"

definition trace ::
  "node_event list \<Rightarrow> resource list outcome \<times> node_event list \<Rightarrow>
     resource list outcome \<times> node_event list" where
  "trace es r = (fst r, es @ snd r)"

text \<open>The services and handlers of each role. A bidder runs no preconfirmation handler.\<close>

definition role_events :: "string \<Rightarrow> node_event list" where
  "role_events peerType =
     (if peerType = ''provider'' then [GrpcService ''provider'', StreamHandlers ''preconfirmation'']
      else if peerType = ''bidder'' then [GrpcService ''bidder'']
      else [])"

text \<open>The three strategies to reach the node's own server, from the most to the least secure.\<close>

definition dial_grpc :: "node_env \<Rightarrow> nat option" where
  "dial_grpc E = List.find (\<lambda>k. ne_DialGrpc E k = None) [0, 1, 2]"

definition start_http :: "resource list \<Rightarrow> resource list outcome \<times> node_event list" where
  "start_http closers = (Ok (closers @ [HttpServerR]), [Started HttpServerR])"

definition start_gateway ::
  "node_env \<Rightarrow> node_options \<Rightarrow> resource list \<Rightarrow> resource list outcome \<times> node_event list" where
  "start_gateway E opts closers =
     (case dial_grpc E of
        None \<Rightarrow> fail_open (Err_Msg ''dialing of grpc server failed'')
      | Some _ \<Rightarrow> trace [Started GrpcConnR]
         (case (if no_PeerType opts = ''provider'' \<or> no_PeerType opts = ''bidder''
                then ne_RegisterHandler E else None) of
            Some err \<Rightarrow> fail_closed E closers err
          | None \<Rightarrow> trace [HttpRoute ''/'', HttpRoute ''/health''] (start_http closers)))"

definition start_rpc ::
  "node_env \<Rightarrow> node_options \<Rightarrow> resource list \<Rightarrow> resource list outcome \<times> node_event list" where
  "start_rpc E opts closers =
     (case ne_Listen E of
        Some err \<Rightarrow> fail_closed E closers err
      | None \<Rightarrow> trace [Started ListenerR]
         (case (if no_TLSCert opts \<noteq> [] \<and> no_TLSKey opts \<noteq> [] then ne_LoadTLS E else None) of
            Some err \<Rightarrow> fail_open (Err_Wrap ''unable to load TLS credentials'' err)
          | None \<Rightarrow> trace [Started GrpcServerR]
             (case ne_NewValidator E of
                Some err \<Rightarrow> fail_closed E closers err
              | None \<Rightarrow> trace (role_events (no_PeerType opts) @ [GrpcServes])
                  (start_gateway E opts (closers @ [ListenerR])))))"

definition NewNode ::
  "node_env \<Rightarrow> node_options \<Rightarrow> resource list outcome \<times> node_event list" where
  "NewNode E opts =
     (case ne_DialRPC E of
        Some err \<Rightarrow> fail_open err
      | None \<Rightarrow> trace [Started EthClientR]
     (case ne_NewEvm E of
        Some err \<Rightarrow> fail_open err
      | None \<Rightarrow> trace [Started EvmClientR]
     (case ne_NewP2p E of
        Some err \<Rightarrow> fail_open err
      | None \<Rightarrow> trace [Started P2pR, Started DiscoveryR, StreamHandlers ''discovery'',
          HttpRoute ''/topology'']
         (let closers = [EvmClientR, P2pR, DiscoveryR]
          in if no_PeerType opts \<noteq> ''bootnode'' then start_rpc E opts closers
             else start_http closers))))"

section \<open>The processors of a bidder\<close>

text \<open>
  \<open>noOpBidProcessor\<close> answers every bid with an accepting, closed channel and
  \<open>noOpCommitmentDA\<close> stores nothing.
\<close>

definition noOp_ProcessBid :: "bid \<Rightarrow> bid_status chan outcome" where
  "noOp_ProcessBid b = Ok \<lparr> ch_buf = [STATUS_ACCEPTED], ch_closed = True \<rparr>"

definition noOp_StoreCommitment :: "commitment_args \<Rightarrow> unit outcome" where
  "noOp_StoreCommitment args = Ok ()"

section \<open>What Close does\<close>

definition close_error :: "go_error option \<Rightarrow> sentinel \<Rightarrow> bool" where
  "close_error err s \<longleftrightarrow> (case err of None \<Rightarrow> False | Some e \<Rightarrow> errors_is e s)"

lemma err_join_simps [simp]:
  "err_join [None, None] = None" "err_join [None, Some e] = Some (Err_Join [e])"
  "err_join [Some e, None] = Some (Err_Join [e])"
  "err_join [Some e, Some f] = Some (Err_Join [e, f])"
  by (simp_all add: err_join_def List.map_filter_simps)

lemma err_join_None: "err_join [a, b] = None \<longleftrightarrow> a = None \<and> b = None"
  by (cases a; cases b) simp_all

lemma close_error_join: "close_error (err_join [a, b]) s \<longleftrightarrow> close_error a s \<or> close_error b s"
  by (cases a; cases b) (simp_all add: close_error_def)

lemma close_fold:
  "case fold (\<lambda>c (err, es). (err_join [err, ne_Close E c], es @ [Closed c])) cs (err, es) of
     (err', es') \<Rightarrow>
       es' = es @ map Closed cs \<and>
       (err' = None \<longleftrightarrow> err = None \<and> (\<forall>c \<in> set cs. ne_Close E c = None)) \<and>
       (close_error err' s \<longleftrightarrow> close_error err s \<or> (\<exists>c \<in> set cs. close_error (ne_Close E c) s))"
proof (induction cs arbitrary: err es)
  case (Cons c cs)
  show ?case
    using Cons.IH [where err = "err_join [err, ne_Close E c]" and es = "es @ [Closed c]"]
    by (auto simp: err_join_None close_error_join split: prod.splits)
qed simp

lemma node_Close_all:
  assumes "node_Close E cs = (err, es)"
  shows "es = map Closed cs" and "err = None \<longleftrightarrow> (\<forall>c \<in> set cs. ne_Close E c = None)"
    and "close_error err s \<longleftrightarrow> (\<exists>c \<in> set cs. close_error (ne_Close E c) s)"
  using close_fold [where E = E and cs = cs and err = None and es = "[]" and s = s] assms by (simp_all add: node_Close_def close_error_def)

section \<open>What NewNode starts\<close>

definition started :: "node_event list \<Rightarrow> resource list" where
  "started es = List.map_filter (\<lambda>e. case e of Started r \<Rightarrow> Some r | _ \<Rightarrow> None) es"

definition closed :: "node_event list \<Rightarrow> resource list" where
  "closed es = List.map_filter (\<lambda>e. case e of Closed r \<Rightarrow> Some r | _ \<Rightarrow> None) es"

lemma started_simps [simp]:
  "started [] = []" "started (Started r # es) = r # started es"
  "started (Closed r # es) = started es" "started (StreamHandlers n # es) = started es"
  "started (GrpcService n # es) = started es" "started (HttpRoute n # es) = started es"
  "started (GrpcServes # es) = started es"
  by (simp_all add: started_def List.map_filter_simps)

lemma closed_simps [simp]:
  "closed [] = []" "closed (Started r # es) = closed es"
  "closed (Closed r # es) = r # closed es" "closed (StreamHandlers n # es) = closed es"
  "closed (GrpcService n # es) = closed es" "closed (HttpRoute n # es) = closed es"
  "closed (GrpcServes # es) = closed es"
  by (simp_all add: closed_def List.map_filter_simps)

lemma started_append [simp]: "started (xs @ ys) = started xs @ started ys"
  by (simp add: started_def List.map_filter_def)

lemma closed_append [simp]: "closed (xs @ ys) = closed xs @ closed ys"
  by (simp add: closed_def List.map_filter_def)

lemma closed_map [simp]: "closed (map Closed cs) = cs" "started (map Closed cs) = []"
  by (induction cs) simp_all

lemma role_events_simps [simp]: "started (role_events t) = []" "closed (role_events t) = []"
  by (simp_all add: role_events_def)

lemma fail_closed_sel:
  "fst (fail_closed E cs err) \<noteq> Ok x" "started (snd (fail_closed E cs err)) = []"
  "closed (snd (fail_closed E cs err)) = cs"
  using node_Close_all(1) [of E cs "fst (node_Close E cs)" "snd (node_Close E cs)"]
  by (auto simp: fail_closed_def split: prod.split)

lemmas node_sel = fail_closed_sel fail_open_def trace_def

text \<open>
  What nothing ever closes: the connection to the chain, which \<open>Close\<close> of the EVM client
  leaves alone, the RPC server and the node's own connection to it.
\<close>

fun never_closed :: "resource \<Rightarrow> bool" where
  "never_closed EthClientR = True"
| "never_closed GrpcServerR = True"
| "never_closed GrpcConnR = True"
| "never_closed r = False"

lemma never_closed_iff: "\<not> never_closed r \<longleftrightarrow> r \<notin> {EthClientR, GrpcServerR, GrpcConnR}"
  by (cases r) simp_all

definition to_close :: "node_event list \<Rightarrow> resource list" where
  "to_close es = filter (\<lambda>r. \<not> never_closed r) (started es)"

text \<open>A node that started holds everything else that was started, and closed nothing.\<close>

lemma NewNode_Ok:
  assumes "NewNode E opts = (Ok closers, es)"
  shows "closers = to_close es" and "closed es = []"
    and "no_PeerType opts = ''bootnode'' \<Longrightarrow> started es = [EthClientR, EvmClientR, P2pR, DiscoveryR, HttpServerR]"
    and "no_PeerType opts \<noteq> ''bootnode'' \<Longrightarrow> started es =
           [EthClientR, EvmClientR, P2pR, DiscoveryR, ListenerR, GrpcServerR, GrpcConnR, HttpServerR]"
proof -
  have r: "fst (NewNode E opts) = Ok closers" "es = snd (NewNode E opts)" using assms by simp_all
  show "closers = to_close es" "closed es = []"
    "no_PeerType opts = ''bootnode'' \<Longrightarrow> started es = [EthClientR, EvmClientR, P2pR, DiscoveryR, HttpServerR]"
    "no_PeerType opts \<noteq> ''bootnode'' \<Longrightarrow> started es =
       [EthClientR, EvmClientR, P2pR, DiscoveryR, ListenerR, GrpcServerR, GrpcConnR, HttpServerR]"
    using r
    by (auto simp: NewNode_def start_rpc_def start_gateway_def start_http_def node_sel to_close_def Let_def
        split: option.splits if_splits)
qed

text \<open>
  The failures that leave also closable resources open: the p2p service, the TLS files, the
  validator (the listener stays open) and the connection to the node's own server.
\<close>

definition leak_free :: "node_env \<Rightarrow> node_options \<Rightarrow> bool" where
  "leak_free E opts \<longleftrightarrow>
     ne_NewP2p E = None \<and> ne_NewValidator E = None \<and> dial_grpc E \<noteq> None \<and>
     (no_TLSCert opts \<noteq> [] \<and> no_TLSKey opts \<noteq> [] \<longrightarrow> ne_LoadTLS E = None)"

lemma NewNode_Fail:
  assumes "NewNode E opts = (Fail err, es)" and "leak_free E opts"
  shows "closed es = to_close es"
proof -
  have r: "fst (NewNode E opts) = Fail err" "es = snd (NewNode E opts)" using assms by simp_all
  show ?thesis
    using r assms(2)
    by (auto simp: NewNode_def start_rpc_def start_gateway_def start_http_def node_sel leak_free_def
        to_close_def Let_def split: option.splits if_splits)
qed

lemma NewNode_not_Panic: "fst (NewNode E opts) \<noteq> Panic"
  by (auto simp: NewNode_def start_rpc_def start_gateway_def start_http_def trace_def fail_open_def
      fail_closed_def Let_def split: option.splits prod.splits)

text \<open>What is closed was started, and is none of the three.\<close>

lemma NewNode_closed:
  assumes "NewNode E opts = (res, es)" and "r \<in> set (closed es)"
  shows "r \<in> set (started es)" and "\<not> never_closed r"
  using assms
  by (auto simp: NewNode_def start_rpc_def start_gateway_def start_http_def node_sel Let_def trace_def
      fail_open_def fail_closed_def dest!: node_Close_all(1) split: option.splits if_splits prod.splits)

text \<open>
  For example, a p2p service that does not start leaves the EVM client running, and a gateway
  handler that is not registered leaves the RPC server and the connection to it.
\<close>

lemma NewNode_leaks:
  assumes "ne_DialRPC E = None" "ne_NewEvm E = None" "ne_NewP2p E = Some err"
  shows "NewNode E opts = (Fail err, [Started EthClientR, Started EvmClientR])"
  using assms by (simp add: NewNode_def trace_def fail_open_def)

lemma NewNode_gateway_leaks:
  assumes "leak_free E opts" "no_PeerType opts = ''provider''" "ne_DialRPC E = None" "ne_NewEvm E = None"
    and "ne_Listen E = None" "ne_RegisterHandler E = Some err"
  shows "\<exists>e. fst (NewNode E opts) = Fail e"
    and "started (snd (NewNode E opts)) =
      [EthClientR, EvmClientR, P2pR, DiscoveryR, ListenerR, GrpcServerR, GrpcConnR]"
    and "closed (snd (NewNode E opts)) = [EvmClientR, P2pR, DiscoveryR, ListenerR]"
  using assms
  by (auto simp: NewNode_def start_rpc_def start_gateway_def node_sel leak_free_def Let_def
      fail_closed_def split: option.splits prod.splits dest!: node_Close_all(1))

end
