(* ===== verification/Mock_Chain.thy ===== *)
theory Mock_Chain
  imports Registries Evm_Client
begin

text \<open>
  The stand-ins that the unit tests put in place of the chain: \<open>pkg/evmclient/mockevm\<close> (the
  chain behind an EVM client), \<open>pkg/evmclient/mock\<close> (the client behind a contract client) and
  \<open>pkg/keysigner/mock\<close>. A function that a test leaves out is \<open>None\<close>. The lemmas run the
  real client and the real contract clients on top of them.
\<close>

section \<open>pkg/evmclient/mockevm\<close>

text \<open>The functions answer for one state of the chain; their contexts are left out.\<close>

type_synonym batch_call = "hash list \<Rightarrow> go_error + (nat \<Rightarrow> batch_elem)"

record mock_evm =
  networkID :: int
  batcherFunc :: "batch_call option"
  blockNumFunc :: "(go_error + u64) option"
  pendingNonceAtFunc :: "(address \<Rightarrow> go_error + u64) option"
  nonceAtFunc :: "(address \<Rightarrow> int option \<Rightarrow> go_error + u64) option"
  suggestGasPriceFunc :: "(go_error + int) option"
  suggestGasTipCapFunc :: "(go_error + int) option"
  estimateGasFunc :: "(call_msg \<Rightarrow> go_error + u64) option"
  sendTransactionFunc :: "(signed_tx \<Rightarrow> go_error + unit) option"
  callContractFunc :: "(call_msg \<Rightarrow> int option \<Rightarrow> go_error + bytes) option"
  transactionReceiptFunc :: "(hash \<Rightarrow> go_error + receipt) option"
  transactionByHasFunc :: "(hash \<Rightarrow> go_error + (eth_tx \<times> bool)) option"

definition zero_mock_evm :: mock_evm where
  "zero_mock_evm =
     \<lparr> networkID = 0, batcherFunc = None, blockNumFunc = None, pendingNonceAtFunc = None,
       nonceAtFunc = None, suggestGasPriceFunc = None, suggestGasTipCapFunc = None,
       estimateGasFunc = None, sendTransactionFunc = None, callContractFunc = None,
       transactionReceiptFunc = None, transactionByHasFunc = None \<rparr>"

definition WithBatcherFunc :: "batch_call \<Rightarrow> mock_evm \<Rightarrow> mock_evm" where
  "WithBatcherFunc f m = m\<lparr> batcherFunc := Some f \<rparr>"

definition WithBlockNumFunc :: "go_error + u64 \<Rightarrow> mock_evm \<Rightarrow> mock_evm" where
  "WithBlockNumFunc f m = m\<lparr> blockNumFunc := Some f \<rparr>"

definition WithPendingNonceAtFunc :: "(address \<Rightarrow> go_error + u64) \<Rightarrow> mock_evm \<Rightarrow> mock_evm" where
  "WithPendingNonceAtFunc f m = m\<lparr> pendingNonceAtFunc := Some f \<rparr>"

definition WithNonceAtFunc ::
  "(address \<Rightarrow> int option \<Rightarrow> go_error + u64) \<Rightarrow> mock_evm \<Rightarrow> mock_evm" where
  "WithNonceAtFunc f m = m\<lparr> nonceAtFunc := Some f \<rparr>"

definition WithSuggestGasPriceFunc :: "go_error + int \<Rightarrow> mock_evm \<Rightarrow> mock_evm" where
  "WithSuggestGasPriceFunc f m = m\<lparr> suggestGasPriceFunc := Some f \<rparr>"

definition WithSuggestGasTipCapFunc :: "go_error + int \<Rightarrow> mock_evm \<Rightarrow> mock_evm" where
  "WithSuggestGasTipCapFunc f m = m\<lparr> suggestGasTipCapFunc := Some f \<rparr>"

definition WithEstimateGasFunc :: "(call_msg \<Rightarrow> go_error + u64) \<Rightarrow> mock_evm \<Rightarrow> mock_evm" where
  "WithEstimateGasFunc f m = m\<lparr> estimateGasFunc := Some f \<rparr>"

definition WithSendTransactionFunc :: "(signed_tx \<Rightarrow> go_error + unit) \<Rightarrow> mock_evm \<Rightarrow> mock_evm" where
  "WithSendTransactionFunc f m = m\<lparr> sendTransactionFunc := Some f \<rparr>"

definition WithCallContractFunc ::
  "(call_msg \<Rightarrow> int option \<Rightarrow> go_error + bytes) \<Rightarrow> mock_evm \<Rightarrow> mock_evm" where
  "WithCallContractFunc f m = m\<lparr> callContractFunc := Some f \<rparr>"

definition WithTransactionReceiptFunc :: "(hash \<Rightarrow> go_error + receipt) \<Rightarrow> mock_evm \<Rightarrow> mock_evm" where
  "WithTransactionReceiptFunc f m = m\<lparr> transactionReceiptFunc := Some f \<rparr>"

definition WithTransactionByHashFunc ::
  "(hash \<Rightarrow> go_error + (eth_tx \<times> bool)) \<Rightarrow> mock_evm \<Rightarrow> mock_evm" where
  "WithTransactionByHashFunc f m = m\<lparr> transactionByHasFunc := Some f \<rparr>"

text \<open>The network id of the argument is set after the options have run.\<close>

definition NewMockEvm :: "u64 \<Rightarrow> (mock_evm \<Rightarrow> mock_evm) list \<Rightarrow> mock_evm" where
  "NewMockEvm nid opts = (fold (\<lambda>opt m. opt m) opts zero_mock_evm)\<lparr> networkID := uint nid \<rparr>"

definition ErrNotImplemented :: go_error where
  "ErrNotImplemented = Err_Msg ''not implemented''"

text \<open>A method is the function that was set, or the error.\<close>

definition implemented :: "(go_error + 'a) option \<Rightarrow> go_error + 'a" where
  "implemented f = (case f of None \<Rightarrow> Inl ErrNotImplemented | Some r \<Rightarrow> r)"

definition mock_NetworkID :: "mock_evm \<Rightarrow> go_error + int" where
  "mock_NetworkID m = Inr (networkID m)"

definition mock_BlockNumber :: "mock_evm \<Rightarrow> go_error + u64" where
  "mock_BlockNumber m = implemented (blockNumFunc m)"

definition mock_PendingNonceAt :: "mock_evm \<Rightarrow> address \<Rightarrow> go_error + u64" where
  "mock_PendingNonceAt m account = implemented (map_option (\<lambda>f. f account) (pendingNonceAtFunc m))"

definition mock_NonceAt :: "mock_evm \<Rightarrow> address \<Rightarrow> int option \<Rightarrow> go_error + u64" where
  "mock_NonceAt m account blockNumber =
     implemented (map_option (\<lambda>f. f account blockNumber) (nonceAtFunc m))"

definition mock_SuggestGasPrice :: "mock_evm \<Rightarrow> go_error + int" where
  "mock_SuggestGasPrice m = implemented (suggestGasPriceFunc m)"

definition mock_SuggestGasTipCap :: "mock_evm \<Rightarrow> go_error + int" where
  "mock_SuggestGasTipCap m = implemented (suggestGasTipCapFunc m)"

definition mock_EstimateGas :: "mock_evm \<Rightarrow> call_msg \<Rightarrow> go_error + u64" where
  "mock_EstimateGas m call = implemented (map_option (\<lambda>f. f call) (estimateGasFunc m))"

definition mock_SendTransaction :: "mock_evm \<Rightarrow> signed_tx \<Rightarrow> go_error + unit" where
  "mock_SendTransaction m tx = implemented (map_option (\<lambda>f. f tx) (sendTransactionFunc m))"

definition mock_CallContract :: "mock_evm \<Rightarrow> call_msg \<Rightarrow> int option \<Rightarrow> go_error + bytes" where
  "mock_CallContract m call blockNumber =
     implemented (map_option (\<lambda>f. f call blockNumber) (callContractFunc m))"

definition mock_TransactionReceipt :: "mock_evm \<Rightarrow> hash \<Rightarrow> go_error + receipt" where
  "mock_TransactionReceipt m txHash = implemented (map_option (\<lambda>f. f txHash) (transactionReceiptFunc m))"

definition mock_TransactionByHash :: "mock_evm \<Rightarrow> hash \<Rightarrow> go_error + (eth_tx \<times> bool)" where
  "mock_TransactionByHash m txHash = implemented (map_option (\<lambda>f. f txHash) (transactionByHasFunc m))"

text \<open>
  \<open>Batcher()\<close> is a nil interface when no function was set, so the call of
  \<open>BatchCallContext\<close> on it panics; \<open>batchFunc.BatchCallContext\<close> calls the function.
\<close>

definition mock_Batcher :: "mock_evm \<Rightarrow> batch_call option" where
  "mock_Batcher m = batcherFunc m"

definition BatchCallContext :: "batch_call option \<Rightarrow> hash list \<Rightarrow> (nat \<Rightarrow> batch_elem) outcome" where
  "BatchCallContext b batch = (case b of None \<Rightarrow> Panic | Some f \<Rightarrow> of_sum (f batch))"

section \<open>pkg/keysigner/mock\<close>

record 'key mock_key_signer =
  mks_privKey :: 'key
  mks_address :: address

definition NewMockKeySigner :: "'key \<Rightarrow> address \<Rightarrow> 'key mock_key_signer" where
  "NewMockKeySigner privKey a = \<lparr> mks_privKey = privKey, mks_address = a \<rparr>"

definition mks_KeySigner :: "('key, 'pub) eth_lib \<Rightarrow> 'key mock_key_signer \<Rightarrow> key_signer" where
  "mks_KeySigner C m = \<lparr> SignHash = (\<lambda>h. ec_sign C (mks_privKey m) h), GetAddress = mks_address m \<rparr>"

definition mks_GetPrivateKey :: "'key mock_key_signer \<Rightarrow> 'key outcome" where
  "mks_GetPrivateKey m = Ok (mks_privKey m)"

definition mks_ZeroPrivateKey :: "'key \<Rightarrow> 'key" where
  "mks_ZeroPrivateKey key = key"

definition mks_String :: "'key mock_key_signer \<Rightarrow> string" where
  "mks_String m = ''mock''"

text \<open>\<open>SignTx\<close> gives the transaction back unsigned; \<open>tx_hash\<close> is its \<open>Hash()\<close>.\<close>

definition mks_SignTx :: "(eth_tx \<Rightarrow> hash) \<Rightarrow> eth_tx \<Rightarrow> int \<Rightarrow> go_error + signed_tx" where
  "mks_SignTx tx_hash tx cid = Inr \<lparr> st_Tx = tx, st_Hash = tx_hash tx \<rparr>"

text \<open>The address is an argument of its own: the double signs as it when the key is its key.\<close>

lemma mks_signs_as:
  assumes "ecdsa_ok C"
  shows "signs_as C (mks_KeySigner C (NewMockKeySigner key a)) a \<longleftrightarrow>
    pubkey_to_address C (public_key C key) = a"
proof
  assume s: "signs_as C (mks_KeySigner C (NewMockKeySigner key a)) a"
  let ?h = "keccak256 C []"
  from assms have "length ?h = 32" by (simp add: ecdsa_ok_def keccak_ok_def)
  with s obtain sig pub where "ec_sign C key ?h = Inr sig" "sig_to_pub C ?h sig = Inr pub"
    "pubkey_to_address C pub = a"
    by (auto simp: signs_as_def mks_KeySigner_def NewMockKeySigner_def is_signature_def)
  moreover from assms \<open>length ?h = 32\<close> obtain sig' where "ec_sign C key ?h = Inr sig'"
    "sig_to_pub C ?h sig' = Inr (public_key C key)"
    unfolding ecdsa_ok_def is_signature_def by blast
  ultimately show "pubkey_to_address C (public_key C key) = a" by simp
next
  assume "pubkey_to_address C (public_key C key) = a"
  with signs_as_PrivateKeySigner [OF assms, of key]
  show "signs_as C (mks_KeySigner C (NewMockKeySigner key a)) a"
    by (simp add: mks_KeySigner_def NewMockKeySigner_def PrivateKeySigner_def)
qed

section \<open>The EVM client on the mock chain\<close>

text \<open>\<open>Call\<close> passes a nil block number.\<close>

definition mock_chain :: "(eth_tx \<Rightarrow> hash) \<Rightarrow> mock_evm \<Rightarrow> evm" where
  "mock_chain tx_hash m =
     \<lparr> PendingNonceAt = mock_PendingNonceAt m, EstimateGas = mock_EstimateGas m,
       SuggestGasPrice = mock_SuggestGasPrice m, SuggestGasTipCap = mock_SuggestGasTipCap m,
       SignTx = mks_SignTx tx_hash, SendTransaction = mock_SendTransaction m,
       CallContract = (\<lambda>msg. mock_CallContract m msg None),
       TransactionByHash = mock_TransactionByHash m \<rparr>"

lemmas mock_methods =
  mock_NetworkID_def mock_BlockNumber_def mock_PendingNonceAt_def mock_NonceAt_def
  mock_SuggestGasPrice_def mock_SuggestGasTipCap_def mock_EstimateGas_def
  mock_SendTransaction_def mock_CallContract_def mock_TransactionReceipt_def
  mock_TransactionByHash_def mock_Batcher_def

lemmas mock_options =
  WithBatcherFunc_def WithBlockNumFunc_def WithPendingNonceAtFunc_def WithNonceAtFunc_def
  WithSuggestGasPriceFunc_def WithSuggestGasTipCapFunc_def WithEstimateGasFunc_def
  WithSendTransactionFunc_def WithCallContractFunc_def WithTransactionReceiptFunc_def
  WithTransactionByHashFunc_def NewMockEvm_def zero_mock_evm_def

lemma implemented_simps [simp]:
  "implemented None = Inl ErrNotImplemented" "implemented (Some r) = r"
  by (simp_all add: implemented_def)

lemma mock_chain_sign_ok: "sign_ok (mock_chain tx_hash m)"
  by (auto simp: sign_ok_def mock_chain_def mks_SignTx_def)

text \<open>A client on a mock chain takes the network id that the test gave.\<close>

lemma mock_client_chain_id:
  "\<exists>c. evmclient_New (mock_NetworkID (NewMockEvm nid opts)) a = Ok c \<and> chainID c = uint nid \<and> owner c = a"
  by (simp add: evmclient_New_def mock_methods NewMockEvm_def)

text \<open>Options that set different functions commute; of two that set the same one the last counts.\<close>

lemma mock_options_last:
  "NewMockEvm nid (opts @ [WithPendingNonceAtFunc f, WithPendingNonceAtFunc g]) =
   NewMockEvm nid (opts @ [WithPendingNonceAtFunc g])"
  "NewMockEvm nid (opts @ [WithPendingNonceAtFunc f, WithBlockNumFunc b]) =
   NewMockEvm nid (opts @ [WithBlockNumFunc b, WithPendingNonceAtFunc f])"
  by (simp_all add: mock_options)

text \<open>
  A transaction on a mock chain that answers all five questions of \<open>Send\<close>: it is sent with the
  chain's nonce, gas and fees, recorded as pending, and its waiter is started.
\<close>

lemma mock_send:
  assumes m: "m = NewMockEvm nid
      [WithPendingNonceAtFunc (\<lambda>_. Inr a), WithEstimateGasFunc (\<lambda>_. Inr gas),
       WithSuggestGasPriceFunc (Inr fee), WithSuggestGasTipCapFunc (Inr tip),
       WithSendTransactionFunc accept]"
    and new: "evmclient_New (mock_NetworkID m) own = Ok c"
    and req: "tr_To req = Some to" "tr_GasLimit req = 0" "tr_GasPrice req = None"
    and t: "t = \<lparr> tx_Nonce = a, tx_ChainID = uint nid, tx_To = Some to, tx_Value = tr_Value req,
      tx_Gas = gas, tx_GasFeeCap = fee, tx_GasTipCap = tip, tx_Data = tr_CallData req \<rparr>"
    and acc: "accept \<lparr> st_Tx = t, st_Hash = tx_hash t \<rparr> = Inr ()" and small: "a \<noteq> 0" "a \<le> 1024"
  obtains c' where "Send (mock_chain tx_hash m) now req c = (Ok (tx_hash t), c')"
    and "ec_log c' = [t]" and "nonce c' = a + 1" and "ec_spawned c' = [(tx_hash t, a)]"
    and "sentTxs c' = [tx_hash t \<mapsto> \<lparr> td_nonce = a, td_created = now \<rparr>]"
proof -
  let ?E = "mock_chain tx_hash m"
  have c: "owner c = own" "nonce c = 0" "sentTxs c = Map.empty" "ec_log c = []" "ec_spawned c = []"
    "chainID c = uint nid" "monitor c = newTxMonitor"
    using new by (auto simp: evmclient_New_def mock_methods m NewMockEvm_def)
  have E: "PendingNonceAt ?E own = Inr a" "EstimateGas ?E msg = Inr gas" "SuggestGasPrice ?E = Inr fee"
    "SuggestGasTipCap ?E = Inr tip" "SendTransaction ?E = accept" "SignTx ?E = mks_SignTx tx_hash" for msg
    by (simp_all add: mock_chain_def mock_methods mock_options m fun_eq_iff)
  have allow: "allowNonce a newTxMonitor"
    using small by (simp add: allowNonce_def newTxMonitor_def maxSentTxs_def)
  have get: "getNonce ?E (c\<lparr> AttemptedTxCount := n \<rparr>) =
      (Ok a, c\<lparr> AttemptedTxCount := n, nonce := a, LastUsedNonce := a \<rparr>)" for n
    using small E(1) c by (simp add: getNonce_def Let_def)
  have "newTx ?E c1 req a = Ok t" if "chainID c1 = uint nid" for c1
    using E c req t that by (simp add: newTx_def suggestMaxFeeAndTipCap_def)
  then show thesis
    using that get E(5,6) acc c allow req t
    by (simp add: Send_def abind_def awrap_def Send_with_def Send_record_def waitForTxn_def
        mks_SignTx_def Let_def)
qed

text \<open>
  What a test leaves out fails: without a nonce function \<open>Send\<close> fails and changes only the
  counter of attempts, and without a batch function the check of the transactions panics.
\<close>

lemma mock_send_unset:
  assumes "pendingNonceAtFunc m = None"
  shows "Send (mock_chain tx_hash m) now req c =
    (Fail (Err_Wrap ''failed to get nonce'' (Err_Wrap ''failed to get nonce'' ErrNotImplemented)),
     c\<lparr> AttemptedTxCount := Suc (AttemptedTxCount c) \<rparr>)"
  using assms by (simp add: Send_def abind_def awrap_def getNonce_def mock_chain_def mock_methods)

lemma mock_batch_unset: "BatchCallContext (mock_Batcher (NewMockEvm nid [])) batch = Panic"
  by (simp add: BatchCallContext_def mock_methods mock_options)

section \<open>pkg/evmclient/mock\<close>

record 'w mock_evm_client =
  SendFunc :: "(tx_request \<Rightarrow> ('w, hash) act) option"
  WaitForReceiptFunc :: "(hash \<Rightarrow> ('w, receipt) act) option"
  CallFunc :: "(tx_request \<Rightarrow> ('w, bytes) act) option"
  CancelFunc :: "(hash \<Rightarrow> ('w, hash) act) option"

definition mockevmclient_New ::
  "('w mock_evm_client \<Rightarrow> 'w mock_evm_client) list \<Rightarrow> 'w mock_evm_client" where
  "mockevmclient_New opts =
     fold (\<lambda>opt m. opt m) opts
       \<lparr> SendFunc = None, WaitForReceiptFunc = None, CallFunc = None, CancelFunc = None \<rparr>"

definition WithSendFunc ::
  "(tx_request \<Rightarrow> ('w, hash) act) \<Rightarrow> 'w mock_evm_client \<Rightarrow> 'w mock_evm_client" where
  "WithSendFunc f m = m\<lparr> SendFunc := Some f \<rparr>"

definition WithWaitForReceiptFunc ::
  "(hash \<Rightarrow> ('w, receipt) act) \<Rightarrow> 'w mock_evm_client \<Rightarrow> 'w mock_evm_client" where
  "WithWaitForReceiptFunc f m = m\<lparr> WaitForReceiptFunc := Some f \<rparr>"

definition WithCallFunc ::
  "(tx_request \<Rightarrow> ('w, bytes) act) \<Rightarrow> 'w mock_evm_client \<Rightarrow> 'w mock_evm_client" where
  "WithCallFunc f m = m\<lparr> CallFunc := Some f \<rparr>"

definition WithCancelFunc ::
  "(hash \<Rightarrow> ('w, hash) act) \<Rightarrow> 'w mock_evm_client \<Rightarrow> 'w mock_evm_client" where
  "WithCancelFunc f m = m\<lparr> CancelFunc := Some f \<rparr>"

definition unset_or :: "('a \<Rightarrow> ('w, 'b) act) option \<Rightarrow> 'a \<Rightarrow> ('w, 'b) act" where
  "unset_or f x = (case f of None \<Rightarrow> alift (Fail (Err_Msg ''not implemented'')) | Some g \<Rightarrow> g x)"

definition mock_interface :: "'w mock_evm_client \<Rightarrow> 'w evm_interface" where
  "mock_interface m =
     \<lparr> ei_Send = unset_or (SendFunc m), ei_WaitForReceipt = unset_or (WaitForReceiptFunc m),
       ei_Call = unset_or (CallFunc m), ei_CancelTx = unset_or (CancelFunc m) \<rparr>"

lemma unset_or_simps [simp]:
  "unset_or None x = alift (Fail (Err_Msg ''not implemented''))" "unset_or (Some g) x = g x"
  by (simp_all add: unset_or_def)

text \<open>
  The contract clients on the mock client: a view call gives the number that the mock's answer
  unpacks to, a paid call is a send and a wait, and an unset function is the call's error. A
  check with an unset function answers \<open>false\<close>.
\<close>

lemma mock_view:
  assumes "cc_client r = mock_interface (mockevmclient_New [WithCallFunc f])"
    and "abi_Pack (cc_abi r) method args = Inr callData"
    and "f (call_request (cc_addr r) callData None) w = (Ok buf, w')"
    and "abi_Unpack (cc_abi r) method buf = Inr (x # xs)"
  shows "view_call r method args w = (Ok x, w')"
  using assms
  by (simp add: view_call_def mock_interface_def mockevmclient_New_def WithCallFunc_def abind_def)

lemma mock_paid:
  assumes "cc_client r = mock_interface (mockevmclient_New [WithSendFunc f, WithWaitForReceiptFunc g])"
    and "abi_Pack (cc_abi r) method [] = Inr callData"
    and "f (call_request (cc_addr r) callData amount) w = (Ok h, w')" and "g h w' = (Ok rc, w'')"
  shows "paid_call r method amount w = (Ok (), w'')"
  using assms
  by (simp add: paid_call_def mock_interface_def mockevmclient_New_def WithSendFunc_def
      WithWaitForReceiptFunc_def abind_def)

lemma mock_unset:
  assumes "cc_client r = mock_interface (mockevmclient_New [])"
    and "abi_Pack (cc_abi r) method args = Inr callData"
  shows "view_call r method args w = (Fail (Err_Msg ''not implemented''), w)"
  using assms by (simp add: view_call_def mock_interface_def mockevmclient_New_def abind_def)

lemma mock_check_unset:
  assumes "cc_client r = mock_interface (mockevmclient_New [])"
    and "abi_Pack (cc_abi r) ''minAllowance'' [] = Inr callData"
  shows "registry_CheckBidderAllowance r a w = (Ok False, w)"
  using mock_unset [OF assms]
  by (simp add: registry_CheckBidderAllowance_def check_at_least_def GetMinAllowance_def)

end
