(* ===== verification/Test_Streams.thy ===== *)
theory Test_Streams
  imports P2p_Service Streams
begin

text \<open>
  \<open>pkg/p2p/testing/p2p.go\<close>: the p2p service that the unit tests use. A duplex stream is two
  streams of two channels each and two goroutines that pump one stream's \<open>out\<close> into the other's
  \<open>in\<close>. The pumps, the reads, the writes and the closings interleave as a step relation; the
  lemmas say what the double has in common with the real streams and where it differs.
\<close>

section \<open>The duplex stream\<close>

datatype side = Opener | Responder

fun far :: "side \<Rightarrow> side" where
  "far Opener = Responder"
| "far Responder = Opener"

lemma far_far [simp]: "far (far x) = x"
  by (cases x) simp_all

lemma side_cases: "x = y \<or> x = far y"
  by (cases x; cases y) simp_all

lemma far_neq [simp]: "far x \<noteq> x" "x \<noteq> far x"
  by (cases x; simp)+

record test_stream =
  ts_in :: "bytes chan"
  ts_out :: "bytes chan"

definition newStream :: test_stream where
  "newStream = \<lparr> ts_in = new_chan, ts_out = new_chan \<rparr>"

definition chanCap :: nat where
  "chanCap = 8"

text \<open>
  A pump waits for a message, holds one, or has returned. \<open>dx_sent\<close> and \<open>dx_got\<close> record what
  was written and read; \<open>dx_crashed\<close> is a panic of a goroutine.
\<close>

datatype pump = PumpIdle | PumpHolds bytes | PumpReturned

record duplex =
  dx_stream :: "side \<Rightarrow> test_stream"
  dx_pump :: "side \<Rightarrow> pump"
  dx_sent :: "side \<Rightarrow> bytes list"
  dx_got :: "side \<Rightarrow> bytes list"
  dx_crashed :: bool

definition NewDuplexStream :: duplex where
  "NewDuplexStream =
     \<lparr> dx_stream = (\<lambda>_. newStream), dx_pump = (\<lambda>_. PumpIdle), dx_sent = (\<lambda>_. []),
       dx_got = (\<lambda>_. []), dx_crashed = False \<rparr>"

text \<open>Receiving: a value, the end of a closed and drained channel, or a wait.\<close>

datatype 'a recv_result = Received 'a "'a chan" | RecvClosed | RecvBlock

definition chan_recv :: "'a chan \<Rightarrow> 'a recv_result" where
  "chan_recv c =
     (case ch_buf c of
        x # xs \<Rightarrow> Received x (c\<lparr> ch_buf := xs \<rparr>)
      | [] \<Rightarrow> if ch_closed c then RecvClosed else RecvBlock)"

text \<open>The operations; \<open>None\<close> is a call that waits.\<close>

definition test_ReadMsg :: "'m proto \<Rightarrow> side \<Rightarrow> duplex \<Rightarrow> ('m outcome \<times> duplex) option" where
  "test_ReadMsg PM x d =
     (case chan_recv (ts_in (dx_stream d x)) of
        RecvBlock \<Rightarrow> None
      | RecvClosed \<Rightarrow> Some (Fail (Err_Msg ''stream closed''), d)
      | Received buf c \<Rightarrow>
          Some (of_sum (Unmarshal PM buf),
            d\<lparr> dx_stream := (dx_stream d)(x := (dx_stream d x)\<lparr> ts_in := c \<rparr>),
               dx_got := (dx_got d)(x := dx_got d x @ [buf]) \<rparr>))"

definition test_WriteMsg :: "'m proto \<Rightarrow> side \<Rightarrow> 'm \<Rightarrow> duplex \<Rightarrow> (unit outcome \<times> duplex) option" where
  "test_WriteMsg PM x msg d =
     (case Marshal PM msg of
        Inl err \<Rightarrow> Some (Fail err, d)
      | Inr buf \<Rightarrow>
         (case chan_send chanCap (ts_out (dx_stream d x)) buf of
            SendPanic \<Rightarrow> Some (Panic, d\<lparr> dx_crashed := True \<rparr>)
          | SendBlock \<Rightarrow> None
          | Sent c \<Rightarrow>
              Some (Ok (),
                d\<lparr> dx_stream := (dx_stream d)(x := (dx_stream d x)\<lparr> ts_out := c \<rparr>),
                   dx_sent := (dx_sent d)(x := dx_sent d x @ [buf]) \<rparr>)))"

text \<open>\<open>Close\<close>; \<open>Reset\<close> has the same body.\<close>

definition test_Close :: "side \<Rightarrow> duplex \<Rightarrow> unit outcome \<times> duplex" where
  "test_Close x d =
     (case chan_close (ts_out (dx_stream d x)) of
        Ok c \<Rightarrow> (Ok (), d\<lparr> dx_stream := (dx_stream d)(x := (dx_stream d x)\<lparr> ts_out := c \<rparr>) \<rparr>)
      | _ \<Rightarrow> (Panic, d\<lparr> dx_crashed := True \<rparr>))"

definition test_Reset :: "side \<Rightarrow> duplex \<Rightarrow> unit outcome \<times> duplex" where
  "test_Reset x d = test_Close x d"

text \<open>One move of the goroutine that pumps from \<open>x\<close> to the other side.\<close>

definition pump_turn :: "side \<Rightarrow> duplex \<Rightarrow> duplex option" where
  "pump_turn x d =
     (case dx_pump d x of
        PumpReturned \<Rightarrow> None
      | PumpIdle \<Rightarrow>
         (case chan_recv (ts_out (dx_stream d x)) of
            RecvBlock \<Rightarrow> None
          | RecvClosed \<Rightarrow> Some (d\<lparr> dx_pump := (dx_pump d)(x := PumpReturned) \<rparr>)
          | Received msg c \<Rightarrow>
              Some (d\<lparr> dx_stream := (dx_stream d)(x := (dx_stream d x)\<lparr> ts_out := c \<rparr>),
                       dx_pump := (dx_pump d)(x := PumpHolds msg) \<rparr>))
      | PumpHolds msg \<Rightarrow>
         (let y = far x
          in case chan_send chanCap (ts_in (dx_stream d y)) msg of
               SendPanic \<Rightarrow> Some (d\<lparr> dx_crashed := True \<rparr>)
             | SendBlock \<Rightarrow> None
             | Sent c \<Rightarrow>
                 Some (d\<lparr> dx_stream := (dx_stream d)(y := (dx_stream d y)\<lparr> ts_in := c \<rparr>),
                          dx_pump := (dx_pump d)(x := PumpIdle) \<rparr>)))"

datatype 'm dx_label = DxRead side | DxWrite side 'm | DxClose side | DxPump side

inductive dx_step :: "'m proto \<Rightarrow> duplex \<Rightarrow> 'm dx_label \<Rightarrow> duplex \<Rightarrow> bool" for PM where
  dread: "\<not> dx_crashed d \<Longrightarrow> test_ReadMsg PM x d = Some (r, d') \<Longrightarrow> dx_step PM d (DxRead x) d'"
| dwrite: "\<not> dx_crashed d \<Longrightarrow> test_WriteMsg PM x m d = Some (r, d') \<Longrightarrow> dx_step PM d (DxWrite x m) d'"
| close: "\<not> dx_crashed d \<Longrightarrow> test_Close x d = (r, d') \<Longrightarrow> dx_step PM d (DxClose x) d'"
| pump: "\<not> dx_crashed d \<Longrightarrow> pump_turn x d = Some d' \<Longrightarrow> dx_step PM d (DxPump x) d'"

inductive_cases dx_readE: "dx_step PM d (DxRead x) d'"

definition dx_start :: "duplex \<Rightarrow> bool" where
  "dx_start d \<longleftrightarrow> d = NewDuplexStream"

section \<open>Order and bounds\<close>

text \<open>
  What side \<open>x\<close> wrote is what the other side read, followed by what is on its way: in the
  other side's \<open>in\<close>, in the pump's hand, in \<open>x\<close>'s \<open>out\<close>. Nobody closes an \<open>in\<close>.
\<close>

definition held :: "pump \<Rightarrow> bytes list" where
  "held p = (case p of PumpHolds msg \<Rightarrow> [msg] | _ \<Rightarrow> [])"

lemma held_simps [simp]: "held PumpIdle = []" "held (PumpHolds m) = [m]" "held PumpReturned = []"
  by (simp_all add: held_def)

definition on_its_way :: "side \<Rightarrow> duplex \<Rightarrow> bytes list" where
  "on_its_way x d = ch_buf (ts_in (dx_stream d (far x))) @ held (dx_pump d x) @ ch_buf (ts_out (dx_stream d x))"

definition lane_ok :: "side \<Rightarrow> duplex \<Rightarrow> bool" where
  "lane_ok x d \<longleftrightarrow>
     dx_sent d x = dx_got d (far x) @ on_its_way x d \<and>
     \<not> ch_closed (ts_in (dx_stream d (far x))) \<and>
     length (ch_buf (ts_in (dx_stream d (far x)))) \<le> chanCap \<and>
     length (ch_buf (ts_out (dx_stream d x))) \<le> chanCap \<and>
     (dx_pump d x = PumpReturned \<longrightarrow> ch_closed (ts_out (dx_stream d x)) \<and> ch_buf (ts_out (dx_stream d x)) = [])"

definition dx_inv :: "duplex \<Rightarrow> bool" where
  "dx_inv d \<longleftrightarrow> (\<forall>x. lane_ok x d)"

lemma chan_recv_cases:
  "chan_recv c = Received x c' \<longleftrightarrow> ch_buf c = x # ch_buf c' \<and> ch_closed c' = ch_closed c"
  "chan_recv c = RecvClosed \<longleftrightarrow> ch_buf c = [] \<and> ch_closed c"
  "chan_recv c = RecvBlock \<longleftrightarrow> ch_buf c = [] \<and> \<not> ch_closed c"
  by (cases c; cases c'; auto simp: chan_recv_def split: list.splits)+

lemma chan_send_cases:
  "chan_send n c x = Sent c' \<longleftrightarrow>
     \<not> ch_closed c \<and> length (ch_buf c) < n \<and> ch_buf c' = ch_buf c @ [x] \<and> \<not> ch_closed c'"
  "chan_send n c x = SendPanic \<longleftrightarrow> ch_closed c"
  by (cases c; cases c'; auto simp: chan_send_def)+

lemma chan_close_cases:
  "chan_close c = Ok c' \<longleftrightarrow> \<not> ch_closed c \<and> ch_buf c' = ch_buf c \<and> ch_closed c'"
  "chan_close c = Panic \<longleftrightarrow> ch_closed c" "chan_close c \<noteq> Fail e"
  by (cases c; cases c'; auto simp: chan_close_def)+

text \<open>The steps, by what they do to the two lanes.\<close>

lemma read_lane:
  assumes "test_ReadMsg PM x d = Some (r, d')" and "dx_inv d"
  shows "lane_ok z d'"
proof -
  have z: "lane_ok z d" "lane_ok (far x) d" using assms(2) by (simp_all add: dx_inv_def)
  from side_cases [of z x] z assms(1) show ?thesis
    by (auto simp: test_ReadMsg_def lane_ok_def on_its_way_def chan_recv_cases
        split: recv_result.splits)
qed

lemma write_lane:
  assumes "test_WriteMsg PM x m d = Some (r, d')" and "dx_inv d"
  shows "lane_ok z d'"
proof -
  have z: "lane_ok z d" "lane_ok x d" using assms(2) by (simp_all add: dx_inv_def)
  from side_cases [of z x] z assms(1) show ?thesis
    by (auto simp: test_WriteMsg_def lane_ok_def on_its_way_def chan_send_cases
        split: sum.splits send_result.splits)
qed

lemma close_lane:
  assumes "test_Close x d = (r, d')" and "dx_inv d"
  shows "lane_ok z d'"
proof -
  have z: "lane_ok z d" "lane_ok x d" using assms(2) by (simp_all add: dx_inv_def)
  from side_cases [of z x] z assms(1) show ?thesis
    by (auto simp: test_Close_def lane_ok_def on_its_way_def chan_close_cases split: outcome.splits)
qed

lemma pump_lane:
  assumes "pump_turn x d = Some d'" and "dx_inv d"
  shows "lane_ok z d' \<and> dx_crashed d' = dx_crashed d"
proof -
  have z: "lane_ok z d" "lane_ok x d" using assms(2) by (simp_all add: dx_inv_def)
  from side_cases [of z x] z assms(1) show ?thesis
    by (auto simp: pump_turn_def lane_ok_def on_its_way_def chan_recv_cases chan_send_cases Let_def
        split: pump.splits recv_result.splits send_result.splits)
qed

interpretation dx: invariant_system dx_start "dx_step PM" dx_inv for PM
proof unfold_locales
  show "dx_inv d" if "dx_start d" for d
    using that by (simp add: dx_start_def dx_inv_def lane_ok_def on_its_way_def NewDuplexStream_def newStream_def)
  show "dx_inv d'" if "dx_inv d" "dx_step PM d l d'" for d l d'
    using that(2,1)
    by (induction rule: dx_step.induct)
       (metis dx_inv_def read_lane, metis dx_inv_def write_lane, metis dx_inv_def close_lane,
        metis dx_inv_def pump_lane)
qed

text \<open>Messages arrive in the order they were written, and at most 17 are unread.\<close>

lemma duplex_in_order:
  assumes "reach dx_start (dx_step PM) d"
  shows "dx_sent d x = dx_got d (far x) @ on_its_way x d" and "length (on_its_way x d) \<le> 17"
proof -
  from dx.reach_inv [OF assms] have l: "lane_ok x d" by (simp add: dx_inv_def)
  moreover have "length (held (dx_pump d x)) \<le> 1" by (cases "dx_pump d x") simp_all
  ultimately show "dx_sent d x = dx_got d (far x) @ on_its_way x d" "length (on_its_way x d) \<le> 17"
    by (auto simp: lane_ok_def on_its_way_def chanCap_def)
qed

text \<open>The \<open>n\<close>-th read gives the \<open>n\<close>-th message that was written, as on a real stream.\<close>

definition all_marshalled :: "'m proto \<Rightarrow> duplex \<Rightarrow> bool" where
  "all_marshalled PM d \<longleftrightarrow> (\<forall>x. \<forall>buf \<in> set (dx_sent d x). \<exists>m. Marshal PM m = Inr buf)"

lemma pump_turn_sent: "pump_turn x d = Some d' \<Longrightarrow> dx_sent d' = dx_sent d"
  by (auto simp: pump_turn_def Let_def split: pump.splits recv_result.splits send_result.splits)

lemma all_marshalled_step:
  assumes "dx_step PM d l d'" and "all_marshalled PM d"
  shows "all_marshalled PM d'"
  using assms
proof (induction rule: dx_step.induct)
  case (dread d x r d')
  then have "dx_sent d' = dx_sent d" by (auto simp: test_ReadMsg_def split: recv_result.splits)
  with dread show ?case by (simp add: all_marshalled_def)
next
  case (dwrite d x m r d')
  then show ?case
    by (auto simp: test_WriteMsg_def all_marshalled_def split: sum.splits send_result.splits if_splits)
next
  case (close d x r d')
  then have "dx_sent d' = dx_sent d" by (auto simp: test_Close_def split: outcome.splits)
  with close show ?case by (simp add: all_marshalled_def)
next
  case (pump d x d')
  then show ?case by (simp add: all_marshalled_def pump_turn_sent)
qed

interpretation dxm: invariant_system dx_start "dx_step PM" "all_marshalled PM" for PM
  by unfold_locales (auto simp: dx_start_def all_marshalled_def NewDuplexStream_def
      intro: all_marshalled_step [unfolded all_marshalled_def, rule_format])

lemma duplex_roundtrip:
  assumes "reach dx_start (dx_step PM) d" and "proto_ok PM"
    and "test_ReadMsg PM (far x) d = Some (r, d')"
  obtains m where "r = Ok m" and "Marshal PM m = Inr (dx_sent d x ! length (dx_got d (far x)))"
proof -
  from dx.reach_inv [OF assms(1)] have l: "lane_ok x d" by (simp add: dx_inv_def)
  then obtain buf bs where b: "ch_buf (ts_in (dx_stream d (far x))) = buf # bs"
    "r = of_sum (Unmarshal PM buf)"
    using assms(3) by (auto simp: test_ReadMsg_def lane_ok_def chan_recv_cases split: recv_result.splits)
  with l have s: "dx_sent d x = dx_got d (far x) @ buf # bs @ held (dx_pump d x) @ ch_buf (ts_out (dx_stream d x))"
    by (simp add: lane_ok_def on_its_way_def)
  then have "buf \<in> set (dx_sent d x)" by simp
  with dxm.reach_inv [OF assms(1)] obtain m where m: "Marshal PM m = Inr buf"
    unfolding all_marshalled_def by blast
  with assms(2) b(2) have "r = Ok m" by (simp add: proto_ok_def)
  with that m s show thesis by simp
qed

section \<open>The end of a stream\<close>

text \<open>
  The pump returns without closing the other side's \<open>in\<close>: \<open>ReadMsg\<close> never returns \<open>stream
  closed\<close>, and a reader that has drained a closed stream waits for ever.
\<close>

lemma read_never_closed:
  assumes "reach dx_start (dx_step PM) d" and "test_ReadMsg PM x d = Some (r, d')"
  shows "\<exists>buf. ch_buf (ts_in (dx_stream d x)) = buf # ch_buf (ts_in (dx_stream d' x)) \<and>
    r = of_sum (Unmarshal PM buf)"
proof -
  from dx.reach_inv [OF assms(1)] have "lane_ok (far x) d" by (simp add: dx_inv_def)
  with assms(2) show ?thesis
    by (auto simp: test_ReadMsg_def lane_ok_def chan_recv_cases split: recv_result.splits)
qed

definition drained :: "side \<Rightarrow> duplex \<Rightarrow> bool" where
  "drained x d \<longleftrightarrow> ch_closed (ts_out (dx_stream d x)) \<and> on_its_way x d = []"

lemma drained_step:
  assumes "dx_step PM d l d'" and "drained x d" and "dx_inv d"
  shows "drained x d' \<and> l \<noteq> DxRead (far x)"
  using assms
proof (induction rule: dx_step.induct)
  case (dread d y r d')
  then have "lane_ok x d" by (simp add: dx_inv_def)
  with dread side_cases [of y x] show ?case
    by (auto simp: test_ReadMsg_def drained_def on_its_way_def lane_ok_def chan_recv_cases
        split: recv_result.splits)
next
  case (dwrite d y m r d')
  with side_cases [of y x] show ?case
    by (auto simp: test_WriteMsg_def drained_def on_its_way_def chan_send_cases
        split: sum.splits send_result.splits)
next
  case (close d y r d')
  with side_cases [of y x] show ?case
    by (auto simp: test_Close_def drained_def on_its_way_def chan_close_cases split: outcome.splits)
next
  case (pump d y d')
  with side_cases [of y x] show ?case
    by (auto simp: pump_turn_def drained_def on_its_way_def chan_recv_cases chan_send_cases Let_def
        split: pump.splits recv_result.splits send_result.splits)
qed

lemma reader_waits_for_ever:
  assumes "steps (dx_step PM) d ls d'" and "drained x d" and "dx_inv d"
  shows "DxRead (far x) \<notin> set ls" and "test_ReadMsg PM (far x) d' = None"
proof -
  have "drained x d' \<and> dx_inv d' \<and> DxRead (far x) \<notin> set ls"
    using assms
  proof (induction rule: steps.induct)
    case (steps_Cons s l s' ls s'')
    with drained_step [OF steps_Cons.hyps(1)] dx.inv_next [OF _ steps_Cons.hyps(1)]
    show ?case by auto
  qed simp
  then show "DxRead (far x) \<notin> set ls" "test_ReadMsg PM (far x) d' = None"
    by (auto simp: drained_def on_its_way_def dx_inv_def lane_ok_def test_ReadMsg_def chan_recv_def)
qed

text \<open>A second \<open>Close\<close> or \<open>Reset\<close> of a stream, and a write after it, panic.\<close>

lemma second_close_panics:
  assumes "test_Close x d = (Ok (), d')"
  shows "fst (test_Close x d') = Panic" and "fst (test_Reset x d') = Panic"
    and "Marshal PM m = Inr buf \<Longrightarrow> \<exists>d''. test_WriteMsg PM x m d' = Some (Panic, d'')"
  using assms
  by (auto simp: test_Close_def test_Reset_def test_WriteMsg_def chan_close_def chan_send_def
      split: outcome.splits if_splits)

section \<open>P2PTest\<close>

text \<open>
  The service double. \<open>hex\<close> is \<open>Address.Hex()\<close>. A handler is a Go function, so it may be nil; the
  double never calls a descriptor's header function.
\<close>

record 'h test_desc = stream_desc +
  sd_Handler :: "'h option"

record 'h p2p_test =
  pt_self :: peer
  pt_handlers :: "string \<rightharpoonup> 'h test_desc list"
  pt_connectFunc :: "(bytes \<Rightarrow> peer outcome) option"
  pt_addressbookFunc :: "(peer \<Rightarrow> bytes outcome) option"

definition WithConnectFunc :: "(bytes \<Rightarrow> peer outcome) \<Rightarrow> 'h p2p_test \<Rightarrow> 'h p2p_test" where
  "WithConnectFunc f p = p\<lparr> pt_connectFunc := Some f \<rparr>"

definition WithAddressbookFunc :: "(peer \<Rightarrow> bytes outcome) \<Rightarrow> 'h p2p_test \<Rightarrow> 'h p2p_test" where
  "WithAddressbookFunc f p = p\<lparr> pt_addressbookFunc := Some f \<rparr>"

definition p2ptest_New :: "peer \<Rightarrow> ('h p2p_test \<Rightarrow> 'h p2p_test) list \<Rightarrow> 'h p2p_test" where
  "p2ptest_New selfNode opts =
     fold (\<lambda>opt p. opt p) opts
       \<lparr> pt_self = selfNode, pt_handlers = Map.empty, pt_connectFunc = None,
         pt_addressbookFunc = None \<rparr>"

definition SetPeerHandler ::
  "(address \<Rightarrow> string) \<Rightarrow> peer \<Rightarrow> 'h test_desc \<Rightarrow> 'h p2p_test \<Rightarrow> 'h p2p_test" where
  "SetPeerHandler hex q desc p =
     (let k = hex (EthAddress q)
      in p\<lparr> pt_handlers := (pt_handlers p)(k \<mapsto>
              (case pt_handlers p k of None \<Rightarrow> [] | Some hs \<Rightarrow> hs) @ [desc]) \<rparr>)"

definition p2ptest_Connect :: "'h p2p_test \<Rightarrow> bytes \<Rightarrow> peer outcome" where
  "p2ptest_Connect p addr =
     (case pt_connectFunc p of
        Some f \<Rightarrow> f addr | None \<Rightarrow> Fail (Err_Msg ''connect not implemented''))"

definition p2ptest_GetPeerInfo :: "'h p2p_test \<Rightarrow> peer \<Rightarrow> bytes outcome" where
  "p2ptest_GetPeerInfo p q =
     (case pt_addressbookFunc p of
        Some f \<Rightarrow> f q | None \<Rightarrow> Fail (Err_Msg ''addressbook not implemented''))"

text \<open>The loop stops at the first handler of that name and version, even when it is nil.\<close>

definition find_handler :: "stream_desc \<Rightarrow> 'h test_desc list \<Rightarrow> 'h option" where
  "find_handler desc hs =
     (case find (\<lambda>h. sd_Name h = sd_Name desc \<and> sd_Version h = sd_Version desc) hs of
        None \<Rightarrow> None | Some h \<Rightarrow> sd_Handler h)"

text \<open>
  \<open>NewStream\<close> starts the handler, which sees the tested node as its peer, in a goroutine, and
  returns the opener's end of a new duplex stream.
\<close>

definition p2ptest_NewStream ::
  "(address \<Rightarrow> string) \<Rightarrow> 'h p2p_test \<Rightarrow> peer \<Rightarrow> stream_desc \<Rightarrow> ('h \<times> peer \<times> duplex) outcome" where
  "p2ptest_NewStream hex p q desc =
     (case pt_handlers p (hex (EthAddress q)) of
        None \<Rightarrow> Fail (Err_Msg ''peer not found'')
      | Some hs \<Rightarrow>
         (case find_handler desc hs of
            None \<Rightarrow> Fail (Err_Msg ''stream not found'')
          | Some h \<Rightarrow> Ok (h, pt_self p, NewDuplexStream)))"

text \<open>
  The end of that goroutine: an error of the handler is a panic, and the deferred \<open>Close\<close> of the
  handler's end runs in either case (where it may panic itself).
\<close>

definition handler_returns :: "unit outcome \<Rightarrow> duplex \<Rightarrow> unit outcome \<times> duplex" where
  "handler_returns r d =
     (case test_Close Responder d of
        (c, d') \<Rightarrow>
          if r = Ok () \<and> c = Ok () then (Ok (), d') else (Panic, d'\<lparr> dx_crashed := True \<rparr>))"

text \<open>
  What the double opens a real service would open: a handler of the very name and version also
  matches by semantic version. The double is stricter, since it takes no older minor version.
\<close>

lemma find_handler_SomeD:
  assumes "find_handler desc hs = Some h"
  obtains t where "t \<in> set hs" and "sd_Handler t = Some h"
    and "sd_Name t = sd_Name desc" and "sd_Version t = sd_Version desc"
  using assms by (auto simp: find_handler_def find_Some_iff split: option.splits intro!: nth_mem)

lemma streamID_parts:
  assumes "CHR ''/'' \<notin> set name" "CHR ''/'' \<notin> set version"
  shows "split_on CHR ''/'' (streamID name version) = [[], name, version]"
  using assms by (simp add: streamID_def split_on_append split_on_whole)

lemma test_stream_is_real:
  assumes "p2ptest_NewStream hex p q desc = Ok (h, me, d)"
    and "CHR ''/'' \<notin> set (sd_Name desc)" "CHR ''/'' \<notin> set (sd_Version desc)"
    and "NewVersion (sd_Version desc) = Inr v"
  obtains t hs where "pt_handlers p (hex (EthAddress q)) = Some hs" and "t \<in> set hs"
    and "sd_Handler t = Some h" and "me = pt_self p"
    and "handler_matches NewVersion (sd_Name t) (sd_Version t) (streamID (sd_Name desc) (sd_Version desc))"
proof -
  from assms(1) obtain hs where hs: "pt_handlers p (hex (EthAddress q)) = Some hs"
    "find_handler desc hs = Some h" "me = pt_self p"
    by (auto simp: p2ptest_NewStream_def split: option.splits)
  from hs(2) obtain t where t: "t \<in> set hs" "sd_Handler t = Some h"
    "sd_Name t = sd_Name desc" "sd_Version t = sd_Version desc"
    by (rule find_handler_SomeD)
  have "handler_matches NewVersion (sd_Name t) (sd_Version t) (streamID (sd_Name desc) (sd_Version desc))"
    using t(3,4) assms(4)
    by (simp add: handler_matches_def matchProtocolIDWithSemver_def streamID_parts [OF assms(2,3)])
  with that hs t show thesis by blast
qed

lemma SetPeerHandler_opens:
  assumes "\<And>t hs. pt_handlers p (hex (EthAddress q)) = Some hs \<Longrightarrow> t \<in> set hs \<Longrightarrow>
      \<not> (sd_Name t = sd_Name desc \<and> sd_Version t = sd_Version desc)"
    and "sd_Name t = sd_Name desc" "sd_Version t = sd_Version desc" "sd_Handler t = Some h"
  shows "p2ptest_NewStream hex (SetPeerHandler hex q t p) q desc = Ok (h, pt_self p, NewDuplexStream)"
proof -
  have skip: "find P (hs @ [t]) = Some t" if "\<And>x. x \<in> set hs \<Longrightarrow> \<not> P x" "P t" for hs P
    using that by (induction hs) auto
  show ?thesis
    using assms
    by (auto simp: p2ptest_NewStream_def SetPeerHandler_def find_handler_def Let_def skip split: option.splits)
qed

text \<open>
  The double hides the error path of the real service: there an error of a handler is written to
  the stream (or the stream is reset), here the test process dies.
\<close>

lemma handler_error_crashes:
  "dx_crashed (snd (handler_returns (Fail e) d))" "fst (handler_returns (Fail e) d) = Panic"
  by (simp_all add: handler_returns_def split: prod.split)

lemma handler_done_unanswered:
  assumes "handler_returns (Ok ()) d = (Ok (), d')" and "on_its_way Responder d = []" and "dx_inv d"
    and "steps (dx_step PM) d' ls d''"
  shows "test_ReadMsg PM Opener d'' = None"
proof -
  have c: "test_Close Responder d = (Ok (), d')"
    using assms(1) by (auto simp: handler_returns_def split: prod.splits if_splits)
  have "drained Responder d'"
    using c assms(2) by (auto simp: test_Close_def drained_def on_its_way_def chan_close_cases split: outcome.splits)
  moreover have "dx_inv d'" using close_lane [OF c assms(3)] by (simp add: dx_inv_def)
  ultimately show ?thesis using reader_waits_for_ever(2) [OF assms(4)] by fastforce
qed

end
