(* ===== verification/Program_Mains.thy ===== *)
theory Program_Mains
  imports Bidder_Programs Metrics
begin

text \<open>
  The \<open>main\<close> functions of \<open>integrationtest/bidder\<close>, \<open>integrationtest/real-bidder\<close>,
  \<open>integrationtest/provider\<close> and \<open>examples/provideremulator\<close>: their flags and collectors, what
  each starts and in which order, and what is closed when it returns. The lemmas say which
  starts lead to a running program and that a provider answers no bid before it has a stake.
\<close>

section \<open>Flags, collectors, events\<close>

text \<open>A flag has a default; \<open>given\<close> holds those that \<open>flag.Parse\<close> found on the command line.\<close>

type_synonym flags = "(string \<times> opt_value) list"

definition flag_value :: "flags \<Rightarrow> (string \<rightharpoonup> opt_value) \<Rightarrow> string \<Rightarrow> opt_value option" where
  "flag_value defaults given name =
     (case given name of Some v \<Rightarrow> Some v | None \<Rightarrow> map_of defaults name)"

definition flag_str :: "flags \<Rightarrow> (string \<rightharpoonup> opt_value) \<Rightarrow> string \<Rightarrow> string" where
  "flag_str defaults given name =
     (case flag_value defaults given name of Some (VStr s) \<Rightarrow> s | _ \<Rightarrow> [])"

definition flag_int :: "flags \<Rightarrow> (string \<rightharpoonup> opt_value) \<Rightarrow> string \<Rightarrow> int" where
  "flag_int defaults given name =
     (case flag_value defaults given name of Some (VInt i) \<Rightarrow> i | _ \<Rightarrow> 0)"

definition bidder_flags :: flags where
  "bidder_flags =
     [(''server-addr'', VStr ''localhost:13524''), (''rpc-addr'', VStr ''localhost:13524''),
      (''log-level'', VStr ''debug''), (''log-fmt'', VStr ''text''), (''log-tags'', VStr []),
      (''http-port'', VInt 8080), (''parallel-workers'', VInt 7)]"

definition real_bidder_flags :: flags where
  "real_bidder_flags =
     [(''server-addr'', VStr ''localhost:13524''), (''rpc-addr'', VStr ''localhost:13524''),
      (''log-level'', VStr ''debug''), (''http-port'', VInt 8080)]"

definition provider_flags :: flags where
  "provider_flags =
     [(''server-addr'', VStr ''localhost:13524''), (''log-level'', VStr ''debug''),
      (''log-fmt'', VStr ''text''), (''log-tags'', VStr []), (''http-port'', VInt 8080),
      (''error-probability'', VInt 20)]"

definition emulator_flags :: flags where
  "emulator_flags = [(''server-addr'', VStr ''localhost:13524''), (''log-level'', VStr ''debug'')]"

text \<open>
  The collectors. The histogram \<open>sendBidDuration\<close> of the real bidder and the counter
  \<open>rejectedBids\<close> of the provider exist without being registered.
\<close>

definition emulator_collector :: "string \<Rightarrow> metric_kind \<Rightarrow> string \<Rightarrow> collector" where
  "emulator_collector sub kind name =
     \<lparr> co_kind = kind, co_Namespace = ''mev_commit'', co_Subsystem = sub, co_Name = name \<rparr>"

definition bidder_collectors :: "collector list" where
  "bidder_collectors =
     [emulator_collector ''bidder_emulator'' Counter ''total_received_preconfs'',
      emulator_collector ''bidder_emulator'' Counter ''total_sent_bids'',
      emulator_collector ''bidder_emulator'' Gauge ''send_bid_success_duration'',
      emulator_collector ''bidder_emulator'' Gauge ''send_bid_failure_duration'']"

definition real_bidder_collectors :: "collector list" where
  "real_bidder_collectors =
     [emulator_collector ''bidder_emulator'' Counter ''total_received_preconfs'',
      emulator_collector ''bidder_emulator'' Counter ''total_sent_bids'']"

definition provider_collectors :: "collector list" where
  "provider_collectors =
     [emulator_collector ''provider_emulator'' Counter ''total_received_bids'',
      emulator_collector ''provider_emulator'' Counter ''total_sent_bids'']"

definition rejectedBids :: collector where
  "rejectedBids = emulator_collector ''provider_emulator'' Counter ''total_rejected_bids''"

text \<open>What a program did, in order, and how it stands.\<close>

datatype 'c prog_event =
    ServeMetrics string
  | StartPrepayLoop
  | StartWorker
  | Responded bid_response
  | CloseConn 'c

datatype prog_end = Returned | Running | Crashed

section \<open>integrationtest/bidder\<close>

text \<open>
  The libraries at start-up: the logger's level, the registry, the connection to the chain and
  the dials of the node's API.
\<close>

record ('r, 'c) prog_env =
  pe_levelOk :: "string \<Rightarrow> go_error option"
  pe_utf8 :: "string \<Rightarrow> string"
  pe_prom :: "'r prom_lib"
  pe_rpcDial :: "string \<Rightarrow> go_error option"
  pe_dial :: "strategy \<Rightarrow> go_error + 'c"

definition metrics_addr :: "int \<Rightarrow> string" where
  "metrics_addr port = '':'' @ show_int port"

definition register_all_of :: "'r prom_lib \<Rightarrow> collector list \<Rightarrow> unit outcome" where
  "register_all_of P cs = fst (MustRegister P (map (co_FQName P) cs) (NewRegistry P))"

definition bidder_main ::
  "('r, 'c) prog_env \<Rightarrow> (string \<rightharpoonup> opt_value) \<Rightarrow> prog_end \<times> 'c prog_event list" where
  "bidder_main E given =
     (let str = flag_str bidder_flags given; int = flag_int bidder_flags given
      in case NewLogger (pe_levelOk E) (pe_utf8 E) (str ''log-level'') (str ''log-fmt'') (str ''log-tags'') of
           Panic \<Rightarrow> (Crashed, [])
         | Fail _ \<Rightarrow> (Returned, [])
         | Ok _ \<Rightarrow>
        if str ''server-addr'' = [] then (Returned, [])
        else case register_all_of (pe_prom E) bidder_collectors of
           Panic \<Rightarrow> (Crashed, [])
         | Fail _ \<Rightarrow> (Crashed, [])
         | Ok _ \<Rightarrow>
        let es = [ServeMetrics (metrics_addr (int ''http-port''))]
        in case pe_rpcDial E (str ''rpc-addr'') of
             Some _ \<Rightarrow> (Returned, es)
           | None \<Rightarrow>
          (case dial_first (pe_dial E) dial_strategies of
             None \<Rightarrow> (Returned, es)
           | Some conn \<Rightarrow>
               (Running, es @ StartPrepayLoop # replicate (nat (int ''parallel-workers'')) StartWorker)))"

section \<open>integrationtest/real-bidder\<close>

text \<open>A level that does not parse is replaced by \<open>debug\<close>, so there is always a logger.\<close>

definition text_logger :: "(string \<Rightarrow> go_error option) \<Rightarrow> string \<Rightarrow> string" where
  "text_logger levelOk lvl = (case levelOk lvl of None \<Rightarrow> lvl | Some _ \<Rightarrow> ''debug'')"

text \<open>The only dial is the second strategy, without waiting for the connection.\<close>

definition real_bidder_main ::
  "('r, 'c) prog_env \<Rightarrow> (string \<rightharpoonup> opt_value) \<Rightarrow> prog_end \<times> 'c prog_event list" where
  "real_bidder_main E given =
     (let str = flag_str real_bidder_flags given; int = flag_int real_bidder_flags given
      in if str ''server-addr'' = [] then (Returned, [])
        else case register_all_of (pe_prom E) real_bidder_collectors of
           Panic \<Rightarrow> (Crashed, [])
         | Fail _ \<Rightarrow> (Crashed, [])
         | Ok _ \<Rightarrow>
        let es = [ServeMetrics (metrics_addr (int ''http-port''))]
        in case pe_rpcDial E (str ''rpc-addr'') of
             Some _ \<Rightarrow> (Returned, es)
           | None \<Rightarrow>
          (case pe_dial E TlsSkipVerification of
             Inl _ \<Rightarrow> (Returned, es)
           | Inr conn \<Rightarrow> (Running, es @ [StartPrepayLoop, StartWorker])))"

text \<open>
  One turn of its worker, from the block it fetched: the bundles, and the pause after each in
  nanoseconds. There is no pause after a failed fetch.
\<close>

definition real_turn ::
  "nat \<Rightarrow> go_error + string list \<times> i64 \<Rightarrow> (nat \<Rightarrow> nat) \<Rightarrow> unit outcome \<times> string list list \<times> nat list" where
  "real_turn capacity fetched draw =
     (case fetched of
        Inl _ \<Rightarrow> (Ok (), [], [])
      | Inr (block, blkNum) \<Rightarrow>
          if block = [] then (Ok (), [], [])
          else let throtle = 12000000000 div length block
               in (case bid_on_block capacity block draw of
                     (r, bundles) \<Rightarrow> (r, bundles, replicate (length bundles) throtle)))"

section \<open>integrationtest/provider\<close>

text \<open>
  From the client on. \<open>bids\<close> are the bids that arrive, with the draws, and whether the stream
  ended after them; the deferred \<open>Close\<close> runs on every return.
\<close>

definition provider_session ::
  "'w provider_api \<Rightarrow> go_error + (prov_bid \<times> int) list \<times> bool \<Rightarrow> (bid_response \<Rightarrow> go_error option) \<Rightarrow>
     int \<Rightarrow> 'c \<Rightarrow> 'w \<Rightarrow> (prog_end \<times> 'c prog_event list) \<times> 'w" where
  "provider_session A received respond p conn = (\<lambda>w.
     case CheckAndStake A w of
       (Panic, w1) \<Rightarrow> ((Crashed, []), w1)
     | (Fail _, w1) \<Rightarrow> ((Returned, [CloseConn conn]), w1)
     | (Ok _, w1) \<Rightarrow>
        (case received of
           Inl _ \<Rightarrow> ((Returned, [CloseConn conn]), w1)
         | Inr (bids, ended) \<Rightarrow>
             let rs = fst (provider_loop p respond bids)
             in (if length rs = length bids \<and> \<not> ended
                 then (Running, map Responded rs)
                 else (Returned, map Responded rs @ [CloseConn conn]), w1)))"

definition provider_main ::
  "('r, 'c) prog_env \<Rightarrow> ('c \<Rightarrow> go_error + 's) \<Rightarrow> ('c \<Rightarrow> go_error option) \<Rightarrow> 'w provider_api \<Rightarrow>
     go_error + (prov_bid \<times> int) list \<times> bool \<Rightarrow> (bid_response \<Rightarrow> go_error option) \<Rightarrow>
     (string \<rightharpoonup> opt_value) \<Rightarrow> 'w \<Rightarrow> (prog_end \<times> 'c prog_event list) \<times> 'w" where
  "provider_main E sendProcessedBids closeConn A received respond given = (\<lambda>w.
     let str = flag_str provider_flags given; int = flag_int provider_flags given
     in case NewLogger (pe_levelOk E) (pe_utf8 E) (str ''log-level'') (str ''log-fmt'') (str ''log-tags'') of
          Panic \<Rightarrow> ((Crashed, []), w)
        | Fail _ \<Rightarrow> ((Returned, []), w)
        | Ok _ \<Rightarrow>
       if str ''server-addr'' = [] then ((Returned, []), w)
       else case register_all_of (pe_prom E) provider_collectors of
          Panic \<Rightarrow> ((Crashed, []), w)
        | Fail _ \<Rightarrow> ((Crashed, []), w)
        | Ok _ \<Rightarrow>
       let es = [ServeMetrics (metrics_addr (int ''http-port''))]
       in case NewProviderClient (pe_dial E) sendProcessedBids closeConn of
            (Ok (conn, stream), _) \<Rightarrow>
              (case provider_session A received respond (int ''error-probability'') conn w of
                 ((e, es'), w1) \<Rightarrow> ((e, es @ es'), w1))
          | (_, closed) \<Rightarrow> ((Returned, es @ map CloseConn closed), w))"

section \<open>examples/provideremulator\<close>

text \<open>
  Its client dials once, without security, and an error of \<open>SendProcessedBids\<close> leaves the
  connection open. The second component lists the connections that were closed.
\<close>

definition example_NewProviderClient ::
  "(strategy \<Rightarrow> go_error + 'c) \<Rightarrow> ('c \<Rightarrow> go_error + 's) \<Rightarrow> ('c \<times> 's) outcome \<times> 'c list" where
  "example_NewProviderClient dial sendProcessedBids =
     (case dial TlsDisabled of
        Inl err \<Rightarrow> (Fail err, [])
      | Inr conn \<Rightarrow>
         (case sendProcessedBids conn of
            Inl err \<Rightarrow> (Fail err, [])
          | Inr stream \<Rightarrow> (Ok (conn, stream), [])))"

text \<open>Its \<open>main\<close> has no deferred \<open>Close\<close>; a closed bid stream or a failed answer ends it.\<close>

definition emulator_main ::
  "('r, 'c) prog_env \<Rightarrow> ('c \<Rightarrow> go_error + 's) \<Rightarrow> go_error + prov_bid list \<times> bool \<Rightarrow>
     (bid_response \<Rightarrow> go_error option) \<Rightarrow> (string \<rightharpoonup> opt_value) \<Rightarrow> prog_end \<times> 'c prog_event list" where
  "emulator_main E sendProcessedBids received respond given =
     (if flag_str emulator_flags given ''server-addr'' = [] then (Returned, [])
      else case example_NewProviderClient (pe_dial E) sendProcessedBids of
          (Ok (conn, stream), _) \<Rightarrow>
            (case received of
               Inl _ \<Rightarrow> (Returned, [])
             | Inr (bids, ended) \<Rightarrow>
                 let rs = accept_loop respond bids
                 in (if length rs = length bids \<and> \<not> ended then Running else Returned,
                     map Responded rs))
        | (_, closed) \<Rightarrow> (Returned, map CloseConn closed))"

section \<open>The collectors register\<close>

lemmas emulator_names =
  bidder_collectors_def real_bidder_collectors_def provider_collectors_def emulator_collector_def
  join_parts_def

lemma register_all_of_ok:
  assumes "prom_ok P" and "list_all valid_name ns" "distinct ns"
    and "map (\<lambda>c. join_parts (co_Namespace c) (co_Subsystem c) (co_Name c)) cs = ns"
  shows "register_all_of P cs = Ok ()"
proof -
  have "map (co_FQName P) cs = ns" using assms(1,4) by (auto simp: co_FQName_def prom_ok_def)
  moreover have "reg_names P (NewRegistry P) = {}" using assms(1) by (simp add: prom_ok_def)
  ultimately show ?thesis
    using MustRegister_Ok [OF assms(1-3), of "NewRegistry P"] by (auto simp: register_all_of_def)
qed

lemma programs_register:
  assumes "prom_ok P"
  shows "register_all_of P bidder_collectors = Ok ()"
    and "register_all_of P real_bidder_collectors = Ok ()"
    and "register_all_of P provider_collectors = Ok ()"
  by (rule register_all_of_ok [OF assms _ _ refl]; simp add: emulator_names valid_name_def name_start_def)+

lemma rejectedBids_unregistered: "rejectedBids \<notin> set provider_collectors"
  by (simp add: rejectedBids_def provider_collectors_def emulator_collector_def)

section \<open>Starts\<close>

text \<open>With the default flags the bidder's worker loops start when the chain and the node answer.\<close>

lemma default_flags [simp]:
  "flag_str bidder_flags Map.empty ''log-level'' = ''debug''"
  "flag_str bidder_flags Map.empty ''log-fmt'' = ''text''"
  "flag_str bidder_flags Map.empty ''log-tags'' = []"
  "flag_str bidder_flags Map.empty ''server-addr'' = ''localhost:13524''"
  "flag_str bidder_flags Map.empty ''rpc-addr'' = ''localhost:13524''"
  "flag_int bidder_flags Map.empty ''http-port'' = 8080"
  "flag_int bidder_flags Map.empty ''parallel-workers'' = 7"
  by (simp_all add: flag_str_def flag_int_def flag_value_def bidder_flags_def)

lemma bidder_starts:
  assumes "prom_ok (pe_prom E)" and "pe_levelOk E ''debug'' = None"
    and "pe_rpcDial E ''localhost:13524'' = None" and "\<exists>e c. pe_dial E e = Inr c"
  shows "bidder_main E Map.empty =
    (Running, ServeMetrics ('':'' @ show_int 8080) # StartPrepayLoop # replicate 7 StartWorker)"
proof -
  obtain e c where "pe_dial E e = Inr c" using assms(4) by blast
  then have "dial_first (pe_dial E) dial_strategies \<noteq> None"
    unfolding dial_first_None by (cases e) (auto simp: dial_strategies_def)
  with assms(1-3) show ?thesis
    by (auto simp: bidder_main_def NewLogger_def programs_register metrics_addr_def)
qed

text \<open>Workers run only on a connection, and the bidder's main never closes one.\<close>

lemma bidder_main_workers:
  assumes "bidder_main E given = (e, es)"
  shows "StartWorker \<in> set es \<Longrightarrow> e = Running \<and> dial_first (pe_dial E) dial_strategies \<noteq> None"
    and "CloseConn c \<notin> set es"
  using assms by (auto simp: bidder_main_def Let_def split: outcome.splits option.splits if_splits)

lemma programs_do_not_crash:
  assumes "prom_ok (pe_prom E)"
  shows "fst (bidder_main E given) \<noteq> Crashed" and "fst (real_bidder_main E given) \<noteq> Crashed"
proof -
  have tags: "tag_args u ps \<noteq> Panic" for u ps
    by (induction ps) (auto simp: obind_eq_Panic split: list.split)
  then have "NewLogger l u a b c \<noteq> Panic" for l u a b c
    by (auto simp: NewLogger_def obind_eq_Panic split: option.splits if_splits)
  with assms show "fst (bidder_main E given) \<noteq> Crashed" "fst (real_bidder_main E given) \<noteq> Crashed"
    by (auto simp: bidder_main_def real_bidder_main_def Let_def programs_register
        split: outcome.split option.split sum.split)
qed

section \<open>The provider\<close>

text \<open>
  A bid is answered only when \<open>CheckAndStake\<close> succeeded, which on the node's service means that
  there was a stake or that the registration of ten ether went through; a provider that
  returned has closed its connection, as the last thing it did.
\<close>

lemma provider_session_answers:
  assumes "provider_session A received respond p conn w = ((e, es), w')" and "Responded r \<in> set es"
  shows "\<exists>w1. CheckAndStake A w = (Ok (), w1)"
  using assms by (auto simp: provider_session_def split: prod.splits outcome.splits)

lemma provider_answers_staked:
  assumes "provider_session (provider_service reg own) received respond p conn w = ((e, es), w')"
    and "Responded r \<in> set es" and "GetStake reg own w = (Ok a, w1)"
  shows "0 < a \<or> (\<exists>w2. RegisterProvider reg (Some (10 ^ 19)) w1 = (Ok (), w2))"
proof -
  from provider_session_answers [OF assms(1,2)] CheckAndStake_service [OF assms(3)]
  show ?thesis by (auto simp: abind_eq_Ok split: if_splits)
qed

lemma provider_session_closes:
  assumes "provider_session A received respond p conn w = ((Returned, es), w')"
  shows "\<exists>rs. es = map Responded rs @ [CloseConn conn]"
  using assms
  by (auto simp: provider_session_def Let_def split: prod.splits outcome.splits sum.splits if_splits
      intro: exI [of _ "[]"])

lemma provider_session_all:
  assumes "CheckAndStake A w = (Ok (), w1)" and "\<And>r. respond r = None"
  shows "provider_session A (Inr (bids, True)) respond p conn w =
    ((Returned, map (\<lambda>(b, draw). Responded (bval (pb_BidDigest b), emulator_status p draw)) bids
       @ [CloseConn conn]), w1)"
  using assms by (auto simp: provider_session_def provider_loop_all)

text \<open>The two clients differ when \<open>SendProcessedBids\<close> fails: one closes the connection.\<close>

lemma clients_on_failure:
  assumes "\<And>s. dial s = Inr conn" and "spb conn = Inl err"
  shows "snd (NewProviderClient dial spb closeConn) = [conn]"
    and "example_NewProviderClient dial spb = (Fail err, [])"
  using assms
  by (simp_all add: NewProviderClient_def example_NewProviderClient_def dial_strategies_def split: option.split)

lemma emulator_accepts_all:
  assumes "flag_str emulator_flags given ''server-addr'' \<noteq> []" and "pe_dial E TlsDisabled = Inr conn"
    and "spb conn = Inr s" and "\<And>r. respond r = None"
  shows "emulator_main E spb (Inr (bids, ended)) respond given =
    (if ended then Returned else Running,
     map (\<lambda>b. Responded (bval (pb_BidDigest b), STATUS_ACCEPTED)) bids)"
  using assms by (simp add: emulator_main_def example_NewProviderClient_def accept_loop_all)

section \<open>The pace of the real bidder\<close>

lemma block_round_length: "length (snd (block_round capacity block draw js)) \<le> length js"
  by (induction js) (auto split: outcome.splits prod.splits)

text \<open>The pauses of one turn take at most the twelve seconds of a block.\<close>

lemma real_turn_pause:
  assumes "real_turn capacity fetched draw = (r, bundles, pauses)"
  shows "sum_list pauses \<le> 12000000000" and "length pauses = length bundles"
proof -
  have "length (snd (bid_on_block capacity block draw)) * (12000000000 div length block) \<le> 12000000000" for block
  proof -
    have "length (snd (bid_on_block capacity block draw)) \<le> length block"
      using block_round_length [of capacity block draw "[0..<length block]"] by (simp add: bid_on_block_def)
    then have "length (snd (bid_on_block capacity block draw)) * (12000000000 div length block) \<le>
        length block * (12000000000 div length block)" by (rule mult_le_mono1)
    also have "\<dots> \<le> 12000000000" by simp
    finally show ?thesis .
  qed
  note le = this
  show "sum_list pauses \<le> 12000000000" "length pauses = length bundles"
    using assms le by (auto simp: real_turn_def Let_def sum_list_replicate split: sum.splits prod.splits if_splits)
      (metis snd_conv)
qed

end
