(* ===== verification/Bid_Run.thy ===== *)
theory Bid_Run
  imports Preconf "HOL-Library.Multiset"
begin

text \<open>
  A whole run of \<open>SendBid\<close>'s workers (\<open>pkg/preconfirmation/preconfirmation.go\<close>): it ends,
  whatever the order of the workers and of the caller, and unless a worker panicked the caller
  has then received exactly the answers that verified, but for those of the workers that the
  end of the context cut off before they delivered (\<open>cut_workers\<close>).
\<close>

section \<open>Termination\<close>

definition bid_rank :: "bid_run \<Rightarrow> nat" where
  "bid_rank s = 2 * length (br_pending s) + length (br_chan s) +
     (if br_closed s then 0 else 1) + (if br_crashed s then 0 else 1)"

lemma bid_rank_next: "bid_step S b conn providers s l s' \<Longrightarrow> bid_rank s' < bid_rank s"
proof (induction rule: bid_step.induct)
  case (deliver s p pc)
  then show ?case using length_remove1_mem [OF deliver(2)] by (simp add: bid_rank_def)
next
  case (ctx_done s p pc)
  then show ?case using length_remove1_mem [OF ctx_done(2)] by (simp add: bid_rank_def)
next
  case (quiet s p)
  then show ?case using length_remove1_mem [OF quiet(2)] by (simp add: bid_rank_def)
qed (simp_all add: bid_rank_def)

interpretation bid_runs: ranked_system "bid_step S b conn providers" bid_rank
  for S b conn providers
  by unfold_locales (rule bid_rank_next)

text \<open>A worker ends with an answer, quietly, or in a panic; it never returns an error.\<close>

lemma worker_not_Fail: "worker_result S b conn p \<noteq> Fail e"
  by (simp add: worker_result_def bid_worker_def split: outcome.split)

lemma worker_cases:
  obtains (answer) pc where "worker_result S b conn p = Ok (Some pc)"
  | (quiet) "worker_result S b conn p = Ok None"
  | (panic) "worker_result S b conn p = Panic"
proof (cases "worker_result S b conn p")
  case (Ok r)
  with that show thesis by (cases r) auto
qed (use that worker_not_Fail in auto)

text \<open>A run that cannot go on has ended: it crashed, or all is delivered and closed.\<close>

definition bid_ended :: "bid_run \<Rightarrow> bool" where
  "bid_ended s \<longleftrightarrow> br_crashed s \<or> br_pending s = [] \<and> br_closed s \<and> br_chan s = []"

lemma bid_progress:
  assumes inv: "bid_inv S providers s" and st: "stuck (bid_step S b conn providers) s"
  shows "bid_ended s"
proof (rule ccontr)
  assume "\<not> bid_ended s"
  then have nc: "\<not> br_crashed s" and "br_pending s \<noteq> [] \<or> \<not> br_closed s \<or> br_chan s \<noteq> []"
    by (auto simp: bid_ended_def)
  then consider (pending) p where "p \<in> set (br_pending s)"
    | (unclosed) "br_pending s = []" "\<not> br_closed s"
    | (full) pc pcs where "br_chan s = pc # pcs"
    by (cases "br_pending s"; cases "br_chan s") auto
  then have "\<exists>l s'. bid_step S b conn providers s l s'"
  proof cases
    case pending
    then have "0 < length (br_pending s)" "\<not> br_closed s"
      using inv by (auto simp: bid_inv_def)
    moreover from this(1) inv have "length (br_chan s) < length providers"
      unfolding bid_inv_def by linarith
    ultimately show ?thesis
      using nc pending
      by (cases rule: worker_cases [of S b conn p]) (blast intro: bid_step.intros)+
  qed (use nc in \<open>blast intro: bid_step.intros\<close>)+
  with st show False by (auto simp: stuck_def)
qed

section \<open>What the caller receives\<close>

definition answer :: "signer \<Rightarrow> bid \<Rightarrow> (peer \<Rightarrow> bid_conn) \<Rightarrow> peer \<Rightarrow> pre_confirmation list" where
  "answer S b conn p =
     (case worker_result S b conn p of Ok (Some pc) \<Rightarrow> [pc] | _ \<Rightarrow> [])"

definition answers :: "signer \<Rightarrow> bid \<Rightarrow> (peer \<Rightarrow> bid_conn) \<Rightarrow> peer list \<Rightarrow> pre_confirmation list" where
  "answers S b conn ps = concat (map (answer S b conn) ps)"

lemma answers_remove1:
  "p \<in> set ps \<Longrightarrow>
     mset (answers S b conn ps) = mset (answer S b conn p) + mset (answers S b conn (remove1 p ps))"
  by (induction ps) (auto simp: answers_def)

text \<open>
  Every answer is still to come, on the channel, received, or was dropped by a worker that
  saw the end of the context instead of room in the channel.
\<close>

definition cut_workers :: "bid_label list \<Rightarrow> peer list" where
  "cut_workers ls = List.map_filter (\<lambda>l. case l of WCtxDone p \<Rightarrow> Some p | _ \<Rightarrow> None) ls"

lemma cut_workers_simps [simp]:
  "cut_workers [] = []"
  "cut_workers (l # ls) = (case l of WCtxDone p \<Rightarrow> p # cut_workers ls | _ \<Rightarrow> cut_workers ls)"
  by (simp_all add: cut_workers_def List.map_filter_simps split: bid_label.split)

lemma cut_workers_Nil: "\<forall>p. WCtxDone p \<notin> set ls \<Longrightarrow> cut_workers ls = []"
  by (induction ls) (auto split: bid_label.split)

definition due :: "signer \<Rightarrow> bid \<Rightarrow> (peer \<Rightarrow> bid_conn) \<Rightarrow> bid_run \<Rightarrow> pre_confirmation multiset" where
  "due S b conn s =
     mset (answers S b conn (br_pending s)) + mset (br_chan s) + mset (br_received s)"

lemma due_step:
  assumes "bid_step S b conn providers s l s'"
  shows "due S b conn s = due S b conn s' + mset (answers S b conn (cut_workers [l]))"
  using assms
proof (induction rule: bid_step.induct)
  case (deliver s p pc)
  then show ?case
    using answers_remove1 [OF deliver(2), of S b conn] by (simp add: due_def answer_def answers_def)
next
  case (ctx_done s p pc)
  then show ?case
    using answers_remove1 [OF ctx_done(2), of S b conn] by (simp add: due_def answers_def)
next
  case (quiet s p)
  then show ?case
    using answers_remove1 [OF quiet(2), of S b conn] by (simp add: due_def answer_def answers_def)
qed (simp_all add: due_def answers_def)

lemma due_run:
  "steps (bid_step S b conn providers) s ls t \<Longrightarrow>
     due S b conn s = due S b conn t + mset (answers S b conn (cut_workers ls))"
proof (induction rule: steps.induct)
  case (steps_Cons s l s' ls s'')
  have "mset (answers S b conn (cut_workers (l # ls))) =
      mset (answers S b conn (cut_workers [l])) + mset (answers S b conn (cut_workers ls))"
    by (simp add: answers_def split: bid_label.split)
  with due_step [OF steps_Cons(1)] steps_Cons.IH show ?case by simp
qed (simp add: answers_def)

text \<open>
  What an ended run has delivered: with the answers of the workers that were cut off, it is
  every answer there was.
\<close>

lemma ended_received:
  assumes "bid_start providers s" "steps (bid_step S b conn providers) s ls t"
    and "bid_ended t" "\<not> br_crashed t"
  shows "mset (br_received t) + mset (answers S b conn (cut_workers ls)) =
    mset (answers S b conn providers)"
  using due_run [OF assms(2)] assms(1,3,4) by (simp add: bid_start_def bid_ended_def due_def answers_def)

lemma no_crash_step:
  assumes "bid_step S b conn providers s l s'" and "bid_inv S providers s"
    and np: "\<And>p. p \<in> set providers \<Longrightarrow> worker_result S b conn p \<noteq> Panic"
  shows "\<not> br_crashed s'"
  using assms(1,2)
proof (induction rule: bid_step.induct)
  case (send_closed s p pc)
  then show ?case by (auto simp: bid_inv_def)
next
  case (crash s p)
  then have "p \<in> set providers" by (auto simp: bid_inv_def)
  with np crash(3) show ?case by blast
qed simp_all

lemma no_crash_run:
  assumes "steps (bid_step S b conn providers) s ls t" and "bid_inv S providers s"
    and "\<not> br_crashed s" and np: "\<And>p. p \<in> set providers \<Longrightarrow> worker_result S b conn p \<noteq> Panic"
    and fw: "\<And>p pc. worker_result S b conn p = Ok (Some pc) \<Longrightarrow> forwarded_ok S pc"
  shows "\<not> br_crashed t"
  using assms(1-3)
proof (induction rule: steps.induct)
  case (steps_Cons s l s' ls s'')
  have "bid_inv S providers s'" using bid_inv_step [OF steps_Cons(4,1) fw] .
  moreover have "\<not> br_crashed s'" using no_crash_step [OF steps_Cons(1,4) np] .
  ultimately show ?case using steps_Cons by blast
qed simp

lemma crashed_panics:
  assumes "bid_start providers s" "steps (bid_step (NewSigner C ks) b conn providers) s ls t"
    and "br_crashed t"
  shows "\<exists>p \<in> set providers. worker_result (NewSigner C ks) b conn p = Panic"
proof (rule ccontr)
  assume "\<not> (\<exists>p \<in> set providers. worker_result (NewSigner C ks) b conn p = Panic)"
  then have np: "worker_result (NewSigner C ks) b conn p \<noteq> Panic" if "p \<in> set providers" for p
    using that by blast
  have "bid_inv (NewSigner C ks) providers s" "\<not> br_crashed s"
    using assms(1) by (simp_all add: workers.inv_start bid_start_def)
  then have "\<not> br_crashed t"
    by (rule no_crash_run [OF assms(2) _ _ np]) (auto intro: NewSigner_forwarded)
  with assms(3) show False by simp
qed

lemma received_all:
  assumes "bid_start providers s" "steps (bid_step (NewSigner C ks) b conn providers) s ls t"
    and "stuck (bid_step (NewSigner C ks) b conn providers) t"
    and "\<forall>p. WCtxDone p \<notin> set ls"
    and "\<And>p. p \<in> set providers \<Longrightarrow> worker_result (NewSigner C ks) b conn p \<noteq> Panic"
  shows "br_closed t" and "mset (br_received t) = mset (answers (NewSigner C ks) b conn providers)"
proof -
  let ?S = "NewSigner C ks"
  from assms(1) have inv: "bid_inv ?S providers s" and nc: "\<not> br_crashed s"
    by (simp_all add: workers.inv_start bid_start_def)
  have "\<not> br_crashed t"
    by (rule no_crash_run [OF assms(2) inv nc assms(5)]) (auto intro: NewSigner_forwarded)
  moreover have "bid_ended t"
    using workers.steps_inv [OF assms(2) inv] assms(3) by (rule bid_progress)
  ultimately show "br_closed t" "mset (br_received t) = mset (answers ?S b conn providers)"
    using ended_received [OF assms(1,2)] cut_workers_Nil [OF assms(4)]
    by (simp_all add: bid_ended_def answers_def)
qed

section \<open>Honest providers\<close>

lemma answers_honest:
  assumes "\<And>p. p \<in> set ps \<Longrightarrow> worker_result S b conn p = Ok (Some (f p))"
  shows "answers S b conn ps = map f ps"
  using assms by (induction ps) (simp_all add: answers_def answer_def)

text \<open>A run with one provider whose worker has an answer.\<close>

lemma one_provider_run:
  assumes "worker_result S b conn p = Ok (Some pc)"
  obtains s ls t where "bid_start [p] s" "steps (bid_step S b conn [p]) s ls t"
    and "stuck (bid_step S b conn [p]) t" "\<forall>q. WCtxDone q \<notin> set ls" "br_closed t" "br_received t = [pc]"
proof -
  let ?step = "bid_step S b conn [p]"
  let ?s0 = "\<lparr> br_pending = [p], br_chan = [], br_closed = False, br_received = [], br_crashed = False \<rparr>"
  let ?s1 = "?s0\<lparr> br_pending := [], br_chan := [pc] \<rparr>"
  let ?s2 = "?s1\<lparr> br_chan := [], br_received := [pc] \<rparr>"
  let ?s3 = "?s2\<lparr> br_closed := True \<rparr>"
  have d: "?step ?s0 (WDeliver p) ?s1" using bid_step.deliver [of ?s0 p S b conn pc "[p]"] assms by simp
  have r: "?step ?s1 WRecv ?s2" using bid_step.recv [of ?s1 pc "[]"] by simp
  have c: "?step ?s2 WClose ?s3" using bid_step.close [of ?s2] by simp
  have "steps ?step ?s0 [WDeliver p, WRecv, WClose] ?s3"
    by (rule steps_Cons, rule d, rule steps_Cons, rule r, rule steps_Cons, rule c, rule steps_Nil)
  moreover have "stuck ?step ?s3" by (auto simp: stuck_def elim: bid_step.cases)
  ultimately show thesis by (intro that [of ?s0 "[WDeliver p, WRecv, WClose]" ?s3]) (simp_all add: bid_start_def)
qed

end
