(* ===== verification/Bid_Network.thy ===== *)
theory Bid_Network
  imports Two_Nodes Streams Bid_Run
begin

text \<open>
  A bid on its way: \<open>SendBid\<close>'s worker on the bidder opens a stream of
  \<open>pkg/p2p/libp2p/libp2p.go\<close>, the provider's service finds the peer by the identity of the
  connection and runs \<open>handleBid\<close> on it, and both sides read and write the frames of
  \<open>stream.go\<close>. The lemmas say what the worker gets: the preconfirmation exactly when the
  provider wrote one, and the provider's error otherwise.
\<close>

section \<open>The wire\<close>

text \<open>
  The encoders of the four kinds of message, the version library, and \<open>status.FromError\<close> of
  grpc, which are libraries.
\<close>

record wire =
  wr_stream :: "stream_msg proto"
  wr_header :: "header proto"
  wr_bid :: "bid proto"
  wr_preconf :: "pre_confirmation proto"
  wr_NewVersion :: "string \<Rightarrow> go_error + semver"
  wr_FromError :: "go_error \<Rightarrow> rpc_status"

text \<open>
  What is written is read back; the frames around a message always encode, as does an empty
  header; this node's version is one; the status of an error is not the code 0 (OK).
\<close>

definition wire_lib_ok :: "wire \<Rightarrow> bool" where
  "wire_lib_ok W \<longleftrightarrow>
     proto_ok (wr_stream W) \<and> proto_ok (wr_header W) \<and> proto_ok (wr_bid W) \<and> proto_ok (wr_preconf W) \<and>
     marshals (wr_header W) Map.empty \<and>
     (\<forall>d. marshals (wr_stream W) (SmData d)) \<and>
     (\<forall>err. marshals (wr_stream W) (SmError (wr_FromError W err)) \<and> rs_Code (wr_FromError W err) \<noteq> 0) \<and>
     (\<exists>v. wr_NewVersion W ''2.0.0'' = Inr v)"

text \<open>
  A transport that delivers: every write succeeds and is read as it was written; where
  nothing was written the stream ends.
\<close>

definition sent :: "bytes \<Rightarrow> (go_error option) race" where
  "sent buf = Answered None"

definition transported :: "bytes option \<Rightarrow> (go_error + bytes) race" where
  "transported f = Answered (case f of None \<Rightarrow> Inl (Err_Lib ''EOF'') | Some buf \<Rightarrow> Inr buf)"

definition of_outcome :: "'a outcome \<Rightarrow> go_error + 'a" where
  "of_outcome r = (case r of Ok x \<Rightarrow> Inr x | Fail e \<Rightarrow> Inl e | Panic \<Rightarrow> Inl (Err_Lib ''panic''))"

section \<open>The two ends\<close>

text \<open>The headers a side writes, and the ones it reads when the other has written \<open>hdr\<close>.\<close>

definition header_net :: "wire \<Rightarrow> (peer_id \<Rightarrow> string \<Rightarrow> go_error + unit) \<Rightarrow> header \<Rightarrow> stream_net" where
  "header_net W open hdr =
     \<lparr> sn_Open = open,
       sn_WriteHeader = (\<lambda>h. of_outcome (fst (WriteHeader (wr_header W) sent h))),
       sn_ReadHeader = of_outcome (ReadHeader (wr_header W)
         (transported (snd (WriteHeader (wr_header W) sent hdr)))) \<rparr>"

text \<open>The provider \<open>j\<close> serves the streams that match its handler.\<close>

definition open_at :: "wire \<Rightarrow> peer_id \<Rightarrow> peer_id \<Rightarrow> string \<Rightarrow> go_error + unit" where
  "open_at W j i sid =
     (if i = j \<and> handler_matches (wr_NewVersion W) (sd_Name preconfStream) (sd_Version preconfStream) sid
      then Inr () else Inl (Err_Lib ''protocols not supported''))"

text \<open>The handler's stream: it reads the frame that came and writes to the transport.\<close>

definition zero_bid :: bid where
  "zero_bid =
     \<lparr> TxHash = [], BidAmount = [], BlockNumber = 0, Digest = None, Signature = None,
       DecayStartTimestamp = 0, DecayEndTimestamp = 0 \<rparr>"

definition zero_preconf :: pre_confirmation where
  "zero_preconf =
     \<lparr> pc_Bid = None, pc_Digest = None, pc_Signature = None, pc_ProviderAddress = None \<rparr>"

definition handler_stream :: "wire \<Rightarrow> bytes option \<Rightarrow> bid_stream" where
  "handler_stream W frame =
     \<lparr> bs_ReadMsg = stream_ReadMsg (wr_stream W) (wr_bid W) zero_bid (transported frame),
       bs_WriteMsg = (\<lambda>pc. fst (stream_WriteMsg (wr_stream W) (wr_preconf W) sent pc)) \<rparr>"

definition preconf_handler :: "wire \<Rightarrow> signer \<Rightarrow> bid_services \<Rightarrow> bytes option \<Rightarrow> stream_handler" where
  "preconf_handler W S P frame =
     \<lparr> sh_Header = None,
       sh_Handler = (\<lambda>p _ _ s. (fst (handleBid S P p (handler_stream W frame)), s)),
       sh_WriteError = (\<lambda>err. of_outcome (fst (WriteError (wr_stream W) sent (wr_FromError W err)))) \<rparr>"

text \<open>The frames after the header: what the handler wrote, then its error if it failed.\<close>

definition written_frames :: "wire \<Rightarrow> effect list \<Rightarrow> bytes list" where
  "written_frames W es =
     List.map_filter (\<lambda>e. case e of
         EffWrite pc \<Rightarrow> snd (stream_WriteMsg (wr_stream W) (wr_preconf W) sent pc)
       | _ \<Rightarrow> None) es"

definition error_frames :: "wire \<Rightarrow> unit outcome \<Rightarrow> bytes list" where
  "error_frames W r =
     (case r of
        Fail err \<Rightarrow> (case snd (WriteError (wr_stream W) sent (wr_FromError W err)) of
                       None \<Rightarrow> [] | Some buf \<Rightarrow> [buf])
      | _ \<Rightarrow> [])"

definition reply_frames ::
  "wire \<Rightarrow> signer \<Rightarrow> bid_services \<Rightarrow> peer_id \<Rightarrow> p2p_service \<Rightarrow> bytes option \<Rightarrow> bytes list" where
  "reply_frames W S P i s frame =
     (case getPeer i (peers s) of
        None \<Rightarrow> []
      | Some p \<Rightarrow>
         (case handleBid S P p (handler_stream W frame) of
            (r, es) \<Rightarrow> written_frames W es @ error_frames W r))"

definition first_frame :: "bytes list \<Rightarrow> bytes option" where
  "first_frame fs = (case fs of [] \<Rightarrow> None | f # _ \<Rightarrow> Some f)"

text \<open>
  The worker's connection to the provider \<open>p\<close>, known under \<open>j\<close>: the bidder's service opens
  the stream, the frame of the bid goes out, and the first frame of the provider's reply
  comes in. \<open>i\<close> is the bidder's identity at the provider.
\<close>

definition bid_frame :: "wire \<Rightarrow> bid \<Rightarrow> bytes option" where
  "bid_frame W b = snd (stream_WriteMsg (wr_stream W) (wr_bid W) sent b)"

definition network_conn ::
  "wire \<Rightarrow> signer \<Rightarrow> bid_services \<Rightarrow> peer_id \<Rightarrow> p2p_service \<Rightarrow> peer_id \<Rightarrow> p2p_service \<Rightarrow> bid \<Rightarrow> peer \<Rightarrow>
     bid_conn" where
  "network_conn W S P i provider j bidder b p =
     \<lparr> bc_NewStream = obind (fst (NewStream (header_net W (open_at W j) Map.empty) p Map.empty
         (sd_Name preconfStream) (sd_Version preconfStream) bidder)) (\<lambda>_. Ok ()),
       bc_WriteMsg = (\<lambda>m. fst (stream_WriteMsg (wr_stream W) (wr_bid W) sent m)),
       bc_ReadMsg = stream_ReadMsg (wr_stream W) (wr_preconf W) zero_preconf
         (transported (first_frame (reply_frames W S P i provider (bid_frame W b)))) \<rparr>"

section \<open>The stream opens and the bid arrives\<close>

lemma wire_lib_okD:
  assumes "wire_lib_ok W"
  shows "proto_ok (wr_stream W)" "proto_ok (wr_header W)" "proto_ok (wr_bid W)" "proto_ok (wr_preconf W)"
    "marshals (wr_header W) Map.empty" "marshals (wr_stream W) (SmData d)"
    "marshals (wr_stream W) (SmError (wr_FromError W err))" "rs_Code (wr_FromError W err) \<noteq> 0"
    "\<exists>v. wr_NewVersion W ''2.0.0'' = Inr v"
  using assms by (simp_all add: wire_lib_ok_def)

lemma write_frame_sent:
  "write_frame msg (Inr buf) sent = (Ok (), Some buf)"
  by (simp add: write_frame_def sent_def)

lemma stream_WriteMsg_sent:
  assumes "marshals PM m" "\<And>d. marshals PS (SmData d)"
  obtains buf where "stream_WriteMsg PS PM sent m = (Ok (), Some buf)"
proof -
  from assms(1) obtain d where d: "Marshal PM m = Inr d" by (auto simp: marshals_def)
  moreover from assms(2) [of d] obtain buf where "Marshal PS (SmData d) = Inr buf"
    by (auto simp: marshals_def)
  ultimately show thesis by (intro that [of buf]) (simp add: stream_WriteMsg_def write_frame_sent)
qed

lemma WriteError_sent:
  assumes "wire_lib_ok W"
  obtains buf where "WriteError (wr_stream W) sent (wr_FromError W err) = (Ok (), Some buf)"
proof -
  from wire_lib_okD(7) [OF assms, of err] obtain buf
    where "Marshal (wr_stream W) (SmError (wr_FromError W err)) = Inr buf"
    by (auto simp: marshals_def)
  then show thesis by (intro that [of buf]) (simp add: WriteError_def write_frame_sent)
qed

lemma header_net_empty:
  assumes "wire_lib_ok W"
  shows "sn_WriteHeader (header_net W open hdr) Map.empty = Inr ()"
    and "sn_ReadHeader (header_net W open Map.empty) = Inr Map.empty"
proof -
  from wire_lib_okD(5) [OF assms] obtain buf where "Marshal (wr_header W) Map.empty = Inr buf"
    by (auto simp: marshals_def)
  then have w: "WriteHeader (wr_header W) sent Map.empty = (Ok (), Some buf)"
    by (simp add: WriteHeader_def write_frame_sent)
  then show "sn_WriteHeader (header_net W open hdr) Map.empty = Inr ()"
    by (simp add: header_net_def of_outcome_def)
  from header_roundtrip [OF wire_lib_okD(2) [OF assms], of sent Map.empty buf] w
  show "sn_ReadHeader (header_net W open Map.empty) = Inr Map.empty"
    by (simp add: header_net_def of_outcome_def transported_def)
qed

lemma open_own_stream:
  assumes "wire_lib_ok W"
  shows "open_at W j j (streamID (sd_Name preconfStream) (sd_Version preconfStream)) = Inr ()"
proof -
  obtain v where "wr_NewVersion W ''2.0.0'' = Inr v" using wire_lib_okD(9) [OF assms] by blast
  from own_streams_served(1) [where NewVersion = "wr_NewVersion W", OF this, of preconfStream preconfStream]
  show ?thesis by (simp add: open_at_def)
qed

lemma network_NewStream:
  assumes "wire_lib_ok W" "knows j p bidder"
  shows "bc_NewStream (network_conn W S P i provider j bidder b p) = Ok ()"
  using assms(2) open_own_stream [OF assms(1), of j] header_net_empty [OF assms(1)]
  by (simp add: network_conn_def NewStream_def knows_def) (simp add: header_net_def)

lemma bid_arrives:
  assumes "wire_lib_ok W" "marshals (wr_bid W) b"
  shows "fst (stream_WriteMsg (wr_stream W) (wr_bid W) sent b) = Ok ()"
    and "bs_ReadMsg (handler_stream W (bid_frame W b)) = Ok b"
proof -
  obtain buf where w: "stream_WriteMsg (wr_stream W) (wr_bid W) sent b = (Ok (), Some buf)"
    by (rule stream_WriteMsg_sent [OF assms(2) wire_lib_okD(6) [OF assms(1)]])
  then show "fst (stream_WriteMsg (wr_stream W) (wr_bid W) sent b) = Ok ()" by simp
  from message_roundtrip [OF wire_lib_okD(1,3) [OF assms(1)], of sent b buf] w
  show "bs_ReadMsg (handler_stream W (bid_frame W b)) = Ok b"
    by (simp add: handler_stream_def bid_frame_def transported_def)
qed


section \<open>The reply\<close>

text \<open>The handler writes at most once, so the first frame is the preconfirmation or the error.\<close>

lemma written_frames_run:
  assumes "handleBid S P q str = (r, es)"
  shows "(\<exists>pc. EffWrite pc \<in> set es \<and> (\<forall>pc'. EffWrite pc' \<in> set es \<longrightarrow> pc' = pc) \<and>
      written_frames W es = (case snd (stream_WriteMsg (wr_stream W) (wr_preconf W) sent pc) of
        None \<Rightarrow> [] | Some buf \<Rightarrow> [buf])) \<or>
    ((\<forall>pc. EffWrite pc \<notin> set es) \<and> written_frames W es = [])"
proof (cases "\<exists>pc. EffWrite pc \<in> set es")
  case True
  then obtain pc where "EffWrite pc \<in> set (snd (handleBid S P q str))" using assms by auto
  from handleBid_write [OF this] obtain a b args where "es = [EffAllowance a, EffProcess b, EffStore args, EffWrite pc]"
    using assms by (auto simp: committed_run_def)
  then show ?thesis
    by (intro disjI1 exI [of _ pc]) (auto simp: written_frames_def List.map_filter_simps split: option.split)
next
  case False
  then have "written_frames W es = []"
    by (induction es) (auto simp: written_frames_def List.map_filter_simps split: effect.split)
  with False show ?thesis by blast
qed

definition refusal :: "wire \<Rightarrow> unit outcome \<Rightarrow> go_error" where
  "refusal W r =
     (case r of
        Fail err \<Rightarrow> Err_Rpc (rs_Code (wr_FromError W err)) (rs_Message (wr_FromError W err))
      | _ \<Rightarrow> Err_Wrap ''failed to read message'' (Err_Lib ''EOF''))"

text \<open>A write that gave its frame to this transport worked, so a failed handler wrote no answer.\<close>

lemma stream_WriteMsg_frame:
  "fst (stream_WriteMsg PS PM sent m) \<noteq> Ok () \<Longrightarrow> snd (stream_WriteMsg PS PM sent m) = None"
  by (auto simp: stream_WriteMsg_def write_frame_def sent_def split: sum.splits)

lemma failed_run_frames:
  assumes "handleBid S P q (handler_stream W f) = (Fail err, es)"
  shows "written_frames W es = []"
  using written_frames_run [OF assms, of W]
proof (elim disjE exE conjE)
  fix pc assume "EffWrite pc \<in> set es"
    and w: "written_frames W es = (case snd (stream_WriteMsg (wr_stream W) (wr_preconf W) sent pc) of
        None \<Rightarrow> [] | Some buf \<Rightarrow> [buf])"
  then have "committed_run S P q (handler_stream W f) pc es"
    using handleBid_write [of pc S P q "handler_stream W f"] assms by simp
  then have "fst (handleBid S P q (handler_stream W f)) = bs_WriteMsg (handler_stream W f) pc"
    by (auto simp: committed_run_def handleBid_def accept_bid_def Let_def fst_emit split: outcome.split)
  with assms have "bs_WriteMsg (handler_stream W f) pc = Fail err" by simp
  then have "fst (stream_WriteMsg (wr_stream W) (wr_preconf W) sent pc) \<noteq> Ok ()"
    by (simp add: handler_stream_def)
  from stream_WriteMsg_frame [OF this] w show "written_frames W es = []" by simp
qed

lemma network_ReadMsg:
  assumes W: "wire_lib_ok W" and q: "getPeer i (peers provider) = Some q"
    and run: "handleBid S P q (handler_stream W (bid_frame W b)) = (r, es)"
  shows "EffWrite pc \<in> set es \<Longrightarrow> marshals (wr_preconf W) pc \<Longrightarrow>
      bc_ReadMsg (network_conn W S P i provider j bidder b p) = Ok pc"
    and "written_frames W es = [] \<Longrightarrow>
      bc_ReadMsg (network_conn W S P i provider j bidder b p) = Fail (refusal W r)"
proof -
  have frames: "reply_frames W S P i provider (bid_frame W b) = written_frames W es @ error_frames W r"
    using q run by (simp add: reply_frames_def)
  show "bc_ReadMsg (network_conn W S P i provider j bidder b p) = Ok pc"
    if pc: "EffWrite pc \<in> set es" "marshals (wr_preconf W) pc"
  proof -
    obtain buf where w: "stream_WriteMsg (wr_stream W) (wr_preconf W) sent pc = (Ok (), Some buf)"
      by (rule stream_WriteMsg_sent [OF pc(2) wire_lib_okD(6) [OF W]])
    with pc(1) have "written_frames W es = [buf]"
      using written_frames_run [OF run, of W] by auto
    with message_roundtrip [OF wire_lib_okD(1,4) [OF W], of sent pc buf] w show ?thesis
      by (simp add: network_conn_def frames first_frame_def transported_def)
  qed
  show "bc_ReadMsg (network_conn W S P i provider j bidder b p) = Fail (refusal W r)"
    if no: "written_frames W es = []"
  proof (cases r)
    case (Fail err)
    obtain buf where w: "WriteError (wr_stream W) sent (wr_FromError W err) = (Ok (), Some buf)"
      by (rule WriteError_sent [OF W])
    with error_roundtrip [OF wire_lib_okD(1) [OF W], of sent "wr_FromError W err" buf] no Fail
      wire_lib_okD(8) [OF W, of err]
    show ?thesis
      by (simp add: network_conn_def frames error_frames_def first_frame_def transported_def refusal_def)
  qed (simp_all add: network_conn_def frames no error_frames_def first_frame_def transported_def
      refusal_def stream_ReadMsg_def)
qed

text \<open>What the worker does with each.\<close>

lemma network_worker:
  assumes W: "wire_lib_ok W" "marshals (wr_bid W) b" and k: "knows j p bidder"
    and q: "getPeer i (peers provider) = Some q"
    and run: "handleBid S P q (handler_stream W (bid_frame W b)) = (r, es)"
  shows "EffWrite pc \<in> set es \<Longrightarrow> marshals (wr_preconf W) pc \<Longrightarrow> VerifyPreConfirmation T pc = Ok a \<Longrightarrow>
      bid_worker T b (network_conn W S P i provider j bidder b p) =
        (Ok (Some (pc\<lparr> pc_ProviderAddress := Some (addr_bytes a) \<rparr>)), [SWrite b, SSentBid, SClose, SReceived])"
    and "written_frames W es = [] \<Longrightarrow>
      bid_worker T b (network_conn W S P i provider j bidder b p) =
        (Ok None, [SWrite b, SSentBid, SReset])"
proof -
  let ?c = "network_conn W S P i provider j bidder b p"
  have ns: "bc_NewStream ?c = Ok ()" by (rule network_NewStream [OF W(1) k])
  have wr: "bc_WriteMsg ?c b = Ok ()" using bid_arrives(1) [OF W] by (simp add: network_conn_def)
  show "bid_worker T b ?c =
      (Ok (Some (pc\<lparr> pc_ProviderAddress := Some (addr_bytes a) \<rparr>)), [SWrite b, SSentBid, SClose, SReceived])"
    if "EffWrite pc \<in> set es" "marshals (wr_preconf W) pc" "VerifyPreConfirmation T pc = Ok a"
    using ns wr network_ReadMsg(1) [OF W(1) q run that(1,2)] that(3) by (simp add: bid_worker_def)
  show "bid_worker T b ?c = (Ok None, [SWrite b, SSentBid, SReset])" if "written_frames W es = []"
    using ns wr network_ReadMsg(2) [OF W(1) q run that] by (simp add: bid_worker_def)
qed

text \<open>
  The provider's service finds the peer of the connection, runs its handler and closes the
  stream; the stream is not tracked afterwards.
\<close>

lemma network_serve:
  assumes W: "wire_lib_ok W" and q: "getPeer i (peers provider) = Some q"
    and run: "handleBid S P q (handler_stream W frame) = (r, es)" "r \<noteq> Panic"
  shows "fst (serve_stream (preconf_handler W S P frame) (header_net W open Map.empty) i str provider) = Ok ()"
    and "sv_effects (snd (serve_stream (preconf_handler W S P frame) (header_net W open Map.empty) i str provider)) =
      sv_effects provider @ [CloseStream]"
proof -
  have e: "of_outcome (fst (WriteError (wr_stream W) sent (wr_FromError W err))) = Inr ()" for err
    by (rule WriteError_sent [OF W, of err]) (simp add: of_outcome_def)
  show "fst (serve_stream (preconf_handler W S P frame) (header_net W open Map.empty) i str provider) = Ok ()"
    and "sv_effects (snd (serve_stream (preconf_handler W S P frame) (header_net W open Map.empty) i str provider)) =
      sv_effects provider @ [CloseStream]"
    using q run header_net_empty [OF W] e
    by (cases r; simp add: serve_stream_def serve_tracked_def preconf_handler_def record_effect_def)+
qed


section \<open>A bid that is accepted\<close>

text \<open>The provider's services accept the bid and store whatever they are given.\<close>

definition accepts_bid :: "bid_services \<Rightarrow> address \<Rightarrow> bid \<Rightarrow> bool" where
  "accepts_bid P a b \<longleftrightarrow>
     CheckBidderAllowance P a \<and>
     (\<exists>c. ProcessBid P b = Ok c \<and> select_status P c = StatusOf STATUS_ACCEPTED) \<and>
     (\<forall>pc. StoreCommitment P (commitment_of (set_string10 (BidAmount b)) b pc) = Ok ())"

context signer_contract
begin

lemma network_commitment:
  assumes signers: "good k prov" "same l k" and b: "VerifyBid (S k) (Some b) = Ok bidderAddr"
    and accepts: "accepts_bid P bidderAddr b"
    and W: "wire_lib_ok W" "marshals (wr_bid W) b"
      "\<And>pc. ConstructPreConfirmation (S k) (Some b) = Ok pc \<Longrightarrow> marshals (wr_preconf W) pc"
    and known: "knows j p bidder" "getPeer i (peers provider) = Some q" "Type q = PeerTypeBidder"
  obtains pc where
    "handleBid (S k) P q (handler_stream W (bid_frame W b)) =
       (Ok (), [EffAllowance bidderAddr, EffProcess b,
                EffStore (commitment_of (set_string10 (BidAmount b)) b pc), EffWrite pc])"
    and "bid_worker (S l) b (network_conn W (S k) P i provider j bidder b p) =
       (Ok (Some (pc\<lparr> pc_ProviderAddress := Some (addr_bytes prov) \<rparr>)),
        [SWrite b, SSentBid, SClose, SReceived])"
proof -
  let ?str = "handler_stream W (bid_frame W b)"
  have "bs_WriteMsg ?str pc = Ok ()" if "ConstructPreConfirmation (S k) (Some b) = Ok pc" for pc
    by (rule stream_WriteMsg_sent [OF W(3) [OF that] wire_lib_okD(6) [OF W(1)]])
       (simp add: handler_stream_def)
  then obtain pc where run: "handleBid (S k) P q ?str =
      (Ok (), [EffAllowance bidderAddr, EffProcess b,
               EffStore (commitment_of (set_string10 (BidAmount b)) b pc), EffWrite pc])"
    and v: "VerifyPreConfirmation (S k) pc = Ok prov"
    using handleBid_accepts [OF signers(1) known(3) bid_arrives(2) [OF W(1,2)] b] accepts
    unfolding accepts_bid_def by metis
  have "EffWrite pc \<in> set (snd (handleBid (S k) P q ?str))" using run by simp
  from handleBid_write [OF this] have "marshals (wr_preconf W) pc"
    using bid_arrives(2) [OF W(1,2)] by (auto simp: committed_run_def intro: W(3))
  moreover have "VerifyPreConfirmation (S l) pc = Ok prov" using verify_same [OF signers(2)] v by simp
  ultimately show thesis using network_worker(1) [OF W(1,2) known(1,2) run] by (intro that [OF run]) simp
qed

end


section \<open>A bid that is refused\<close>

text \<open>
  The worker has reset the stream, reported nothing, and read the provider's error: the code
  and the text of its status.
\<close>

definition told_refusal :: "wire \<Rightarrow> signer \<Rightarrow> bid \<Rightarrow> bid_conn \<Rightarrow> go_error \<Rightarrow> bool" where
  "told_refusal W T b conn err \<longleftrightarrow>
     bid_worker T b conn = (Ok None, [SWrite b, SSentBid, SReset]) \<and>
     bc_ReadMsg conn = Fail (Err_Rpc (rs_Code (wr_FromError W err)) (rs_Message (wr_FromError W err)))"

lemma network_refusal:
  assumes "wire_lib_ok W" "marshals (wr_bid W) b" "knows j p bidder" "getPeer i (peers provider) = Some q"
    and run: "handleBid S P q (handler_stream W (bid_frame W b)) = (Fail err, es)"
  shows "told_refusal W T b (network_conn W S P i provider j bidder b p) err"
  unfolding told_refusal_def
  using network_worker(2) [OF assms(1-4) run failed_run_frames [OF run]]
    network_ReadMsg(2) [OF assms(1,4) run failed_run_frames [OF run]]
  by (simp add: refusal_def)

text \<open>What each guard of the handler answers.\<close>

lemma handleBid_refuses:
  assumes "bs_ReadMsg str = Ok b"
  shows "Type q \<noteq> PeerTypeBidder \<Longrightarrow>
      handleBid S P q str = (Fail (Err_Sentinel ErrInvalidBidderTypeForBid), [])"
    and "Type q = PeerTypeBidder \<Longrightarrow> VerifyBid S (Some b) = Fail e \<Longrightarrow>
      handleBid S P q str = (Fail (Err_Status InvalidArgument ''invalid bid''), [])"
    and "Type q = PeerTypeBidder \<Longrightarrow> VerifyBid S (Some b) = Ok a \<Longrightarrow> \<not> CheckBidderAllowance P a \<Longrightarrow>
      handleBid S P q str = (Fail (Err_Status FailedPrecondition ''bidder not allowed''), [EffAllowance a])"
    and "Type q = PeerTypeBidder \<Longrightarrow> VerifyBid S (Some b) = Ok a \<Longrightarrow> CheckBidderAllowance P a \<Longrightarrow>
      ProcessBid P b = Fail e \<Longrightarrow>
      handleBid S P q str = (Fail e, [EffAllowance a, EffProcess b])"
    and "Type q = PeerTypeBidder \<Longrightarrow> VerifyBid S (Some b) = Ok a \<Longrightarrow> CheckBidderAllowance P a \<Longrightarrow>
      ProcessBid P b = Ok c \<Longrightarrow> select_status P c = StatusOf STATUS_ACCEPTED \<Longrightarrow>
      ConstructPreConfirmation S (Some b) = Fail e \<Longrightarrow>
      handleBid S P q str = (Fail (Err_Status Internal ''failed to construct preconfirmation''),
        [EffAllowance a, EffProcess b])"
    and "Type q = PeerTypeBidder \<Longrightarrow> VerifyBid S (Some b) = Ok a \<Longrightarrow> CheckBidderAllowance P a \<Longrightarrow>
      ProcessBid P b = Ok c \<Longrightarrow> select_status P c = StatusOf STATUS_REJECTED \<Longrightarrow>
      handleBid S P q str = (Fail (Err_Status Internal ''bid rejected''), [EffAllowance a, EffProcess b])"
    and "Type q = PeerTypeBidder \<Longrightarrow> VerifyBid S (Some b) = Ok a \<Longrightarrow> CheckBidderAllowance P a \<Longrightarrow>
      ProcessBid P b = Ok c \<Longrightarrow> select_status P c = CtxDone e \<Longrightarrow>
      handleBid S P q str = (Fail e, [EffAllowance a, EffProcess b])"
  using assms by (simp_all add: handleBid_def accept_bid_def Let_def)

lemma handleBid_store_fails:
  assumes "bs_ReadMsg str = Ok b" "Type q = PeerTypeBidder" "VerifyBid S (Some b) = Ok a"
    and "CheckBidderAllowance P a" "ProcessBid P b = Ok c" "select_status P c = StatusOf STATUS_ACCEPTED"
    and "ConstructPreConfirmation S (Some b) = Ok pc" "pc_Bid pc = Some b"
    and "\<And>args. StoreCommitment P args = Fail e"
  shows "handleBid S P q str =
    (Fail (Err_Status Internal ''failed to store commitment''),
     [EffAllowance a, EffProcess b, EffStore (commitment_of (set_string10 (BidAmount b)) b pc)])"
  using assms by (simp add: handleBid_def accept_bid_def Let_def)

section \<open>A whole run over the network\<close>

text \<open>
  Providers that are connected to the bidder, know it as a bidder and accept: an ended run
  delivers the preconfirmation of each.
\<close>

lemma honest_run:
  assumes "VerifyBid (NewSigner C ks) (Some b) = Ok a" and "wire_lib_ok W" "marshals (wr_bid W) b"
    and "Type me = PeerTypeBidder"
    and "\<And>p. p \<in> set provs \<Longrightarrow> signs_as C (key p) (EthAddress p) \<and> accepts_bid (svc p) a b \<and>
      knows (j p) p bidder \<and> getPeer i (peers (node p)) = Some me"
    and "\<And>p pc. p \<in> set provs \<Longrightarrow>
      ConstructPreConfirmation (NewSigner C (key p)) (Some b) = Ok pc \<Longrightarrow> marshals (wr_preconf W) pc"
    and "conn = (\<lambda>p. network_conn W (NewSigner C (key p)) (svc p) i (node p) (j p) bidder b p)"
    and "bid_start provs s" and "steps (bid_step (NewSigner C ks) b conn provs) s ls t"
    and "stuck (bid_step (NewSigner C ks) b conn provs) t" and "\<forall>p. WCtxDone p \<notin> set ls"
  shows "br_closed t \<and> (\<exists>pc.
    (\<forall>p \<in> set provs. EffWrite (pc p) \<in>
       set (snd (handleBid (NewSigner C (key p)) (svc p) me (handler_stream W (bid_frame W b))))) \<and>
    mset (br_received t) =
      mset (map (\<lambda>p. (pc p)\<lparr> pc_ProviderAddress := Some (addr_bytes (EthAddress p)) \<rparr>) provs))"
proof -
  have "\<forall>p \<in> set provs. \<exists>pc. EffWrite pc \<in>
        set (snd (handleBid (NewSigner C (key p)) (svc p) me (handler_stream W (bid_frame W b)))) \<and>
      worker_result (NewSigner C ks) b conn p =
        Ok (Some (pc\<lparr> pc_ProviderAddress := Some (addr_bytes (EthAddress p)) \<rparr>))"
  proof
    fix p assume p: "p \<in> set provs"
    have v: "VerifyBid (NewSigner C (key p)) (Some b) = Ok a" using assms(1) by (simp add: NewSigner_def)
    show "\<exists>pc. EffWrite pc \<in>
        set (snd (handleBid (NewSigner C (key p)) (svc p) me (handler_stream W (bid_frame W b)))) \<and>
      worker_result (NewSigner C ks) b conn p =
        Ok (Some (pc\<lparr> pc_ProviderAddress := Some (addr_bytes (EthAddress p)) \<rparr>))"
      by (rule pks.network_commitment [of "(C, key p)" "EthAddress p" "(C, ks)" b a "svc p" W "j p" p bidder i
            "node p" me]) (use assms(2-7) p v in \<open>auto simp: worker_result_def\<close>)
  qed
  then obtain pc where pc: "\<forall>p \<in> set provs. EffWrite (pc p) \<in>
        set (snd (handleBid (NewSigner C (key p)) (svc p) me (handler_stream W (bid_frame W b)))) \<and>
      worker_result (NewSigner C ks) b conn p =
        Ok (Some ((pc p)\<lparr> pc_ProviderAddress := Some (addr_bytes (EthAddress p)) \<rparr>))"
    by (rule bchoice [THEN exE])
  then have "worker_result (NewSigner C ks) b conn p \<noteq> Panic" if "p \<in> set provs" for p
    using that by simp
  from received_all [OF assms(8-11) this]
    answers_honest [of provs "NewSigner C ks" b conn "\<lambda>p. (pc p)\<lparr> pc_ProviderAddress := Some (addr_bytes (EthAddress p)) \<rparr>"]
    pc show ?thesis by (intro conjI exI [of _ pc]) simp_all
qed

lemma honest_run_received:
  assumes "VerifyBid (NewSigner C ks) (Some b) = Ok a" and "wire_lib_ok W" "marshals (wr_bid W) b"
    and "Type me = PeerTypeBidder"
    and "\<And>p. p \<in> set provs \<Longrightarrow> signs_as C (key p) (EthAddress p) \<and> accepts_bid (svc p) a b \<and>
      knows (j p) p bidder \<and> getPeer i (peers (node p)) = Some me"
    and "\<And>p pc. p \<in> set provs \<Longrightarrow>
      ConstructPreConfirmation (NewSigner C (key p)) (Some b) = Ok pc \<Longrightarrow> marshals (wr_preconf W) pc"
    and "conn = (\<lambda>p. network_conn W (NewSigner C (key p)) (svc p) i (node p) (j p) bidder b p)"
    and "bid_start provs s" and "steps (bid_step (NewSigner C ks) b conn provs) s ls t"
    and "stuck (bid_step (NewSigner C ks) b conn provs) t" and "\<forall>p. WCtxDone p \<notin> set ls"
  shows "length (br_received t) = length provs"
    and "\<And>pc. pc \<in> set (br_received t) \<Longrightarrow> pc_Bid pc = Some b"
proof -
  have "\<exists>pc. (\<forall>p \<in> set provs. EffWrite (pc p) \<in>
        set (snd (handleBid (NewSigner C (key p)) (svc p) me (handler_stream W (bid_frame W b))))) \<and>
      mset (br_received t) =
        mset (map (\<lambda>p. (pc p)\<lparr> pc_ProviderAddress := Some (addr_bytes (EthAddress p)) \<rparr>) provs)"
    by (rule conjunct2, rule honest_run) (fact assms)+
  then obtain pc where pc: "\<forall>p \<in> set provs. EffWrite (pc p) \<in>
        set (snd (handleBid (NewSigner C (key p)) (svc p) me (handler_stream W (bid_frame W b))))"
    and m: "mset (br_received t) =
      mset (map (\<lambda>p. (pc p)\<lparr> pc_ProviderAddress := Some (addr_bytes (EthAddress p)) \<rparr>) provs)"
    by blast
  show "length (br_received t) = length provs" using arg_cong [OF m, of size] by simp
  have "pc_Bid (pc p) = Some b" if "p \<in> set provs" for p
  proof -
    have "ConstructPreConfirmation (NewSigner C (key p)) (Some b) = Ok (pc p)"
      using handleBid_write [OF pc [THEN bspec, OF that]] bid_arrives(2) [OF assms(2,3)]
      by (auto simp: committed_run_def)
    then show ?thesis using pks.commit_bid [of "(C, key p)"] by simp
  qed
  then show "pc_Bid q = Some b" if "q \<in> set (br_received t)" for q
    using mset_eq_setD [OF m] that by auto
qed

end
