(* ===== verification/Example_Lib.thy ===== *)
theory Example_Lib
  imports Bid_Network
begin

text \<open>
  A concrete cryptographic library: it is not secure, but it satisfies the hypotheses that
  the development makes about \<open>go-ethereum/crypto\<close>, so they are consistent, and its
  functions compute, so the examples evaluate.
\<close>

section \<open>The library\<close>

fun le_bytes :: "nat \<Rightarrow> int \<Rightarrow> bytes" where
  "le_bytes 0 i = []"
| "le_bytes (Suc n) i = word_of_int i # le_bytes n (i div 256)"

definition example_lib :: "(byte, byte) eth_lib" where
  "example_lib =
     \<lparr> keccak256 = (\<lambda>x. take 32 (x @ replicate 32 0)),
       ec_sign = (\<lambda>key h. Inr (h @ replicate 31 0 @ [key, 0])),
       public_key = (\<lambda>key. key),
       sig_to_pub = (\<lambda>h sig. if length sig = 65 \<and> take 32 sig = h then Inr (sig ! 63)
                             else Inl (Err_Lib ''invalid signature'')),
       from_ecdsa_pub = (\<lambda>p. [p]),
       verify_signature = (\<lambda>p h sig. take 32 sig = h \<and> drop 63 sig = p),
       pubkey_to_address = (\<lambda>p. Address (replicate 19 0 @ [p])),
       u256_bytes = le_bytes 32 \<rparr>"

section \<open>It satisfies the hypotheses\<close>

lemma length_le_bytes: "length (le_bytes n i) = n"
  by (induction n arbitrary: i) auto

lemma byte_eq_iff: "(word_of_int i :: byte) = word_of_int j \<longleftrightarrow> i mod 256 = j mod 256"
  by (simp add: word_of_int_eq_iff take_bit_eq_mod)

lemma le_bytes_eq: "le_bytes n i = le_bytes n j \<longleftrightarrow> i mod 256 ^ n = j mod 256 ^ n"
proof (induction n arbitrary: i j)
  case (Suc n)
  have split: "k mod 256 ^ Suc n = 256 * (k div 256 mod 256 ^ n) + k mod 256" for k :: int
    by (simp add: zmod_zmult2_eq)
  have "i mod 256 ^ Suc n = j mod 256 ^ Suc n \<longleftrightarrow>
      i div 256 mod 256 ^ n = j div 256 mod 256 ^ n \<and> i mod 256 = j mod 256"
  proof
    assume eq: "i mod 256 ^ Suc n = j mod 256 ^ Suc n"
    have low: "k mod 256 ^ Suc n mod 256 = k mod 256" for k :: int
      unfolding split by simp
    from low [of i] low [of j] eq have "i mod 256 = j mod 256" by simp
    with eq show "i div 256 mod 256 ^ n = j div 256 mod 256 ^ n \<and> i mod 256 = j mod 256"
      unfolding split by simp
  qed (simp only: split)
  with Suc show ?case by (auto simp: byte_eq_iff)
qed simp

lemma example_keccak_ok: "keccak_ok example_lib"
  by (simp add: keccak_ok_def example_lib_def min_def)

lemma example_ecdsa_ok: "ecdsa_ok example_lib"
  by (auto simp: ecdsa_ok_def example_keccak_ok)
     (auto simp: is_signature_def example_lib_def nth_append)

lemma example_u256_ok: "u256_ok example_lib"
proof -
  have "(2::int) ^ 256 = 256 ^ 32" by simp
  then show ?thesis
    by (simp add: u256_ok_def example_lib_def length_le_bytes le_bytes_eq)
qed

section \<open>Two signers\<close>

definition example_ks :: "byte \<Rightarrow> key_signer" where
  "example_ks key = PrivateKeySigner example_lib key"

definition example_address :: "byte \<Rightarrow> address" where
  "example_address key = Address (replicate 19 0 @ [key])"

lemma example_signs_as: "signs_as example_lib (example_ks key) (example_address key)"
  using signs_as_PrivateKeySigner [OF example_ecdsa_ok, of key]
  by (simp add: example_ks_def example_address_def example_lib_def)


section \<open>A bid, its preconfirmation, and a provider that accepts it\<close>

definition example_digest :: bytes where
  "example_digest = [0x19, 0x01] @ string_bytes ''EIP712Domain(string name,strin''"

definition example_bid :: bid where
  "example_bid =
     \<lparr> TxHash = ''0xab,0xcd'', BidAmount = ''10'', BlockNumber = 5,
       Digest = Some example_digest,
       Signature = Some (example_digest @ replicate 31 0 @ [1, 27]),
       DecayStartTimestamp = 1, DecayEndTimestamp = 2 \<rparr>"

definition example_pc :: pre_confirmation where
  "example_pc =
     \<lparr> pc_Bid = Some example_bid, pc_Digest = Some example_digest,
       pc_Signature = Some (example_digest @ replicate 31 0 @ [2, 27]),
       pc_ProviderAddress = None \<rparr>"

abbreviation example_signer :: "byte \<Rightarrow> signer" where
  "example_signer key \<equiv> NewSigner example_lib (example_ks key)"

definition example_services :: bid_services where
  "example_services =
     \<lparr> CheckBidderAllowance = (\<lambda>_. True), ProcessBid = (\<lambda>_. Ok 0),
       select_status = (\<lambda>_. StatusOf STATUS_ACCEPTED), StoreCommitment = (\<lambda>_. Ok ()) \<rparr>"

definition example_stream :: bid_stream where
  "example_stream = \<lparr> bs_ReadMsg = Ok example_bid, bs_WriteMsg = (\<lambda>_. Ok ()) \<rparr>"

definition example_bidder :: peer where
  "example_bidder = \<lparr> EthAddress = example_address 1, Type = PeerTypeBidder \<rparr>"

definition example_conn :: "pre_confirmation \<Rightarrow> bid_conn" where
  "example_conn pc =
     \<lparr> bc_NewStream = Ok (), bc_WriteMsg = (\<lambda>_. Ok ()), bc_ReadMsg = Ok pc \<rparr>"

lemma example_construct:
  "ConstructSignedBid (example_signer 1) ''0xab,0xcd'' ''10'' 5 1 2 = Ok example_bid"
  by code_simp

lemma example_verify_bid:
  "VerifyBid (example_signer key) (Some example_bid) = Ok (example_address 1)"
  by (simp add: NewSigner_def) code_simp

lemma example_commit:
  "ConstructPreConfirmation (example_signer 2) (Some example_bid) = Ok example_pc"
  by code_simp

lemma example_verify_pc:
  "VerifyPreConfirmation (example_signer key) example_pc = Ok (example_address 2)"
  by (simp add: NewSigner_def) code_simp

lemma example_handleBid:
  "handleBid (example_signer 2) example_services example_bidder example_stream =
     (Ok (), [EffAllowance (example_address 1), EffProcess example_bid,
              EffStore (commitment_of (Some 10) example_bid example_pc), EffWrite example_pc])"
proof -
  have "set_string10 (BidAmount example_bid) = Some 10" by code_simp
  moreover have "pc_Bid example_pc = Some example_bid" by (simp add: example_pc_def)
  ultimately show ?thesis
    by (simp add: handleBid_def accept_bid_def example_services_def example_bidder_def
        example_stream_def example_verify_bid example_commit Let_def)
qed

section \<open>Two honest nodes\<close>

definition example_addr :: "peer_id \<Rightarrow> address" where
  "example_addr i = Address (if i < 256 then replicate 19 0 @ [of_nat i] else replicate i 0)"

lemma example_addr_inj: "inj example_addr"
proof (rule injI)
  fix i j assume "example_addr i = example_addr j"
  then have eq: "(if i < 256 then replicate 19 0 @ [of_nat i] else replicate i 0 :: bytes) =
      (if j < 256 then replicate 19 0 @ [of_nat j] else replicate j 0)"
    by (simp add: example_addr_def)
  show "i = j"
  proof (cases "i < 256 \<and> j < 256")
    case True
    with eq have "(of_nat i :: byte) = of_nat j" by simp
    then have "unat (of_nat i :: byte) = unat (of_nat j :: byte)" by simp
    with True show ?thesis by (simp add: unat_of_nat)
  next
    case False
    with arg_cong [OF eq, of length] show ?thesis by (auto split: if_splits)
  qed
qed

definition example_handshake :: "byte \<Rightarrow> peer_type \<Rightarrow> handshake_service" where
  "example_handshake key pt =
     \<lparr> hs_ks = example_ks key, hs_peerType = pt, hs_passcode = ''x'',
       hs_signer_Verify = Verify example_lib, CheckProviderRegistered = (\<lambda>_. True),
       handshakeReq =
         \<lparr> req_PeerType = peer_type_String pt, req_Token = ''x'',
           req_Sig = Some (keccak256 example_lib (string_bytes (peer_type_String pt @ ''x'')) @
                           replicate 31 0 @ [key, 0]) \<rparr>,
       getEthAddress = (\<lambda>i. Inr (example_addr i)) \<rparr>"

lemma example_honest:
  "i < 256 \<Longrightarrow> honest example_lib (example_handshake (of_nat i) pt) example_addr i"
proof -
  assume i: "i < 256"
  have "handshake_New example_lib (example_ks (of_nat i)) pt ''x'' (\<lambda>_. True)
      (\<lambda>j. Inr (example_addr j)) = Ok (example_handshake (of_nat i) pt)"
    by (simp add: handshake_New_def createSignature_def example_handshake_def example_ks_def
        PrivateKeySigner_def example_lib_def Let_def)
  moreover have "pubkey_to_address example_lib (public_key example_lib (of_nat i)) = example_addr i"
    using i by (simp add: example_lib_def example_addr_def)
  ultimately show ?thesis unfolding honest_def example_ks_def by blast
qed


section \<open>A wire between two connected nodes\<close>

text \<open>An encoder of the messages that are sent, and of nothing else.\<close>

definition only_proto :: "'m list \<Rightarrow> 'm proto" where
  "only_proto ms =
     \<lparr> Marshal = (\<lambda>m. if m \<in> set ms then Inr (if m = hd ms then [1] else [2])
                       else Inl (Err_Lib ''marshal'')),
       Unmarshal = (\<lambda>b. if b = [1] then Inr (hd ms) else Inr (last ms)) \<rparr>"

lemma only_proto_ok: "proto_ok (only_proto [m])" "proto_ok (only_proto [m, n])"
  "marshals (only_proto [m]) m" "marshals (only_proto [m, n]) m" "marshals (only_proto [m, n]) n"
  by (simp_all add: proto_ok_def only_proto_def marshals_def)

definition example_status :: rpc_status where
  "example_status = \<lparr> rs_Code = 9, rs_Message = ''bidder not allowed'' \<rparr>"

definition example_frames :: "stream_msg proto" where
  "example_frames =
     \<lparr> Marshal = (\<lambda>m. case m of
           SmData d \<Rightarrow> Inr (1 # d)
         | SmError st \<Rightarrow> if st = example_status then Inr [2] else Inl (Err_Lib ''marshal'')
         | SmEmpty \<Rightarrow> Inr []),
       Unmarshal = (\<lambda>b. case b of
           [] \<Rightarrow> Inr SmEmpty
         | k # d \<Rightarrow> if k = 1 then Inr (SmData d) else Inr (SmError example_status)) \<rparr>"

lemma example_frames_ok: "proto_ok example_frames" "marshals example_frames (SmData d)"
  by (auto simp: proto_ok_def marshals_def example_frames_def split: stream_msg.splits if_splits)

text \<open>A wire that carries the four messages of the handshake of two services.\<close>

definition example_hs_wire ::
  "handshake_service \<Rightarrow> nat \<Rightarrow> handshake_service \<Rightarrow> nat \<Rightarrow> hs_wire" where
  "example_hs_wire g i h j =
     \<lparr> hw_msg = example_frames, hw_req = only_proto [handshakeReq g, handshakeReq h],
       hw_resp = only_proto [resp_to (handshakeReq g) (example_addr i),
                             resp_to (handshakeReq h) (example_addr j)] \<rparr>"

lemma example_hs_wire:
  "hs_wire_ok (example_hs_wire g i h j)"
  "marshals (hw_req (example_hs_wire g i h j)) (handshakeReq g)"
  "marshals (hw_req (example_hs_wire g i h j)) (handshakeReq h)"
  "marshals (hw_resp (example_hs_wire g i h j)) (resp_to (handshakeReq g) (example_addr i))"
  "marshals (hw_resp (example_hs_wire g i h j)) (resp_to (handshakeReq h) (example_addr j))"
  by (simp_all add: hs_wire_ok_def example_hs_wire_def only_proto_ok example_frames_ok)

definition example_wire :: wire where
  "example_wire =
     \<lparr> wr_stream = example_frames, wr_header = only_proto [Map.empty], wr_bid = only_proto [example_bid],
       wr_preconf = only_proto [example_pc], wr_NewVersion = (\<lambda>_. Inr \<lparr> Major = 2, Minor = 0 \<rparr>),
       wr_FromError = (\<lambda>_. example_status) \<rparr>"

lemma example_wire_ok: "wire_lib_ok example_wire"
proof -
  have "marshals example_frames (SmError example_status)" by (simp add: marshals_def example_frames_def)
  then show ?thesis
    by (simp add: wire_lib_ok_def example_wire_def only_proto_ok example_frames_ok)
       (simp add: example_status_def)
qed

lemma example_marshals:
  "marshals (wr_bid example_wire) example_bid" "marshals (wr_preconf example_wire) example_pc"
  by (simp_all add: example_wire_def only_proto_ok)

definition example_service :: "peer_id \<Rightarrow> peer \<Rightarrow> p2p_service" where
  "example_service i p =
     new_p2p_service\<lparr> peers := snd (addPeer \<lparr> conn_id = 0, RemotePeer = i \<rparr> p newPeerRegistry) \<rparr>"

lemma example_service_knows: "knows i p (example_service i p)"
  by (simp add: example_service_def knows_def connected_def isConnected_iff getPeer_def getPeerID_def
      addPeer_def newPeerRegistry_def)

lemma example_service_peer: "getPeer i (peers (example_service i p)) = Some p"
  using example_service_knows [of i p] by (simp add: knows_def)

definition example_provider :: peer where
  "example_provider = \<lparr> EthAddress = example_address 2, Type = PeerTypeProvider \<rparr>"


abbreviation example_network :: "bid \<Rightarrow> peer \<Rightarrow> bid_conn" where
  "example_network b p \<equiv> network_conn example_wire (example_signer 2) example_services 1
     (example_service 1 example_bidder) 2 (example_service 2 example_provider) b p"

lemma example_network_handler:
  "handleBid (example_signer 2) example_services example_bidder
     (handler_stream example_wire (bid_frame example_wire example_bid)) =
     (Ok (), [EffAllowance (example_address 1), EffProcess example_bid,
              EffStore (commitment_of (Some 10) example_bid example_pc), EffWrite example_pc])"
proof -
  let ?str = "handler_stream example_wire (bid_frame example_wire example_bid)"
  have "bs_ReadMsg ?str = Ok example_bid"
    by (rule bid_arrives(2) [OF example_wire_ok example_marshals(1)])
  moreover have "bs_WriteMsg ?str example_pc = Ok ()"
    by (rule stream_WriteMsg_sent [OF example_marshals(2) wire_lib_okD(6) [OF example_wire_ok]])
       (simp add: handler_stream_def)
  moreover have "set_string10 (BidAmount example_bid) = Some 10" by code_simp
  moreover have "pc_Bid example_pc = Some example_bid" by (simp add: example_pc_def)
  ultimately show ?thesis
    by (simp add: handleBid_def accept_bid_def example_services_def example_bidder_def
        example_verify_bid example_commit Let_def)
qed

lemma example_network_worker:
  "worker_result (example_signer 1) example_bid (example_network example_bid) example_provider =
     Ok (Some (example_pc\<lparr> pc_ProviderAddress := Some (addr_bytes (example_address 2)) \<rparr>))"
  using network_worker(1) [OF example_wire_ok example_marshals(1) example_service_knows
      example_service_peer example_network_handler _ example_marshals(2) example_verify_pc, of 1]
  by (simp add: worker_result_def)

end
