(* ===== verification/Spec2Isabelle.thy ===== *)
theory Spec2Isabelle
  imports Bidder_Programs Bid_Settlement Staked_Overlay Announce Metrics P2p_Host Http_Api Streams Node_Assembly Mock_Chain Test_Streams Program_Mains Example_Lib
begin

text \<open>
  This development models the mev-commit node (Go): bidders send bids for the inclusion of
  transactions in a block, providers answer with signed commitments (preconfirmations), and
  both are recorded through contracts on a settlement chain.

  Parts and theories.

  \<^item> \<open>Prelude\<close>, \<open>Go_Std\<close>: errors, outcomes (a value, an error, a panic), stateful calls,
    channels, transition systems with the rules for invariants and simulations; strings,
    decimal and hexadecimal text.
  \<^item> \<open>P2p_Types\<close>: \<open>pkg/p2p/p2p.go\<close> and the messages of \<open>messages/\<close>.
  \<^item> \<open>Eth_Lib\<close>: the crypto library as a parameter, \<open>pkg/signer/signer.go\<close>, the key signer
    of \<open>pkg/keysigner\<close> that holds a private key.
  \<^item> \<open>Bid_Signer\<close>: \<open>pkg/signer/preconfsigner/signer.go\<close>. The locale \<open>signer_contract\<close> is
    what users of a signer rely on; \<open>NewSigner\<close> is shown to provide it.
  \<^item> \<open>Key_Files\<close>: the key files of \<open>pkg/keysigner\<close>, over a map from paths to contents. The
    signer with a private key keeps it: its \<open>ZeroPrivateKey\<close> changes nothing.
  \<^item> \<open>Preconf\<close>: \<open>pkg/preconfirmation/preconfirmation.go\<close>. The provider's \<open>handleBid\<close> is a
    function with a trace of its calls; the bidder's \<open>SendBid\<close> a function for one worker
    (\<open>bid_worker\<close>) and a step relation for the workers and their channel (\<open>bid_step\<close>).
    \<open>Bid_Run\<close>: whole runs of that relation, which terminate and lose no answers but those of
    the workers cut off by the end of the context.
    \<open>Bid_Network\<close>: worker and handler over the streams of two p2p services, with the encoder
    as a parameter: commitments and refusals as they travel, an error with its code and text.
  \<^item> \<open>Provider_Api\<close>: the hand-off of bids in \<open>pkg/rpc/provider/service.go\<close> as a step
    relation whose steps are the critical sections. \<open>Rpc_Services\<close>: the other methods of
    that file and \<open>pkg/rpc/bidder/service.go\<close>. \<open>Bid_Decision\<close>: the handler on top of the API,
    whose decision is the client's. \<open>Message_Rules\<close>: the validation rules of the \<open>.proto\<close>
    files under \<open>rpc/\<close>. \<open>Bid_Settlement\<close>: the handler on top of API, registry and contract.
  \<^item> \<open>Evm_Types\<close>, \<open>Registries\<close>: \<open>pkg/contracts\<close>, over an EVM client and an ABI library
    that are parameters.
  \<^item> \<open>Tx_Monitor\<close>, \<open>Evm_Client\<close>: \<open>pkg/evmclient\<close>. The monitor's critical sections are
    functions, its goroutines a step relation (\<open>mon_step\<close>); the client's operations are
    functions on its state, which the chain's answers parametrise.
  \<^item> \<open>Peer_Registry\<close>, \<open>Blocklist\<close>, \<open>Handshake\<close>, \<open>P2p_Service\<close>, \<open>Streams\<close>:
    \<open>pkg/p2p/libp2p\<close>. The libp2p host is a parameter; \<open>sv_step\<close> interleaves the service's
    operations, \<open>member_step\<close> is the specification it is shown to refine. A handshake reads
    and writes the frames of an ordered stream (\<open>hs_read\<close>, \<open>hs_write\<close>), and \<open>exchange\<close> runs
    its two sides on each other's frames, round by round.
  \<^item> \<open>P2p_Host\<close>, \<open>Bootstrap\<close>: the construction of that service with the address of a peer
    id (\<open>address.go\<close>), and the rounds of \<open>bootstrapper.go\<close>. \<open>Two_Nodes\<close> puts the dialling
    service of one node and the answering one of another together.
  \<^item> \<open>Topo\<close>, \<open>Discovery\<close>: \<open>pkg/topology\<close> and \<open>pkg/discovery\<close>. \<open>Overlay\<close> interleaves the
    p2p service with them: registrations, the notifier's calls, discovery's connections.
    \<open>Staked_Overlay\<close> puts that node on a chain whose state changes while it runs, with the
    provider registry asked at each handshake.
    \<open>Announce\<close> runs the notifier's goroutines (\<open>Connected\<close>) in phases that interleave.
  \<^item> \<open>Metrics\<close>: the collectors of each component and their registration, over the prometheus
    library as a parameter.
  \<^item> \<open>Http_Std\<close>, \<open>Http_Api\<close>: JSON text and the response writer of Go's library;
    \<open>pkg/apiserver\<close>, \<open>pkg/debugapi\<close> and the health handler. A handler is the list of what it
    does to its writer.
  \<^item> \<open>Launcher\<close>, \<open>Node_Assembly\<close>: \<open>cmd/main.go\<close>, \<open>pkg/util\<close>, \<open>version.go\<close>, and
    \<open>pkg/node/node.go\<close>, whose \<open>NewNode\<close> has a trace of what it starts and closes, with the
    three resources that nothing closes (\<open>never_closed\<close>).
  \<^item> \<open>Client_Programs\<close>, \<open>Bidder_Programs\<close>: the programs of \<open>integrationtest/\<close> and \<open>examples/\<close>
    that use the APIs, with lemmas that put them together with the services they call.
    \<open>Program_Mains\<close>: their flags, collectors and \<open>main\<close> functions.
  \<^item> \<open>Mock_Chain\<close>, \<open>Test_Streams\<close>: the stand-ins of the unit tests (\<open>pkg/evmclient/mockevm\<close>,
    \<open>pkg/evmclient/mock\<close>, \<open>pkg/keysigner/mock\<close>, \<open>pkg/p2p/testing\<close>), with lemmas that run the real
    clients on them and compare the test streams with the real ones.
  \<^item> \<open>Example_Lib\<close>: a concrete crypto library that satisfies every hypothesis made about
    the real one, and the bid, preconfirmation and nodes of the examples below.

  How they interact. A client's bid enters at \<open>bidderapi_SendBid\<close>, is signed by the bid
  signer and sent by \<open>SendBid\<close> over streams of the p2p service to the providers that the
  topology knows (which learn of each other through discovery). \<open>handleBid\<close> verifies it,
  asks the bidder registry, hands it to the provider's client through \<open>Provider_Api\<close>, and on
  acceptance stores the commitment through the EVM client and answers. The launcher checks
  the options, loads the key and has the node assembled from these parts.

  Conventions. A Go pointer that may be \<open>nil\<close> is an option, a failing slice access or nil
  dereference is \<open>Panic\<close>, \<open>int64\<close> and \<open>uint64\<close> are 64-bit words and \<open>big.Int\<close> is \<open>int\<close>.
  Ranging over a map takes the visiting order as an argument that enumerates its domain. A
  \<open>select\<close> takes the event that wins. Logging is left out, metrics are kept where they are
  part of a component's behaviour. Fields and labels with a prefix (\<open>ps_\<close>, \<open>tm_\<close>, \<open>sv_\<close>)
  that no Go field corresponds to record goroutines under way or history.

  What the lemmas show. Each component has its invariant with one preservation lemma per
  operation and an interpretation of \<open>invariant_system\<close> (\<open>workers\<close>, \<open>provider\<close>, \<open>monitor\<close>,
  \<open>service\<close>, \<open>disc\<close>, \<open>overlay\<close>, \<open>chain\<close>, \<open>announcing\<close>, \<open>dx\<close>); the workers of a bid are a
  \<open>ranked_system\<close> (\<open>bid_runs\<close>), the handshake is a \<open>dialogue\<close> (\<open>handshakes\<close>); the p2p service
  also refines a specification (\<open>membership\<close>). The properties below follow from these. Some
  state defects of the code exactly, as theorems.

  Bounds. The loop over receipt batches terminates by the number of hashes left. Nothing uses
  fuel: the loops that run for ever (watch loop, check loops, streams) are step relations. The
  rounds of \<open>exchange\<close> are not fuel either: the frames are the same from the third round on.

  Not modelled: the parsing of options, the build information behind \<open>version.go\<close>, the
  dispatch of the HTTP router and the metrics and profiling handlers behind it, generated code
  under \<open>gen\<close> and unit tests; of the client programs the loops that repeat a turn for ever (a
  turn is modelled) and the sender and receiver of the example's client, which are the code of
  \<open>integrationtest/provider\<close>. Key stores, the libp2p host, multiaddresses, the DNS resolver and the
  rate limiters are libraries. Time is an argument; the network may deliver anything that
  the encoder accepts.
\<close>

section \<open>Bids and preconfirmations\<close>

text \<open>
  C1: the provider's handler writes a preconfirmation to the bidder only after every guard:
  the peer is a bidder, the bid verified, the signer's allowance was checked and the client
  accepted. Before the write, and only then, it stored a commitment that worked, with exactly
  the terms of the bid it read, the bid's signature and the signature of the preconfirmation.
\<close>

theorem preconf_written_only_after_commit:
  assumes "EffWrite pc \<in> set (snd (handleBid (NewSigner C ks) P peer str))"
  shows "\<exists>b a c args. Type peer = PeerTypeBidder \<and> bs_ReadMsg str = Ok b \<and>
    signer_VerifyBid C (Some b) = Ok a \<and> CheckBidderAllowance P a \<and>
    ProcessBid P b = Ok c \<and> select_status P c = StatusOf STATUS_ACCEPTED \<and>
    signer_ConstructPreConfirmation C ks (Some b) = Ok pc \<and> pc_Bid pc = Some b \<and>
    args = \<lparr> ca_bid = set_string10 (BidAmount b), ca_blockNumber = BlockNumber b, ca_txHash = TxHash b,
             ca_decayStart = DecayStartTimestamp b, ca_decayEnd = DecayEndTimestamp b,
             ca_bidSignature = Signature b, ca_commitmentSignature = pc_Signature pc \<rparr> \<and>
    StoreCommitment P args = Ok () \<and>
    snd (handleBid (NewSigner C ks) P peer str) = [EffAllowance a, EffProcess b, EffStore args, EffWrite pc]"
  using handleBid_write [OF assms] pks.commit_bid [of "(C, ks)" _ pc]
  by (fastforce simp: committed_run_def commitment_of_def NewSigner_def)

theorem preconf_written_only_after_commit_witness:
  "EffStore \<lparr> ca_bid = Some 10, ca_blockNumber = 5, ca_txHash = ''0xab,0xcd'', ca_decayStart = 1,
      ca_decayEnd = 2, ca_bidSignature = Signature example_bid, ca_commitmentSignature = pc_Signature example_pc \<rparr>
     \<in> set (snd (handleBid (example_signer 2) example_services example_bidder example_stream))"
proof -
  have "EffWrite example_pc \<in> set (snd (handleBid (example_signer 2) example_services example_bidder example_stream))"
    by (simp add: example_handleBid)
  moreover have "set_string10 (BidAmount example_bid) = Some 10" by code_simp
  moreover have "bs_ReadMsg example_stream = Ok example_bid" by (simp add: example_stream_def)
  ultimately show ?thesis
    using preconf_written_only_after_commit [of example_pc example_lib "example_ks 2" example_services
        example_bidder example_stream]
    by (auto simp: example_bid_def)
qed

text \<open>
  C2: the protocol end to end. A bidder with a working key makes a bid with a well-formed
  amount; it is connected to a provider that knows it as a bidder and accepts. The bid goes
  over a stream; the provider's service serves it: the handler allows the bidder, stores the
  bid's terms with both signatures and answers; the bidder's worker verifies the answer and
  reports it under the provider's address.
\<close>

theorem bid_becomes_commitment:
  assumes "signs_as C ks_b bidderAddr" "signs_as C ks_p prov"
    and "txHash \<noteq> []" "bn \<noteq> 0" "set_string10 amt = Some n" "provs \<noteq> []"
    and "\<And>b. accepts_bid P bidderAddr b"
    and "wire_lib_ok W"
    and "\<And>b. ConstructSignedBid (NewSigner C ks_b) txHash amt bn ds de = Ok b \<Longrightarrow> marshals (wr_bid W) b"
    and "\<And>b pc. ConstructSignedBid (NewSigner C ks_b) txHash amt bn ds de = Ok b \<Longrightarrow>
      ConstructPreConfirmation (NewSigner C ks_p) (Some b) = Ok pc \<Longrightarrow> marshals (wr_preconf W) pc"
    and "knows j p bidder" "getPeer i (peers provider) = Some q" "Type q = PeerTypeBidder"
  shows "\<exists>b pc.
    SendBid (NewSigner C ks_b) provs txHash amt bn ds de = Ok (b, provs) \<and>
    TxHash b = txHash \<and> BidAmount b = amt \<and> BlockNumber b = bn \<and>
    handleBid (NewSigner C ks_p) P q (handler_stream W (bid_frame W b)) =
      (Ok (), [EffAllowance bidderAddr, EffProcess b, EffStore (commitment_of (Some n) b pc), EffWrite pc]) \<and>
    fst (serve_stream (preconf_handler W (NewSigner C ks_p) P (bid_frame W b))
           (header_net W (open_at W j) Map.empty) i str provider) = Ok () \<and>
    bid_worker (NewSigner C ks_b) b (network_conn W (NewSigner C ks_p) P i provider j bidder b p) =
      (Ok (Some (pc\<lparr> pc_ProviderAddress := Some (addr_bytes prov) \<rparr>)),
       [SWrite b, SSentBid, SClose, SReceived])"
proof -
  obtain b where b: "ConstructSignedBid (NewSigner C ks_b) txHash amt bn ds de = Ok b"
    "VerifyBid (NewSigner C ks_b) (Some b) = Ok bidderAddr"
    "TxHash b = txHash" "BidAmount b = amt" "BlockNumber b = bn"
    using pks.construct_ok [of "(C, ks_b)" bidderAddr txHash bn amt n ds de] assms(1,3-5) by auto
  then have vp: "VerifyBid (NewSigner C ks_p) (Some b) = Ok bidderAddr" by (simp add: NewSigner_def)
  obtain pc where run: "handleBid (NewSigner C ks_p) P q (handler_stream W (bid_frame W b)) =
       (Ok (), [EffAllowance bidderAddr, EffProcess b,
                EffStore (commitment_of (set_string10 (BidAmount b)) b pc), EffWrite pc])"
    and worker: "bid_worker (NewSigner C ks_b) b (network_conn W (NewSigner C ks_p) P i provider j bidder b p) =
       (Ok (Some (pc\<lparr> pc_ProviderAddress := Some (addr_bytes prov) \<rparr>)),
        [SWrite b, SSentBid, SClose, SReceived])"
    by (rule pks.network_commitment [of "(C, ks_p)" prov "(C, ks_b)" b bidderAddr P W j p bidder i provider q])
       (use assms vp b(1) in auto)
  with network_serve(1) [OF assms(8,12) run] b assms(5,6) show ?thesis
    by (intro exI [of _ b] exI [of _ pc]) (simp add: SendBid_def)
qed

lemma example_accepts: "accepts_bid example_services a b"
  by (simp add: accepts_bid_def example_services_def)

theorem bid_becomes_commitment_witness:
  "\<exists>b pc. SendBid (example_signer 1) [example_provider] ''0xab,0xcd'' ''10'' 5 1 2 = Ok (b, [example_provider]) \<and>
    bid_worker (example_signer 1) b (network_conn example_wire (example_signer 2) example_services 1
        (example_service 1 example_bidder) 2 (example_service 2 example_provider) b example_provider) =
      (Ok (Some (pc\<lparr> pc_ProviderAddress := Some (addr_bytes (example_address 2)) \<rparr>)),
       [SWrite b, SSentBid, SClose, SReceived])"
proof -
  have amt: "set_string10 ''10'' = Some 10" by code_simp
  from bid_becomes_commitment [where C = example_lib and ks_b = "example_ks 1" and ks_p = "example_ks 2"
      and W = example_wire and P = example_services and txHash = "''0xab,0xcd''" and amt = "''10''"
      and bn = 5 and ds = 1 and de = 2 and provs = "[example_provider]" and i = 1 and j = 2
      and p = example_provider and q = example_bidder and provider = "example_service 1 example_bidder"
      and bidder = "example_service 2 example_provider",
      OF example_signs_as example_signs_as _ _ amt _ example_accepts example_wire_ok _ _
        example_service_knows example_service_peer]
    example_construct example_commit example_marshals
  show ?thesis by (simp add: example_bidder_def) metis
qed

text \<open>
  C3: every bid that a node signs verifies, as signed by the node's address, and carries the
  requested terms.
\<close>

theorem signed_bid_verifies:
  assumes "signs_as C ks a" and "txHash \<noteq> []" "bn \<noteq> 0" "set_string10 amt = Some n"
  shows "\<exists>b. signer_ConstructSignedBid C ks txHash amt bn ds de = Ok b \<and>
    signer_VerifyBid C (Some b) = Ok a \<and>
    TxHash b = txHash \<and> BidAmount b = amt \<and> BlockNumber b = bn \<and>
    DecayStartTimestamp b = ds \<and> DecayEndTimestamp b = de"
  using assms by (elim ConstructSignedBid_verifies) blast+

theorem signed_bid_verifies_witness:
  "\<exists>b. signer_ConstructSignedBid example_lib (example_ks 7) ''0xab'' ''25'' 3 1 9 = Ok b \<and>
    signer_VerifyBid example_lib (Some b) = Ok (example_address 7) \<and>
    TxHash b = ''0xab'' \<and> BidAmount b = ''25'' \<and> BlockNumber b = 3 \<and>
    DecayStartTimestamp b = 1 \<and> DecayEndTimestamp b = 9"
  by (rule signed_bid_verifies [where n = 25]) (simp_all add: example_signs_as, code_simp)

text \<open>
  C4: a preconfirmation made for a verified bid verifies, as signed by the node that made
  it, and holds that bid.
\<close>

theorem preconfirmation_verifies:
  assumes "signs_as C ks a" and "signer_VerifyBid C (Some b) = Ok bidder"
  shows "\<exists>pc. signer_ConstructPreConfirmation C ks (Some b) = Ok pc \<and> pc_Bid pc = Some b \<and>
    signer_VerifyPreConfirmation C pc = Ok a"
  using assms by (rule ConstructPreConfirmation_verifies) (intro exI conjI)

theorem preconfirmation_verifies_witness:
  "\<exists>pc. signer_ConstructPreConfirmation example_lib (example_ks 2) (Some example_bid) = Ok pc \<and>
    pc_Bid pc = Some example_bid \<and> signer_VerifyPreConfirmation example_lib pc = Ok (example_address 2)"
  by (rule preconfirmation_verifies [OF example_signs_as])
     (use example_verify_bid [of 0] in \<open>simp add: NewSigner_def\<close>)

text \<open>
  C5: well-formed messages. Everything a node with a working key signs has a 32-byte digest
  and a 65-byte signature ending in 27 or 28, and verifying it does not panic. Signing a bid
  never panics; making a preconfirmation, which first verifies the bid it is for, panics
  exactly when that verification does.
\<close>

theorem signed_messages_well_formed:
  assumes "signs_as C ks a"
  shows "signer_ConstructSignedBid C ks txHash amt bn ds de \<noteq> Panic \<and>
    (signer_ConstructSignedBid C ks txHash amt bn ds de = Ok b \<longrightarrow>
       bid_wf b \<and> signer_VerifyBid C (Some b) \<noteq> Panic) \<and>
    (signer_ConstructPreConfirmation C ks pb = Panic \<longleftrightarrow> signer_VerifyBid C pb = Panic) \<and>
    (signer_ConstructPreConfirmation C ks pb = Ok pc \<longrightarrow>
       pc_wf pc \<and> signer_VerifyPreConfirmation C pc \<noteq> Panic)"
  using ConstructSignedBid_not_Panic [OF assms] ConstructSignedBid_wf [OF assms]
    ConstructPreConfirmation_wf [OF assms] ConstructPreConfirmation_verifiable [OF assms]
    ConstructPreConfirmation_Panic_iff [OF assms]
  by (auto simp: VerifyBid_wf)

theorem signed_messages_well_formed_witness:
  "bid_wf example_bid \<and> pc_wf example_pc"
proof -
  have "signer_ConstructSignedBid example_lib (example_ks 1) ''0xab,0xcd'' ''10'' 5 1 2 = Ok example_bid"
    "signer_ConstructPreConfirmation example_lib (example_ks 2) (Some example_bid) = Ok example_pc"
    using example_construct example_commit by (simp_all add: NewSigner_def)
  with signed_messages_well_formed [OF example_signs_as [of 1]]
    signed_messages_well_formed [OF example_signs_as [of 2]]
  show ?thesis by blast
qed

text \<open>
  C6: a bid's digest binds its terms: two bids with one digest have the same transactions,
  block, decay times and amount modulo \<open>2^256\<close>, or two of the strings hashed while the
  digests were computed collide.
\<close>

theorem bid_digest_binds_terms:
  assumes "keccak_ok C" "u256_ok C"
    and "set_string10 (BidAmount b) = Some n" "set_string10 (BidAmount b') = Some n'"
    and "GetBidHash C b = GetBidHash C b'"
  shows "same_terms n b n' b' \<or> collide C (bid_preimages C n b) (bid_preimages C n' b')"
  using assms by (rule bid_hash_binds)

theorem bid_digest_binds_terms_witness:
  "same_terms 10 example_bid 10 (example_bid\<lparr> Signature := None \<rparr>) \<or>
   collide example_lib (bid_preimages example_lib 10 example_bid)
     (bid_preimages example_lib 10 (example_bid\<lparr> Signature := None \<rparr>))"
proof (rule bid_digest_binds_terms [OF example_keccak_ok example_u256_ok])
  show "GetBidHash example_lib example_bid = GetBidHash example_lib (example_bid\<lparr> Signature := None \<rparr>)"
    by (simp add: GetBidHash_def encode_fields_def split: option.split)
qed (simp_all add: example_bid_def, code_simp+)


text \<open>
  C7: in every reachable state of a bid's workers the channel holds no more than its
  capacity, everything received verified and carries the address of its signer, and, unless
  a worker panicked, a worker that has a preconfirmation can put it on the channel: it
  neither blocks nor meets a closed channel.
\<close>

theorem workers_never_block:
  assumes "reach (bid_start provs) (bid_step (NewSigner C ks) b conn provs) s"
  shows "length (br_chan s) \<le> length provs \<and>
    (\<forall>pc \<in> set (br_received s). forwarded_ok (NewSigner C ks) pc) \<and>
    (\<forall>p pc. \<not> br_crashed s \<and> p \<in> set (br_pending s) \<and>
       worker_result (NewSigner C ks) b conn p = Ok (Some pc) \<longrightarrow>
       (\<exists>s'. bid_step (NewSigner C ks) b conn provs s (WDeliver p) s'))"
proof -
  have inv: "bid_inv (NewSigner C ks) provs s" using assms by (rule workers.reach_inv)
  have "\<exists>s'. bid_step (NewSigner C ks) b conn provs s (WDeliver p) s'"
    if *: "\<not> br_crashed s" "p \<in> set (br_pending s)"
      "worker_result (NewSigner C ks) b conn p = Ok (Some pc)" for p pc
  proof -
    have "0 < length (br_pending s)" using *(2) by (rule length_pos_if_in_set)
    with inv have "length (br_chan s) < length provs" unfolding bid_inv_def by linarith
    moreover have "\<not> br_closed s" using inv *(2) by (auto simp: bid_inv_def)
    ultimately show ?thesis using * by (blast intro: bid_step.deliver)
  qed
  with inv show ?thesis by (auto simp: bid_inv_def)
qed

theorem workers_never_block_witness:
  "\<exists>s'. bid_step (example_signer 1) example_bid (\<lambda>_. example_conn example_pc) [example_bidder]
     \<lparr> br_pending = [example_bidder], br_chan = [], br_closed = False, br_received = [],
       br_crashed = False \<rparr> (WDeliver example_bidder) s'"
proof -
  let ?s = "\<lparr> br_pending = [example_bidder], br_chan = [], br_closed = False, br_received = [],
       br_crashed = False \<rparr>"
  have "reach (bid_start [example_bidder])
      (bid_step (example_signer 1) example_bid (\<lambda>_. example_conn example_pc) [example_bidder]) ?s"
    by (rule reach_init) (simp add: bid_start_def)
  moreover have "worker_result (example_signer 1) example_bid (\<lambda>_. example_conn example_pc) example_bidder
      = Ok (Some (example_pc\<lparr> pc_ProviderAddress := Some (addr_bytes (example_address 2)) \<rparr>))"
    by (simp add: worker_result_def bid_worker_def example_conn_def example_verify_pc)
  ultimately show ?thesis by (auto dest: workers_never_block)
qed

section \<open>Findings on bids\<close>

text \<open>
  C8: \<open>SendBid\<close>'s workers terminate: at most twice the number of providers plus two steps
  follow the start, every run can be completed, and a run that cannot go on has either
  crashed, in which case the worker of some provider panicked, or it has closed the channel
  with every worker done and nothing left in it. What the caller has received then is the
  answers of all workers but those that saw the end of the context when they wanted to
  deliver (\<open>cut_workers\<close>), each as often as it was given.
\<close>

theorem send_bid_terminates:
  assumes "bid_start provs s" and "steps (bid_step (NewSigner C ks) b conn provs) s ls t"
  shows "length ls \<le> 2 * length provs + 2 \<and>
    (\<exists>ls' t'. steps (bid_step (NewSigner C ks) b conn provs) t ls' t' \<and>
       stuck (bid_step (NewSigner C ks) b conn provs) t') \<and>
    (stuck (bid_step (NewSigner C ks) b conn provs) t \<longrightarrow>
       (if br_crashed t then \<exists>p \<in> set provs. worker_result (NewSigner C ks) b conn p = Panic
        else br_pending t = [] \<and> br_closed t \<and> br_chan t = [] \<and>
          mset (br_received t) + mset (answers (NewSigner C ks) b conn (cut_workers ls)) =
            mset (answers (NewSigner C ks) b conn provs)))"
proof -
  have "length ls + bid_rank t \<le> bid_rank s" using assms(2) by (rule bid_runs.run_bounded)
  moreover have "bid_rank s = 2 * length provs + 2"
    using assms(1) by (simp add: bid_start_def bid_rank_def)
  moreover have inv: "bid_inv (NewSigner C ks) provs t"
    using assms by (blast intro: workers.steps_inv workers.inv_start)
  moreover have "if br_crashed t then \<exists>p \<in> set provs. worker_result (NewSigner C ks) b conn p = Panic
      else br_pending t = [] \<and> br_closed t \<and> br_chan t = [] \<and>
        mset (br_received t) + mset (answers (NewSigner C ks) b conn (cut_workers ls)) =
          mset (answers (NewSigner C ks) b conn provs)"
    if "stuck (bid_step (NewSigner C ks) b conn provs) t"
    using bid_progress [OF inv that] ended_received [OF assms] crashed_panics [OF assms]
    by (cases "br_crashed t") (simp_all add: bid_ended_def)
  ultimately show ?thesis using bid_runs.run_completes by simp
qed

definition example_start :: bid_run where
  "example_start =
     \<lparr> br_pending = [example_bidder], br_chan = [], br_closed = False, br_received = [],
       br_crashed = False \<rparr>"

theorem send_bid_terminates_witness:
  "\<exists>ls t. steps (bid_step (example_signer 1) example_bid (\<lambda>_. example_conn example_pc) [example_bidder])
            example_start ls t \<and>
     br_received t = [example_pc\<lparr> pc_ProviderAddress := Some (addr_bytes (example_address 2)) \<rparr>]"
proof -
  let ?pc = "example_pc\<lparr> pc_ProviderAddress := Some (addr_bytes (example_address 2)) \<rparr>"
  let ?conn = "\<lambda>_ :: peer. example_conn example_pc"
  have w: "worker_result (example_signer 1) example_bid ?conn example_bidder = Ok (Some ?pc)"
    by (simp add: worker_result_def bid_worker_def example_conn_def example_verify_pc)
  obtain s ls t where r: "bid_start [example_bidder] s"
      "steps (bid_step (example_signer 1) example_bid ?conn [example_bidder]) s ls t"
      "stuck (bid_step (example_signer 1) example_bid ?conn [example_bidder]) t"
      "\<forall>q. WCtxDone q \<notin> set ls"
    using one_provider_run [OF w] by metis
  then have s: "s = example_start" by (simp add: bid_start_def example_start_def)
  from send_bid_terminates [OF r(1,2)] r(3) w
  have "mset (br_received t) = {# ?pc #}"
    by (simp add: cut_workers_Nil [OF r(4)] answers_def answer_def split: if_splits)
  then show ?thesis using r(2) by (intro exI [of _ ls] exI [of _ t]) (simp add: s)
qed

text \<open>
  C9: every accepting provider's commitment arrives. Let the bidder be connected to each
  provider, and each provider know it as a bidder and accept. When the run has ended and no
  worker was cut off by the context, the caller has received exactly one preconfirmation per
  provider, the one that provider's handler wrote, under its address, and the channel is
  closed.
\<close>

theorem honest_commitments_arrive:
  assumes "VerifyBid (NewSigner C ks) (Some b) = Ok a" and "wire_lib_ok W" "marshals (wr_bid W) b"
    and "Type me = PeerTypeBidder"
    and "\<And>p. p \<in> set provs \<Longrightarrow> signs_as C (key p) (EthAddress p) \<and> accepts_bid (svc p) a b \<and>
      knows (j p) p bidder \<and> getPeer i (peers (node p)) = Some me"
    and "\<And>p pc. p \<in> set provs \<Longrightarrow>
      ConstructPreConfirmation (NewSigner C (key p)) (Some b) = Ok pc \<Longrightarrow> marshals (wr_preconf W) pc"
    and "conn = (\<lambda>p. network_conn W (NewSigner C (key p)) (svc p) i (node p) (j p) bidder b p)"
    and "bid_start provs s" and "steps (bid_step (NewSigner C ks) b conn provs) s ls t"
    and "stuck (bid_step (NewSigner C ks) b conn provs) t" and "\<forall>p. WCtxDone p \<notin> set ls"
  shows "br_closed t \<and> (\<exists>pc.
    (\<forall>p \<in> set provs. EffWrite (pc p) \<in>
       set (snd (handleBid (NewSigner C (key p)) (svc p) me (handler_stream W (bid_frame W b))))) \<and>
    mset (br_received t) =
      mset (map (\<lambda>p. (pc p)\<lparr> pc_ProviderAddress := Some (addr_bytes (EthAddress p)) \<rparr>) provs))"
  by (rule honest_run) (fact assms)+

theorem honest_commitments_arrive_witness:
  "\<exists>t :: bid_run. br_closed t \<and> (\<exists>pc. mset (br_received t) = {# pc #})"
proof -
  let ?p = example_provider and ?conn = "example_network example_bid"
  let ?step = "bid_step (example_signer 1) example_bid ?conn [?p]"
  obtain s ls t where run: "bid_start [?p] s" "steps ?step s ls t" "stuck ?step t" "\<forall>q. WCtxDone q \<notin> set ls"
    using one_provider_run [OF example_network_worker] by metis
  have "br_closed t \<and> (\<exists>pc. (\<forall>p \<in> set [?p]. EffWrite (pc p) \<in>
       set (snd (handleBid (example_signer 2) example_services example_bidder
         (handler_stream example_wire (bid_frame example_wire example_bid))))) \<and>
    mset (br_received t) =
      mset (map (\<lambda>p. (pc p)\<lparr> pc_ProviderAddress := Some (addr_bytes (EthAddress p)) \<rparr>) [?p]))"
  proof (rule honest_commitments_arrive [where key = "\<lambda>_. example_ks 2" and svc = "\<lambda>_. example_services"
      and j = "\<lambda>_. 2" and node = "\<lambda>_. example_service 1 example_bidder" and i = 1 and a = "example_address 1"
      and bidder = "example_service 2 example_provider" and W = example_wire,
      OF example_verify_bid example_wire_ok example_marshals(1) _ _ _ _ run])
    show "Type example_bidder = PeerTypeBidder" by (simp add: example_bidder_def)
    show "signs_as example_lib (example_ks 2) (EthAddress p) \<and>
        accepts_bid example_services (example_address 1) example_bid \<and>
        knows 2 p (example_service 2 example_provider) \<and>
        getPeer 1 (peers (example_service 1 example_bidder)) = Some example_bidder"
      if "p \<in> set [?p]" for p
      using that example_signs_as [of 2] example_accepts example_service_knows example_service_peer
      by (simp add: example_provider_def)
    show "marshals (wr_preconf example_wire) pc"
      if "ConstructPreConfirmation (NewSigner example_lib (example_ks 2)) (Some example_bid) = Ok pc" for pc
      using that example_commit example_marshals(2) by simp
  qed simp
  then show ?thesis by auto
qed



text \<open>
  C11: verifying a bid panics exactly when its digest is right and its signature is shorter
  than 65 bytes. A peer chooses both, so a bid from the network can stop a provider.
\<close>

theorem verify_bid_panics_iff:
  "VerifyBid (NewSigner C ks) (Some b) = Panic \<longleftrightarrow>
     (\<exists>h sig. Digest b = Some h \<and> Signature b = Some sig \<and> GetBidHash C b = Ok h \<and>
              length sig < 65)"
  by (auto simp: NewSigner_def VerifyBid_Panic_iff)

text \<open>
  A provider's answer that has a digest and a signature but no bid makes the bidder's
  worker panic.
\<close>

theorem missing_bid_panics_worker:
  assumes "bc_NewStream conn = Ok ()" "bc_WriteMsg conn b = Ok ()" "bc_ReadMsg conn = Ok pc"
    and "pc_Bid pc = None" "pc_Digest pc \<noteq> None" "pc_Signature pc \<noteq> None"
  shows "fst (bid_worker (NewSigner C ks) b conn) = Panic"
  using assms
  by (simp add: bid_worker_def NewSigner_def signer_VerifyPreConfirmation_def signer_VerifyBid_def)

theorem missing_bid_panics_worker_witness:
  "fst (bid_worker (example_signer 1) example_bid
          (example_conn (example_pc\<lparr> pc_Bid := None \<rparr>))) = Panic"
  by (rule missing_bid_panics_worker) (simp_all add: example_conn_def, simp_all add: example_pc_def)

text \<open>
  The worker does not compare the answer with the bid it sent: a provider can answer with
  a commitment it made for any other bid that verifies, and the bidder is told that the
  provider committed, under the terms of that other bid.
\<close>

theorem worker_reports_any_bid:
  assumes "signs_as C ks_p prov" and "VerifyBid (NewSigner C ks_b) (Some other) = Ok someone"
    and "ConstructPreConfirmation (NewSigner C ks_p) (Some other) = Ok pc"
    and "bc_NewStream conn = Ok ()" "bc_WriteMsg conn b = Ok ()" "bc_ReadMsg conn = Ok pc"
  shows "\<exists>reported. fst (bid_worker (NewSigner C ks_b) b conn) = Ok (Some reported) \<and>
    pc_Bid reported = Some other \<and> pc_ProviderAddress reported = Some (addr_bytes prov)"
proof -
  have "VerifyPreConfirmation (NewSigner C ks_b) pc = Ok prov" "pc_Bid pc = Some other"
    using pks.commit_verifies_elsewhere [of "(C, ks_p)" prov "(C, ks_b)" other someone] assms(1-3)
    by auto
  with assms(4-6) show ?thesis by (simp add: bid_worker_def)
qed

theorem worker_reports_any_bid_witness:
  "\<exists>reported. fst (bid_worker (example_signer 1) (example_bid\<lparr> TxHash := ''0xff'' \<rparr>) (example_conn example_pc)) =
     Ok (Some reported) \<and> pc_Bid reported = Some example_bid \<and>
     pc_ProviderAddress reported = Some (addr_bytes (example_address 2))"
  by (rule worker_reports_any_bid [OF example_signs_as example_verify_bid example_commit])
     (simp_all add: example_conn_def)

section \<open>The provider's API\<close>

text \<open>
  C12: whatever the interleaving of bids, cancellations, streams and responses, the service
  never sends on a closed channel nor closes one twice, and a callback taken from the map
  can always run: its channel never blocks it.
\<close>

theorem provider_api_safe:
  assumes "reach prov_start (prov_step vb vr) s"
  shows "\<not> ps_crashed s \<and>
    (\<forall>(k, st) \<in> set (ps_calling s).
       \<exists>s'. prov_step vb vr s (LCallback k st) s' \<and> \<not> ps_crashed s')"
proof -
  have inv: "prov_inv s" using assms by (rule provider.reach_inv)
  then have nc: "\<not> ps_crashed s" by (simp add: prov_inv_def)
  have "\<exists>s'. prov_step vb vr s (LCallback k st) s' \<and> \<not> ps_crashed s'"
    if mem: "(k, st) \<in> set (ps_calling s)" for k st
  proof -
    obtain s' where s': "callback_run k st s = Some s'" using callback_runs [OF inv mem] by blast
    have "prov_step vb vr s (LCallback k st) s'" using nc mem s' by (rule prov_step.callback)
    moreover have "\<not> ps_crashed s'"
      using prov_inv_callback [OF inv mem s'] by (simp add: prov_inv_def)
    ultimately show ?thesis by blast
  qed
  with nc show ?thesis by blast
qed

definition example_prov_run :: prov_state where
  "example_prov_run =
     SendProcessedBids_lookup example_digest STATUS_ACCEPTED
       (ReceiveBids_take 0 True (ProcessBid_register example_bid new_prov_state))"

lemma example_prov_register:
  "reach prov_start (prov_step (\<lambda>_. True) (\<lambda>_. True)) (ProcessBid_register example_bid new_prov_state)"
  using prov_step.process [of new_prov_state "\<lambda>_. True" example_bid "\<lambda>_. True"]
  by (auto simp: new_prov_state_def prov_start_def intro: reach_step [OF reach_init])

lemma example_prov_steps:
  "steps (prov_step (\<lambda>_. True) (\<lambda>_. True)) (ProcessBid_register example_bid new_prov_state)
     [LReceive 0 True, LRespond example_digest STATUS_ACCEPTED] example_prov_run"
proof -
  let ?s1 = "ProcessBid_register example_bid new_prov_state"
  have "prov_step (\<lambda>_. True) (\<lambda>_. True) ?s1 (LReceive 0 True) (ReceiveBids_take 0 True ?s1)"
    by (rule prov_step.receive [where m = "to_prov_bid example_bid"])
       (simp_all add: ProcessBid_register_def new_prov_state_def Let_def)
  moreover have "prov_step (\<lambda>_. True) (\<lambda>_. True) (ReceiveBids_take 0 True ?s1)
      (LRespond example_digest STATUS_ACCEPTED) example_prov_run"
    unfolding example_prov_run_def
    by (rule prov_step.respond)
       (simp_all add: ReceiveBids_take_def ProcessBid_register_def new_prov_state_def Let_def)
  ultimately show ?thesis by (auto intro: steps.intros)
qed

lemma example_prov_reach: "reach prov_start (prov_step (\<lambda>_. True) (\<lambda>_. True)) example_prov_run"
  by (rule reach_steps [OF example_prov_steps example_prov_register])

lemma example_prov_calling: "(0, STATUS_ACCEPTED) \<in> set (ps_calling example_prov_run)"
  by (simp add: example_prov_run_def SendProcessedBids_lookup_def ReceiveBids_take_def
      ProcessBid_register_def new_prov_state_def example_bid_def Let_def)

theorem provider_api_safe_witness:
  "\<exists>s'. prov_step (\<lambda>_. True) (\<lambda>_. True) example_prov_run (LCallback 0 STATUS_ACCEPTED) s' \<and>
        \<not> ps_crashed s'"
  using provider_api_safe [OF example_prov_reach] example_prov_calling by blast

text \<open>
  A status that a waiting handler receives is a validated response of the client to the
  very digest the handler's bid was registered under (or the zero value of a channel that
  is closed and read before).
\<close>

theorem status_answers_its_digest:
  assumes "reach prov_start (prov_step vb vr) s" and "status_take k s = Some (st, s')"
    and "st \<noteq> STATUS_UNSPECIFIED"
  shows "(ps_digest s k, st) \<in> set (ps_responses s)"
proof -
  have "prov_inv s" using assms(1) by (rule provider.reach_inv)
  moreover have "st \<in> set (ch_buf (ps_chans s k))"
    using assms(2,3) by (auto simp: status_take_def split: list.splits if_splits)
  ultimately show ?thesis by (rule prov_inv_bufD)
qed

definition example_prov_answered :: prov_state where
  "example_prov_answered = the (callback_run 0 STATUS_ACCEPTED example_prov_run)"

lemma example_prov_answered:
  "callback_run 0 STATUS_ACCEPTED example_prov_run = Some example_prov_answered"
  unfolding example_prov_answered_def
  using callback_runs [OF provider.reach_inv [OF example_prov_reach] example_prov_calling]
  by simp

lemma example_prov_callback:
  "prov_step (\<lambda>_. True) (\<lambda>_. True) example_prov_run (LCallback 0 STATUS_ACCEPTED) example_prov_answered"
  using provider.reach_inv [OF example_prov_reach]
  by (intro prov_step.callback example_prov_answered example_prov_calling) (simp add: prov_inv_def)

lemma example_prov_status: "\<exists>s'. status_take 0 example_prov_answered = Some (STATUS_ACCEPTED, s')"
proof -
  have "ch_buf (ps_chans example_prov_answered 0) = [STATUS_ACCEPTED]"
    using arg_cong [OF callback_runs [OF provider.reach_inv [OF example_prov_reach] example_prov_calling],
        of "\<lambda>r. ch_buf (ps_chans (the r) 0)"]
    by (simp add: example_prov_answered)
  then show ?thesis by (simp add: status_take_def)
qed

theorem status_answers_its_digest_witness:
  "(ps_digest example_prov_answered 0, STATUS_ACCEPTED) \<in> set (ps_responses example_prov_answered)"
  using example_prov_status
  by (auto intro: status_answers_its_digest [OF reach_step [OF example_prov_reach example_prov_callback]])

text \<open>
  A commitment needs the client's acceptance. Let the handler of a bid wait on the channel
  that the API registered for it, while other bids, cancellations, streams and responses
  interleave in any order. If the handler writes a preconfirmation, then after the registration
  the client sent a validated response that accepts exactly this bid's digest.
\<close>

theorem commitment_needs_clients_acceptance:
  assumes "EffWrite pc \<in> set (snd (handleBid S P peer str))" "bs_ReadMsg str = Ok b"
    and "decided_by validBid validResponse P b s t"
  shows "\<exists>rs. ps_responses t = ps_responses s @ rs \<and> (bval (Digest b), STATUS_ACCEPTED) \<in> set rs"
  using assms by (rule written_decided)

theorem commitment_needs_clients_acceptance_witness:
  "\<exists>rs. ps_responses example_prov_answered = ps_responses new_prov_state @ rs \<and>
     (bval (Digest example_bid), STATUS_ACCEPTED) \<in> set rs"
proof (rule commitment_needs_clients_acceptance [where S = "example_signer 2" and P = example_services
      and peer = example_bidder and str = example_stream and pc = example_pc])
  have "steps (prov_step (\<lambda>_. True) (\<lambda>_. True)) (ProcessBid_register example_bid new_prov_state)
      [LReceive 0 True, LRespond example_digest STATUS_ACCEPTED, LCallback 0 STATUS_ACCEPTED]
      example_prov_answered"
    using example_prov_steps example_prov_callback by (auto simp: steps_Cons_iff)
  moreover have "ps_offering example_prov_answered = ps_offering example_prov_run"
    using arg_cong [OF callback_runs [OF provider.reach_inv [OF example_prov_reach] example_prov_calling],
        of "\<lambda>r. ps_offering (the r)"]
    by (simp add: example_prov_answered)
  then have "ps_offering example_prov_answered 0 = None"
    by (simp add: example_prov_run_def SendProcessedBids_lookup_def ReceiveBids_take_def
        ProcessBid_register_def new_prov_state_def example_bid_def Let_def)
  ultimately show "decided_by (\<lambda>_. True) (\<lambda>_. True) example_services example_bid new_prov_state
      example_prov_answered"
    using example_prov_status reach_init [of prov_start new_prov_state]
    by (auto simp: decided_by_def example_services_def prov_start_def new_prov_state_def)
qed (simp_all add: example_handleBid, simp add: example_stream_def)

text \<open>
  When a bid is submitted again while its first submission waits, the first handler's
  channel is lost: in no continuation does it ever receive a status.
\<close>

theorem resubmission_starves_first:
  assumes "reach prov_start (prov_step vb vr) s"
    and "bidsInProcess s (bval (Digest b)) = Some k"
    and "steps (prov_step vb vr) (ProcessBid_register b s) ls t"
  shows "status_take k t = None"
proof -
  have "prov_inv s" using assms(1) by (rule provider.reach_inv)
  then have "orphaned k (ProcessBid_register b s)" using assms(2) by (rule resubmission_orphans)
  with assms(3) have "orphaned k t" by (rule orphaned_steps)
  then show ?thesis by (rule orphaned_no_status)
qed

definition example_prov_waiting :: prov_state where
  "example_prov_waiting = ProcessBid_register example_bid new_prov_state"

lemma example_waiting_reach:
  "reach prov_start (prov_step (\<lambda>_. True) (\<lambda>_. True)) example_prov_waiting"
proof -
  have "prov_step (\<lambda>_. True) (\<lambda>_. True) new_prov_state (LProcess example_bid) example_prov_waiting"
    unfolding example_prov_waiting_def
    by (rule prov_step.process) (simp_all add: new_prov_state_def)
  then show ?thesis by (meson prov_start_def reach_init reach_step)
qed

lemma example_waiting_map: "bidsInProcess example_prov_waiting (bval (Digest example_bid)) = Some 0"
  by (simp add: example_prov_waiting_def ProcessBid_register_def new_prov_state_def Let_def)

theorem resubmission_starves_first_witness:
  "status_take 0 (ProcessBid_register example_bid example_prov_waiting) = None"
  by (rule resubmission_starves_first [OF example_waiting_reach example_waiting_map steps_Nil])

text \<open>
  The end of a waiting submission's context deletes the entry of its digest even when
  another submission of the bid has registered it since: that handler, too, then never
  receives a status.
\<close>

theorem cancel_starves_successor:
  assumes "reach prov_start (prov_step vb vr) s"
    and "ps_offering s k = Some m" "bidsInProcess s (ps_digest s k) = Some k'"
    and "steps (prov_step vb vr) (ProcessBid_cancel k s) ls t"
  shows "status_take k' t = None"
proof -
  have "prov_inv s" using assms(1) by (rule provider.reach_inv)
  then have "orphaned k' (ProcessBid_cancel k s)" using assms(2,3) by (rule cancel_orphans)
  with assms(4) have "orphaned k' t" by (rule orphaned_steps)
  then show ?thesis by (rule orphaned_no_status)
qed

theorem cancel_starves_successor_witness:
  "status_take 1 (ProcessBid_cancel 0 (ProcessBid_register example_bid example_prov_waiting)) = None"
proof (rule cancel_starves_successor [OF _ _ _ steps_Nil])
  let ?s = "ProcessBid_register example_bid example_prov_waiting"
  show "reach prov_start (prov_step (\<lambda>_. True) (\<lambda>_. True)) ?s"
    using example_waiting_reach
    by (rule reach_step [where l = "LProcess example_bid"])
       (rule prov_step.process,
        simp_all add: example_prov_waiting_def ProcessBid_register_def new_prov_state_def Let_def)
  show "ps_offering ?s 0 = Some (to_prov_bid example_bid)"
    and "bidsInProcess ?s (ps_digest ?s 0) = Some 1"
    by (simp_all add: example_prov_waiting_def ProcessBid_register_def new_prov_state_def Let_def)
qed


section \<open>The rules of the APIs\<close>

text \<open>
  C13: the rules of the two nodes agree. A bid that passes the validation rules of the bidder's
  API is signed by a node with a working key; the signed bid verifies as this node's, and it
  passes the rules that the provider's node checks before it hands the bid to its client, with
  the same transaction hashes.
\<close>

theorem accepted_bid_passes_rules:
  assumes "signs_as C ks a" and "bidder_bid_rule rb"
  shows "\<exists>b. signer_ConstructSignedBid C ks (join_with '','' (rb_TxHashes rb)) (rb_Amount rb)
           (rb_BlockNumber rb) (rb_DecayStart rb) (rb_DecayEnd rb) = Ok b \<and>
         signer_VerifyBid C (Some b) = Ok a \<and> provider_bid_rule (to_prov_bid b) \<and>
         pb_TxHashes (to_prov_bid b) = rb_TxHashes rb"
  using assms by (rule accepted_bid_signs)

definition example_rpc_bid :: rpc_bid where
  "example_rpc_bid = emulated_bid (keccak256 example_lib) [1, 2, 3] 7 40 10000 10000"

lemma example_rpc_bid_rule: "bidder_bid_rule example_rpc_bid"
  unfolding example_rpc_bid_def
  by (rule emulated_bid_rule) (use example_keccak_ok in \<open>simp_all add: keccak_ok_def\<close>)

theorem accepted_bid_passes_rules_witness:
  "\<exists>b. signer_VerifyBid example_lib (Some b) = Ok (example_address 1) \<and> provider_bid_rule (to_prov_bid b) \<and>
     pb_TxHashes (to_prov_bid b) = rb_TxHashes example_rpc_bid"
  using accepted_bid_passes_rules [OF example_signs_as example_rpc_bid_rule, of 1] by blast

section \<open>The programs that use the APIs\<close>

text \<open>
  One turn of the bidder of the integration test. While the block number and the clock are
  in the range of their types, the bid that it makes passes the rules of its node's API, the node
  signs it, the provider's rules accept it, and the program counts every preconfirmation that
  comes out of the node's channel.
\<close>

theorem emulated_bidder_turn:
  assumes "signs_as C ks a" and "draw < 200000" "unat blkNum < 2 ^ 63 - 5" "8000 < sint now1" "0 < sint now2"
    and "\<And>th amt bn ds de b. signer_ConstructSignedBid C ks th amt bn ds de = Ok b \<Longrightarrow>
      node th amt bn ds de = Ok (replies b)"
    and "\<And>b pc. pc \<in> set (replies b) \<Longrightarrow> pc_Bid pc \<noteq> None"
  shows "\<exists>b. signer_VerifyBid C (Some b) = Ok a \<and> provider_bid_rule (to_prov_bid b) \<and>
    bidder_sendBid (keccak256 C) (Inr blkNum) (Inr randBytes) draw now1 now2
      (\<lambda>m. Inr (client_stream (bidderapi_SendBid (validate_by bidder_bid_rule) node (\<lambda>_. None) m))) =
    Some (Ok (), length (replies b))"
proof -
  define m where "m = emulated_bid (keccak256 C) randBytes draw blkNum now1 now2"
  have "length (keccak256 C x) = 32" for x using assms(1) by (simp add: signs_as_def keccak_ok_def)
  from emulated_bid_rule [OF this assms(2-5)] have rule: "bidder_bid_rule m" by (simp add: m_def)
  obtain b where b: "signer_ConstructSignedBid C ks (join_with '','' (rb_TxHashes m)) (rb_Amount m)
      (rb_BlockNumber m) (rb_DecayStart m) (rb_DecayEnd m) = Ok b"
    "signer_VerifyBid C (Some b) = Ok a" "provider_bid_rule (to_prov_bid b)"
    using accepted_bid_signs [OF assms(1) rule] by blast
  have "bidder_sendBid (keccak256 C) (Inr blkNum) (Inr randBytes) draw now1 now2
      (\<lambda>m. Inr (client_stream (bidderapi_SendBid (validate_by bidder_bid_rule) node (\<lambda>_. None) m))) =
    Some (Ok (), length (replies b))"
    by (rule emulated_turn [OF rule [unfolded m_def] m_def]) (use assms(6) [OF b(1)] assms(7) in auto)
  with b(2,3) show ?thesis by blast
qed

theorem emulated_bidder_turn_witness:
  "bidder_sendBid (keccak256 example_lib) (Inr 40) (Inr [1, 2, 3]) 7 10000 10000
      (\<lambda>m. Inr (client_stream (bidderapi_SendBid (validate_by bidder_bid_rule)
        (\<lambda>_ _ _ _ _. Ok [example_pc, example_pc]) (\<lambda>_. None) m))) = Some (Ok (), 2)"
  using emulated_bidder_turn [OF example_signs_as, of 7 40 10000 10000 1 "\<lambda>_ _ _ _ _. Ok [example_pc, example_pc]"
      "\<lambda>_. [example_pc, example_pc]" "[1, 2, 3]"]
  by (auto simp: example_pc_def)

text \<open>
  C14: one turn of that bidder in a market. Its node is connected to providers that know it as a
  bidder and accept; the bid goes out over their streams. When the node's workers have ended and
  none was cut off by the context, the program has counted one preconfirmation per provider and
  ends without an error.
\<close>

theorem emulated_market_turn:
  assumes "signs_as C ks a" and "draw < 200000" "unat blkNum < 2 ^ 63 - 5" "8000 < sint now1" "0 < sint now2"
    and "m = emulated_bid (keccak256 C) randBytes draw blkNum now1 now2"
    and "ConstructSignedBid (NewSigner C ks) (join_with '','' (rb_TxHashes m)) (rb_Amount m)
      (rb_BlockNumber m) (rb_DecayStart m) (rb_DecayEnd m) = Ok b"
    and "wire_lib_ok W" "marshals (wr_bid W) b" "Type me = PeerTypeBidder"
    and "\<And>p. p \<in> set provs \<Longrightarrow> signs_as C (key p) (EthAddress p) \<and> accepts_bid (svc p) a b \<and>
      knows (j p) p bidder \<and> getPeer i (peers (node p)) = Some me"
    and "\<And>p pc. p \<in> set provs \<Longrightarrow>
      ConstructPreConfirmation (NewSigner C (key p)) (Some b) = Ok pc \<Longrightarrow> marshals (wr_preconf W) pc"
    and "conn = (\<lambda>p. network_conn W (NewSigner C (key p)) (svc p) i (node p) (j p) bidder b p)"
    and "bid_start provs s" and "steps (bid_step (NewSigner C ks) b conn provs) s ls t"
    and "stuck (bid_step (NewSigner C ks) b conn provs) t" and "\<forall>p. WCtxDone p \<notin> set ls"
    and "api (join_with '','' (rb_TxHashes m)) (rb_Amount m) (rb_BlockNumber m) (rb_DecayStart m)
      (rb_DecayEnd m) = Ok (br_received t)"
  shows "bidder_sendBid (keccak256 C) (Inr blkNum) (Inr randBytes) draw now1 now2
      (\<lambda>m. Inr (client_stream (bidderapi_SendBid (validate_by bidder_bid_rule) api (\<lambda>_. None) m))) =
    Some (Ok (), length provs)"
proof -
  have "length (keccak256 C x) = 32" for x using assms(1) by (simp add: signs_as_def keccak_ok_def)
  from emulated_bid_rule [OF this assms(2-5)] have rule: "bidder_bid_rule m" by (simp add: assms(6))
  have v: "VerifyBid (NewSigner C ks) (Some b) = Ok a"
    using accepted_bid_signs [OF assms(1) rule] assms(7) by (auto simp: NewSigner_def)
  have "length (br_received t) = length provs"
    by (rule honest_run_received(1) [OF v]) (fact assms)+
  moreover have got: "pc_Bid pc = Some b" if "pc \<in> set (br_received t)" for pc
    by (rule honest_run_received(2) [OF v]) (fact assms that)+
  have "bidder_sendBid (keccak256 C) (Inr blkNum) (Inr randBytes) draw now1 now2
      (\<lambda>m. Inr (client_stream (bidderapi_SendBid (validate_by bidder_bid_rule) api (\<lambda>_. None) m))) =
    Some (Ok (), length (br_received t))"
    by (rule emulated_turn [OF rule [unfolded assms(6)] assms(6)]) (use assms(18) got in auto)
  ultimately show ?thesis by simp
qed

theorem emulated_market_turn_witness:
  "\<exists>api. bidder_sendBid (keccak256 example_lib) (Inr 40) (Inr [1, 2, 3]) 7 10000 10000
      (\<lambda>m. Inr (client_stream (bidderapi_SendBid (validate_by bidder_bid_rule) api (\<lambda>_. None) m))) =
    Some (Ok (), 1)"
proof -
  let ?p = example_provider and ?m = example_rpc_bid and ?me = example_bidder
  obtain b where b: "ConstructSignedBid (example_signer 1) (join_with '','' (rb_TxHashes ?m)) (rb_Amount ?m)
      (rb_BlockNumber ?m) (rb_DecayStart ?m) (rb_DecayEnd ?m) = Ok b"
    and v: "VerifyBid (example_signer 2) (Some b) = Ok (example_address 1)"
    using accepted_bid_signs [OF example_signs_as example_rpc_bid_rule, of 1] by (auto simp: NewSigner_def)
  obtain pc where pc: "ConstructPreConfirmation (example_signer 2) (Some b) = Ok pc"
    using pks.commit_ok [of "(example_lib, example_ks 2)" "example_address 2" b] v example_signs_as by auto
  define W where "W = example_wire\<lparr> wr_bid := only_proto [b], wr_preconf := only_proto [pc] \<rparr>"
  have W: "wire_lib_ok W" "marshals (wr_bid W) b" "marshals (wr_preconf W) pc"
    using example_wire_ok by (simp_all add: W_def wire_lib_ok_def only_proto_ok)
  let ?conn = "\<lambda>p. network_conn W (example_signer 2) example_services 1 (example_service 1 ?me) 2
    (example_service 2 ?p) b p"
  have me: "Type ?me = PeerTypeBidder" by (simp add: example_bidder_def)
  have "\<exists>q. worker_result (example_signer 1) b ?conn ?p = Ok (Some q)"
    by (rule pks.network_commitment [of "(example_lib, example_ks 2)" "example_address 2" "(example_lib, example_ks 1)"
          b "example_address 1" example_services W 2 ?p "example_service 2 ?p" 1 "example_service 1 ?me" ?me])
       (use W v pc me example_signs_as example_accepts example_service_knows example_service_peer in
         \<open>auto simp: worker_result_def\<close>)
  then obtain s ls t where run: "bid_start [?p] s" "steps (bid_step (example_signer 1) b ?conn [?p]) s ls t"
    "stuck (bid_step (example_signer 1) b ?conn [?p]) t" "\<forall>q. WCtxDone q \<notin> set ls"
    by (metis one_provider_run)
  have "bidder_sendBid (keccak256 example_lib) (Inr 40) (Inr [1, 2, 3]) 7 10000 10000
      (\<lambda>m. Inr (client_stream (bidderapi_SendBid (validate_by bidder_bid_rule)
        (\<lambda>_ _ _ _ _. Ok (br_received t)) (\<lambda>_. None) m))) = Some (Ok (), length [?p])"
  proof (rule emulated_market_turn [where key = "\<lambda>_. example_ks 2" and svc = "\<lambda>_. example_services"
      and j = "\<lambda>_. 2" and node = "\<lambda>_. example_service 1 ?me" and i = 1 and provs = "[?p]"
      and bidder = "example_service 2 ?p" and me = ?me and m = ?m,
      OF example_signs_as _ _ _ _ _ b W(1,2) me _ _ refl run])
    show "signs_as example_lib (example_ks 2) (EthAddress p) \<and>
        accepts_bid example_services (example_address 1) b \<and>
        knows 2 p (example_service 2 ?p) \<and> getPeer 1 (peers (example_service 1 ?me)) = Some ?me"
      if "p \<in> set [?p]" for p
      using that example_signs_as [of 2] example_accepts example_service_knows example_service_peer
      by (simp add: example_provider_def)
    show "marshals (wr_preconf W) q"
      if "ConstructPreConfirmation (NewSigner example_lib (example_ks 2)) (Some b) = Ok q" for q
      using that pc W(3) by simp
  qed (simp_all add: example_rpc_bid_def)
  then show ?thesis by (intro exI) simp
qed

text \<open>
  C15: the provider of the integration test decides what reaches it. The API registers the bid
  in the state \<open>s\<close>; registrations, cancellations, streams, responses and callbacks then
  interleave in any order up to the state \<open>t\<close>, where the handler takes the first status from
  its channel. When every response since the registration came from the program's loop, the
  status is the one that the program drew for a bid of this digest, and the handler rejects the
  bid or goes on to commit as that draw says.
\<close>

theorem emulated_provider_decides:
  assumes "reach prov_start (prov_step validBid response_rule) s"
    and "steps (prov_step validBid response_rule) (ProcessBid_register b s) ls t"
    and "\<forall>st. LTake (ps_next s) st \<notin> set ls" and "status_take (ps_next s) t = Some (st, t')"
    and "ps_responses t = ps_responses s @ rs" "set rs \<subseteq> set (fst (provider_loop p sendResp bids))"
    and "Type q = PeerTypeBidder" "bs_ReadMsg str = Ok b" "VerifyBid S (Some b) = Ok a"
    and "CheckBidderAllowance P a" "ProcessBid P b = Ok (ps_next s)"
    and "select_status P (ps_next s) = StatusOf st"
  shows "\<exists>m draw. (m, draw) \<in> set bids \<and> bval (pb_BidDigest m) = bval (Digest b) \<and>
    st = emulator_status p draw \<and>
    handleBid S P q str =
      (if 0 < p \<and> draw < p
       then (Fail (Err_Status Internal ''bid rejected''), [EffAllowance a, EffProcess b])
       else (case accept_bid S P str (set_string10 (BidAmount b)) b of
               (r, es) \<Rightarrow> (r, EffAllowance a # EffProcess b # es)))"
proof -
  from taken_answer [OF assms(1-4)] assms(5,6)
  have "(bval (Digest b), st) \<in> set (fst (provider_loop p sendResp bids))" by auto
  then obtain m draw where m: "(m, draw) \<in> set bids" "bval (pb_BidDigest m) = bval (Digest b)"
    and st: "st = emulator_status p draw"
    by (blast dest: provider_loop_responses)
  have "select_status P (ps_next s) = StatusOf (emulator_status p draw)" using assms(12) st by simp
  from handleBid_emulated [OF assms(7-11) this] m st show ?thesis
    by (intro exI [of _ m] exI [of _ draw] conjI)
qed

text \<open>The services of a handler whose API is in the state \<open>t\<close> and gave its bid the channel \<open>k\<close>.\<close>

definition example_api :: "nat \<Rightarrow> prov_state \<Rightarrow> bid_services" where
  "example_api k t = example_services
     \<lparr> ProcessBid := (\<lambda>_. Ok k),
       select_status := (\<lambda>k. case status_take k t of
          None \<Rightarrow> CtxDone (Err_Sentinel ErrCtxDone) | Some (st, _) \<Rightarrow> StatusOf st) \<rparr>"

theorem emulated_provider_decides_witness:
  "\<exists>ls t. steps (prov_step (\<lambda>_. True) response_rule) (ProcessBid_register example_bid new_prov_state) ls t \<and>
     handleBid (example_signer 2) (example_api 0 t) example_bidder example_stream =
       (Fail (Err_Status Internal ''bid rejected''), [EffAllowance (example_address 1), EffProcess example_bid])"
proof -
  let ?s = "ProcessBid_register example_bid new_prov_state" and ?step = "prov_step (\<lambda>_. True) response_rule"
  let ?bids = "[(to_prov_bid example_bid, 5)]"
  have start: "reach prov_start ?step new_prov_state" by (simp add: reach_init prov_start_def)
  then have inv: "prov_inv ?s" by (intro prov_inv_register provider.reach_inv)
  obtain t t' where t: "steps ?step ?s [LReceive 0 True, LRespond (bval (Digest example_bid)) STATUS_REJECTED,
        LCallback 0 STATUS_REJECTED] t" "status_take 0 t = Some (STATUS_REJECTED, t')"
    "ps_responses t = [(bval (Digest example_bid), STATUS_REJECTED)]"
    using response_decides [OF inv, of 0 "to_prov_bid example_bid" response_rule STATUS_REJECTED "\<lambda>_. True"]
    by (auto simp: ProcessBid_register_def new_prov_state_def to_prov_bid_def Let_def)
  have rs: "ps_responses t = ps_responses new_prov_state @ [(bval (Digest example_bid), STATUS_REJECTED)]"
    "set [(bval (Digest example_bid), STATUS_REJECTED)] \<subseteq> set (fst (provider_loop 20 (\<lambda>_. None) ?bids))"
    "Type example_bidder = PeerTypeBidder" "bs_ReadMsg example_stream = Ok example_bid"
    "CheckBidderAllowance (example_api 0 t) (example_address 1)" "ProcessBid (example_api 0 t) example_bid = Ok 0"
    "select_status (example_api 0 t) 0 = StatusOf STATUS_REJECTED" "ps_next new_prov_state = 0"
    using t(2,3)
    by (simp_all add: emulator_status_def to_prov_bid_def example_api_def example_services_def
        example_bidder_def example_stream_def new_prov_state_def)
  from emulated_provider_decides [OF start t(1) _ _ rs(1,2,3,4) example_verify_bid rs(5)] rs t(2)
  have "handleBid (example_signer 2) (example_api 0 t) example_bidder example_stream =
      (Fail (Err_Status Internal ''bid rejected''), [EffAllowance (example_address 1), EffProcess example_bid])"
    by fastforce
  with t(1) show ?thesis by blast
qed

text \<open>
  C16: the bidder's top-up against the registry: nothing is paid while the allowance is above the
  minimum; otherwise ten times the minimum is prepaid, which the service refuses when that is not
  a positive number of 64 bits.
\<close>

theorem top_up_pays_ten_minimums:
  assumes "GetAllowance r own w = (Ok a, w1)" and "GetMinAllowance r w1 = (Ok m, w2)"
  shows "checkOrPrepay (bidder_service r own) w =
    (if m < a then (Ok (), w2)
     else if 0 < m * 10 \<and> m * 10 < 2 ^ 64
     then abind (awrap (\<lambda>_. Err_Status Internal ''prepaying allowance'')
            (PrepayAllowance r (Some (m * 10))))
            (\<lambda>_. abind (get_amount ''getting allowance'' (GetAllowance r own)) (\<lambda>_. aret ())) w2
     else (Fail (Err_Status InvalidArgument ''validating prepay request''), w2))"
  using assms by (rule checkOrPrepay_service)

definition example_contract :: "(tx_request list) contract_client" where
  "example_contract =
     \<lparr> cc_abi = \<lparr> abi_Pack = (\<lambda>m args. Inr (string_bytes m)), abi_Unpack = (\<lambda>m r. Inr [7]) \<rparr>,
       cc_addr = example_address 9,
       cc_client =
         \<lparr> ei_Send = (\<lambda>req w. (Ok (Hash [1]), w @ [req])),
           ei_WaitForReceipt = (\<lambda>h w. (Ok \<lparr> rc_Status = ReceiptStatusFailed \<rparr>, w)),
           ei_Call = (\<lambda>req w. (Ok [], w)),
           ei_CancelTx = (\<lambda>h w. (Ok h, w)) \<rparr> \<rparr>"

theorem top_up_pays_ten_minimums_witness:
  "checkOrPrepay (bidder_service example_contract (example_address 1)) [] =
     (Ok (), [call_request (cc_addr example_contract) (string_bytes ''prepay'') (Some 70)])"
  using top_up_pays_ten_minimums [of example_contract "example_address 1" "[]" 7 "[]" 7 "[]"]
  by (simp add: GetAllowance_def GetMinAllowance_def view_call_def PrepayAllowance_def paid_call_def
      abind_def awrap_def get_amount_def example_contract_def)

text \<open>
  The command line of the examples sets no decay times: the service refuses each of its bids.
  Its random hashes have 68 characters, so they break a second rule.
\<close>

theorem command_line_bids_refused:
  assumes "sendBid = (\<lambda>b. Inr (client_stream (bidderapi_SendBid (validate_by bidder_bid_rule) node send b)))"
  shows "cli_submit None sendBid (cli_bid txHash amount blockNumber) =
    Some (Fail (Err_Status InvalidArgument ''validating bid''))"
  using assms by (rule cli_submit_refused)

text \<open>
  The bidder of real blocks panics when a random bundle reaches behind the capacity of the
  block's slice, which the last transactions of a block easily do.
\<close>

theorem real_bidder_panics_iff:
  "fst (bid_on_block cap block draw) = Panic \<longleftrightarrow> (\<exists>j < length block. cap < j + draw j)"
  by (rule bid_on_block_Panic)

section \<open>Contracts\<close>

text \<open>
  A node is told that a bidder is allowed exactly when both contract calls worked and
  the allowance reaches the minimum; an error never counts as allowed.
\<close>

theorem bidder_allowed_iff:
  "registry_CheckBidderAllowance r a w = (Ok True, w2) \<longleftrightarrow>
     (\<exists>m s w1. GetMinAllowance r w = (Ok m, w1) \<and> GetAllowance r a w1 = (Ok s, w2) \<and> m \<le> s)"
  by (simp add: registry_CheckBidderAllowance_def check_at_least_True)

text \<open>
  C17: storing a commitment sends one transaction to the contract, packed from the stored
  terms; the amount is taken modulo \<open>2^64\<close>, and is the bid's amount when that passed the rules
  of the API.
\<close>

theorem stored_commitment_sends_terms:
  assumes "preconf_StoreCommitment p (commitment_of (Some n) b pc) w = (Ok (), w')"
  shows "\<exists>amt callData h.
    abi_Pack (cc_abi p) ''storeCommitment''
      [AUint64 amt, AUint64 (BlockNumber b), AString (TxHash b), AUint64 (DecayStartTimestamp b),
       AUint64 (DecayEndTimestamp b), ABytes (Signature b), ABytes (pc_Signature pc)] = Inr callData \<and>
    ei_Send (cc_client p) (call_request (cc_addr p) callData None) w = (Ok h, w') \<and>
    uint amt = n mod 2 ^ 64 \<and> (amount_rule txt \<and> set_string10 txt = Some n \<longrightarrow> uint amt = n)"
  by (rule StoreCommitment_Ok [OF assms]) (unfold storage_sent_def, blast)

theorem stored_commitment_sends_terms_witness:
  "\<exists>amt callData h.
    abi_Pack (cc_abi example_contract) ''storeCommitment''
      [AUint64 amt, AUint64 (BlockNumber example_bid), AString (TxHash example_bid),
       AUint64 (DecayStartTimestamp example_bid), AUint64 (DecayEndTimestamp example_bid),
       ABytes (Signature example_bid), ABytes (pc_Signature example_pc)] = Inr callData \<and>
    ei_Send (cc_client example_contract) (call_request (cc_addr example_contract) callData None) [] =
      (Ok h, [call_request (cc_addr example_contract) (string_bytes ''storeCommitment'') None]) \<and>
    uint amt = (2 ^ 64 + 3) mod 2 ^ 64"
  using stored_commitment_sends_terms [of example_contract "2 ^ 64 + 3" example_bid example_pc "[]"
      "[call_request (cc_addr example_contract) (string_bytes ''storeCommitment'') None]"]
  by (simp add: preconf_StoreCommitment_def example_contract_def big_Int64_def commitment_of_def
      abind_def) blast

text \<open>
  C18: a commitment is backed. When the provider's handler hands out a preconfirmation, the bid
  verified, the registry covered its signer's minimum allowance, the provider's client accepted
  this bid's digest after it was registered, and the commitment contract was sent a transaction
  with the bid's exact terms, its full amount, and both signatures.
\<close>

theorem commitment_backed_on_chain:
  assumes "EffWrite pc \<in> set (snd (handleBid (NewSigner C ks) (settled_services r p w w' P) peer str))"
    and "bs_ReadMsg str = Ok b" and "decided_by provider_bid_rule response_rule P b s t"
  shows "(\<exists>a n amt w''. VerifyBid (NewSigner C ks) (Some b) = Ok a \<and> covered r a w \<and>
      set_string10 (BidAmount b) = Some n \<and> uint amt = n \<and> storage_sent p b pc amt w' w'') \<and>
    (\<exists>rs. ps_responses t = ps_responses s @ rs \<and> (bval (Digest b), STATUS_ACCEPTED) \<in> set rs)"
  using pks.written_settled [of pc "(C, ks)" r p w w' P peer str b response_rule s t]
    written_decided [OF assms(1,2)] assms by (simp add: decided_by_settled)

theorem commitment_backed_on_chain_witness:
  "\<exists>b pc n amt w''. set_string10 (BidAmount b) = Some n \<and> uint amt = n \<and>
     storage_sent example_contract b pc amt [] w''"
proof -
  obtain b where b: "VerifyBid (example_signer 2) (Some b) = Ok (example_address 1)"
    "provider_bid_rule (to_prov_bid b)"
    using accepted_bid_signs [OF example_signs_as example_rpc_bid_rule, of 1] by (auto simp: NewSigner_def)
  obtain pc where pc: "ConstructPreConfirmation (example_signer 2) (Some b) = Ok pc" "pc_Bid pc = Some b"
    using pks.commit_ok [of "(example_lib, example_ks 2)" "example_address 2" b] b(1) example_signs_as by auto
  obtain n where n: "set_string10 (BidAmount b) = Some n"
    using pks.verify_amount [of "(example_lib, example_ks 2)" b] b(1) by auto
  let ?s = "ProcessBid_register b new_prov_state" and ?step = "prov_step provider_bid_rule response_rule"
  let ?P = "settled_services example_contract example_contract [] [] example_services"
  have start: "reach prov_start ?step new_prov_state" by (simp add: reach_init prov_start_def)
  then have "prov_inv ?s" by (intro prov_inv_register provider.reach_inv)
  then obtain t t' ls where t: "steps ?step ?s ls t" "ps_offering t 0 = None"
    "status_take 0 t = Some (STATUS_ACCEPTED, t')"
    using response_decides [of ?s 0 "to_prov_bid b" response_rule STATUS_ACCEPTED provider_bid_rule]
    by (auto simp: ProcessBid_register_def new_prov_state_def to_prov_bid_def Let_def)
  have "decided_by provider_bid_rule response_rule example_services b new_prov_state t"
    using start b(2) t by (auto simp: decided_by_def example_services_def new_prov_state_def)
  moreover have "covered example_contract (example_address 1) []"
    by (simp add: covered_def GetMinAllowance_def GetAllowance_def view_call_def abind_def example_contract_def)
  then have "EffWrite pc \<in> set (snd (handleBid (example_signer 2) ?P example_bidder
      \<lparr> bs_ReadMsg = Ok b, bs_WriteMsg = (\<lambda>_. Ok ()) \<rparr>))"
    using b(1) pc n
    by (simp add: handleBid_def accept_bid_def settled_services_def allowance_covered example_bidder_def
        example_services_def commitment_of_def preconf_StoreCommitment_def big_Int64_def abind_def
        example_contract_def Let_def)
  ultimately have "\<exists>a n amt w''. VerifyBid (example_signer 2) (Some b) = Ok a \<and>
      covered example_contract a [] \<and> set_string10 (BidAmount b) = Some n \<and> uint amt = n \<and>
      storage_sent example_contract b pc amt [] w''"
    using commitment_backed_on_chain [of pc example_lib "example_ks 2" example_contract example_contract
        "[]" "[]" example_services example_bidder "\<lparr> bs_ReadMsg = Ok b, bs_WriteMsg = (\<lambda>_. Ok ()) \<rparr>" b
        new_prov_state t] by simp
  then show ?thesis by blast
qed

text \<open>
  A provider's registration whose transaction was mined and failed is answered as a
  success, with the stake read back from the chain.
\<close>

theorem failed_registration_reported_as_success:
  assumes "validate txt = None" and "set_string10 txt = Some n"
    and "abi_Pack (cc_abi r) ''registerAndStake'' [] = Inr callData"
    and "ei_Send (cc_client r) (call_request (cc_addr r) callData (Some n)) w = (Ok h, w1)"
    and "ei_WaitForReceipt (cc_client r) h w1 = (Ok \<lparr> rc_Status = ReceiptStatusFailed \<rparr>, w2)"
    and "GetStake r own w2 = (Ok st, w3)"
  shows "providerapi_RegisterStake validate r own txt w = (Ok (show_int st), w3)"
  using assms by (rule RegisterStake_reverted)

theorem failed_registration_reported_as_success_witness:
  "providerapi_RegisterStake (\<lambda>_. None) example_contract (example_address 2) ''50'' [] =
     (Ok (show_int 7),
      [call_request (cc_addr example_contract) (string_bytes ''registerAndStake'') (Some 50)])"
proof (rule failed_registration_reported_as_success)
  show "set_string10 ''50'' = Some 50" by code_simp
  show "GetStake example_contract (example_address 2)
      [call_request (cc_addr example_contract) (string_bytes ''registerAndStake'') (Some 50)] =
      (Ok 7, [call_request (cc_addr example_contract) (string_bytes ''registerAndStake'') (Some 50)])"
    by (simp add: GetStake_def view_call_def abind_def example_contract_def)
qed (simp_all add: example_contract_def)

section \<open>The transaction monitor\<close>

text \<open>
  C19: before shutdown no notification panics or blocks, whatever the order of new watchers,
  turns of the watch loop, checks and notifications.
\<close>

theorem monitor_safe_before_shutdown:
  assumes "reach mon_start mon_step s" and "\<not> ms_drained s"
  shows "tm_fault (ms_mon s) = NoFault"
  using monitor.reach_inv [OF assms(1)] assms(2) tm_invD(1) by (simp add: mon_inv_def)

definition example_mon :: mon_state where
  "example_mon =
     \<lparr> ms_mon = newTxMonitor, ms_lastBlock = 0, ms_check = None, ms_todo = [], ms_drained = False \<rparr>"

definition example_watched :: txmonitor where
  "example_watched = snd (watchTx (Hash [1]) 0 newTxMonitor)"

lemma example_mon_reach: "reach mon_start mon_step (example_mon\<lparr> ms_mon := example_watched \<rparr>)"
proof -
  have "reach mon_start mon_step example_mon"
    by (rule reach_init) (simp add: mon_start_def example_mon_def)
  moreover have "mon_step example_mon (MWatch (Hash [1]) 0) (example_mon\<lparr> ms_mon := example_watched \<rparr>)"
    using mon_step.watch [of example_mon "Hash [1]" 0]
    by (simp add: example_mon_def newTxMonitor_def example_watched_def)
  ultimately show ?thesis by (rule reach_step)
qed

theorem monitor_safe_before_shutdown_witness:
  "tm_fault (ms_mon (example_mon\<lparr> ms_mon := example_watched \<rparr>)) = NoFault"
  by (rule monitor_safe_before_shutdown [OF example_mon_reach]) (simp add: example_mon_def)

text \<open>
  C20: one whole check. With a batch call that answers every hash, each waiter whose nonce is
  below the confirmed one gets the answer for its transaction (the receipt, or
  \<open>ErrTxnCancelled\<close> when there is none) on a channel that is then closed; every other
  waiter's channel stays as it was. The batches of 64 neither lose nor repeat a hash.
\<close>

theorem check_notifies_exactly_older:
  assumes "tm_inv t" and "older_groups t n gs"
    and "\<And>k v h. waitMap t k = Some v \<Longrightarrow> v h \<noteq> None \<Longrightarrow> nu h = k"
    and "\<And>hs. length hs \<le> batchSize \<Longrightarrow> fetch hs = Inr (\<lambda>i. e (hs ! i))"
    and "c \<in> set (waiters t k h)"
  shows "tm_chans (check fetch gs t) c =
    (if k < n then case elem_notice h (e h) of None \<Rightarrow> new_chan | Some r \<Rightarrow> answered r
     else new_chan)"
  using assms by (rule check_answers_waiters)


definition example_receipt :: receipt where
  "example_receipt = \<lparr> rc_Status = ReceiptStatusSuccessful \<rparr>"

lemma example_watched_waiters:
  "waiters example_watched n h = (if n = 0 \<and> h = Hash [1] then [0] else [])"
  by (simp add: example_watched_def waiters_watchTx newTxMonitor_def)
     (simp add: waiters_def)

lemma example_watched_map: "waitMap example_watched = [0 \<mapsto> [Hash [1] \<mapsto> [0]]]"
  by (simp add: example_watched_def watchTx_def newTxMonitor_def Let_def)

lemma example_watched_inv: "tm_inv example_watched"
  unfolding example_watched_def by (intro tm_inv_watchTx tm_inv_new)

lemma example_watched_groups: "older_groups example_watched 1 [(0, [Hash [1]])]"
  by (auto simp: older_groups_def example_watched_map enumerates_def split: if_splits)

theorem check_notifies_exactly_older_witness:
  "tm_chans (check (\<lambda>_. Inr (\<lambda>_. BResult (Some example_receipt))) [(0, [Hash [1]])] example_watched) 0 =
    (if (0 :: u64) < 1
     then case elem_notice (Hash [1]) (BResult (Some example_receipt)) of
            None \<Rightarrow> new_chan | Some r \<Rightarrow> answered r
     else new_chan)"
  by (rule check_notifies_exactly_older
        [where nu = "\<lambda>_. 0" and e = "\<lambda>_. BResult (Some example_receipt)",
         OF _ example_watched_groups])
     (auto simp: example_watched_waiters example_watched_map example_watched_inv split: if_splits)

text \<open>
  Shutdown while a check is on its way can panic: the watch loop answers and closes the
  waiting channels and leaves them in the map, and the notification that follows sends on a
  closed channel.
\<close>

theorem shutdown_can_panic:
  "\<exists>s. steps mon_step example_mon [MWatch (Hash [1]) 0, MTurn True, MSnapshot, MDrain, MNotify] s \<and>
       tm_fault (ms_mon s) = Panicked"
proof -
  define t where "t = example_watched\<lparr> lastConfirmedNonce := 1 \<rparr>"
  have t: "waitMap t = [0 \<mapsto> [Hash [1] \<mapsto> [0]]]" "tm_fault t = NoFault" "tm_chans t 0 = new_chan"
    by (simp_all add: t_def example_watched_map) (simp_all add: example_watched_def newTxMonitor_def)
  define d where "d = drain [0] t"
  have d: "waitMap d = waitMap t" "tm_fault d = NoFault"
    "tm_chans d 0 = answered (TxErr (Err_Sentinel ErrMonitorClosed))"
    by (simp_all add: d_def drain_def send_all_def send_close_new t)
  let ?ns = "[(0, Hash [1], TxReceipt example_receipt)]"
  let ?s1 = "example_mon\<lparr> ms_mon := example_watched \<rparr>"
  let ?s2 = "?s1\<lparr> ms_mon := t, ms_lastBlock := 5, ms_check := Some 1 \<rparr>"
  let ?s3 = "?s2\<lparr> ms_check := None, ms_todo := ?ns \<rparr>"
  let ?s4 = "?s3\<lparr> ms_mon := d, ms_drained := True \<rparr>"
  have 1: "mon_step example_mon (MWatch (Hash [1]) 0) ?s1"
    using mon_step.watch [of example_mon "Hash [1]" 0]
    by (simp add: example_mon_def newTxMonitor_def example_watched_def)
  have 2: "mon_step ?s1 (MTurn True) ?s2"
    by (rule mon_step.turn [where bn = "Inr 5" and na = "\<lambda>_. Inr 1" and upd = "Some (1, 5)"])
       (simp_all add: example_mon_def watch_turn_def t_def example_watched_def newTxMonitor_def)
  have "check_notices (\<lambda>_. Inr (\<lambda>_. BResult (Some example_receipt))) [(0, [Hash [1]])] = ?ns"
    by (simp add: check_notices_def check_nonces_def check_hashes_def check_loop.simps
        batchSize_def List.map_filter_simps elem_notice_def nonce_of_def)
  then have 3: "mon_step ?s2 MSnapshot ?s3"
    using mon_step.snapshot [of ?s2 1 "[(0, [Hash [1]])]"
        "\<lambda>_. Inr (\<lambda>_. BResult (Some example_receipt))"] example_watched_groups t
    by (simp add: example_mon_def older_groups_def example_watched_map)
  have "waiting_chans t = {0}"
    by (auto simp: waiting_chans_def waiters_def t split: if_splits)
  then have 4: "mon_step ?s3 MDrain ?s4"
    using mon_step.drain [of ?s3 "[0]"] t by (simp add: example_mon_def d_def enumerates_def)
  have 5: "mon_step ?s4 MNotify (?s4\<lparr> ms_mon := notify 0 (Hash [1]) (TxReceipt example_receipt) d,
      ms_todo := [] \<rparr>)"
    using mon_step.notice [of ?s4 0 "Hash [1]" "TxReceipt example_receipt" "[]"] d by simp
  have "tm_fault (notify 0 (Hash [1]) (TxReceipt example_receipt) d) = Panicked"
    by (simp add: notify_def waiters_def d t send_all_def send_close_closed Let_def)
  with 1 2 3 4 5 show ?thesis by (fastforce intro: steps_Cons steps_Nil)
qed

text \<open>
  A shutdown that no check crosses answers every waiting channel exactly once, with
  \<open>ErrMonitorClosed\<close>, and closes it.
\<close>

theorem shutdown_answers_waiters:
  assumes "reach mon_start mon_step s" "\<not> ms_drained s"
    and "enumerates cs (waiting_chans (ms_mon s))"
  shows "tm_fault (drain cs (ms_mon s)) = NoFault \<and>
    (\<forall>c \<in> waiting_chans (ms_mon s).
       tm_chans (drain cs (ms_mon s)) c = answered (TxErr (Err_Sentinel ErrMonitorClosed)))"
proof -
  have "tm_inv (ms_mon s)" using monitor.reach_inv [OF assms(1)] assms(2) by (simp add: mon_inv_def)
  then show ?thesis using drain_answers [OF _ assms(3)] tm_invD(1) by simp
qed

theorem shutdown_answers_waiters_witness:
  "tm_chans (drain [0] example_watched) 0 = answered (TxErr (Err_Sentinel ErrMonitorClosed))"
proof -
  have w: "waiting_chans example_watched = {0}"
    by (auto simp: waiting_chans_def example_watched_waiters split: if_splits)
  then show ?thesis
    using shutdown_answers_waiters [OF example_mon_reach, of "[0]"]
    by (simp add: example_mon_def enumerates_def)
qed

section \<open>The EVM client\<close>

text \<open>
  C21: a new client never signs two transactions with one nonce: over any sequence of sends,
  successful or not, the nonces of the transactions the chain accepted strictly increase, as
  long as the account's pending nonce is positive and the 64 bits do not overflow.
\<close>

theorem sent_nonces_increase:
  assumes "evmclient_New (Inr net) own = Ok c"
    and "\<And>x. x \<in> set xs \<Longrightarrow> sendable own B x" and "unat B + length xs < 2 ^ 64"
  shows "sorted_wrt (<) (map tx_Nonce (ec_log (run_sends xs c)))"
proof -
  have c: "owner c = own" "nonce c = 0" "ec_log c = []"
    using assms(1) by (auto simp: evmclient_New_def)
  then have "nonces_below c" by (simp add: nonces_below_def)
  then have "nonces_below (run_sends xs c)"
    using assms(2,3) c by (intro run_sends_nonces [of xs c B "unat B"]) auto
  then show ?thesis by (simp add: nonces_below_def)
qed

definition example_txn :: eth_tx where
  "example_txn =
     \<lparr> tx_Nonce = 4, tx_ChainID = 1, tx_To = Some (example_address 9), tx_Value = None,
       tx_Gas = 50000, tx_GasFeeCap = 100, tx_GasTipCap = 20, tx_Data = [1] \<rparr>"

definition example_evm :: "u64 \<Rightarrow> evm" where
  "example_evm a =
     \<lparr> PendingNonceAt = (\<lambda>_. Inr a), EstimateGas = (\<lambda>_. Inr 21000),
       SuggestGasPrice = Inr 100, SuggestGasTipCap = Inr 30,
       SignTx = (\<lambda>tx _. Inr \<lparr> st_Tx = tx, st_Hash = Hash [of_nat (unat (tx_Nonce tx))] \<rparr>),
       SendTransaction = (\<lambda>_. Inr ()), CallContract = (\<lambda>_. Inr []),
       TransactionByHash = (\<lambda>_. Inr (example_txn, True)) \<rparr>"

lemma example_sign_ok: "sign_ok (example_evm a)"
  by (auto simp: sign_ok_def example_evm_def)

definition example_client :: evm_client where
  "example_client =
     (case evmclient_New (Inr 1) (example_address 2) of Ok c \<Rightarrow> c)"

lemma example_client: "evmclient_New (Inr 1) (example_address 2) = Ok example_client"
  by (simp add: example_client_def evmclient_New_def)

abbreviation example_request :: tx_request where
  "example_request \<equiv> call_request (example_address 9) [1] None"

theorem sent_nonces_increase_witness:
  "sorted_wrt (<) (map tx_Nonce (ec_log (run_sends
     [(example_evm 5, ''t1'', example_request), (example_evm 5, ''t2'', example_request)]
     example_client)))"
  by (rule sent_nonces_increase [OF example_client, where B = 5])
     (auto simp: sendable_def example_sign_ok call_request_def, simp_all add: example_evm_def)

text \<open>
  While the account's pending nonce is 0 the client does not count: two sends both use
  nonce 0, and once the first is pending the next send uses nonce 2, so nonce 1 is skipped.
\<close>

theorem first_nonce_reused_and_gap:
  assumes "evmclient_New (Inr net) own = Ok c"
    and "Send E1 now1 tx1 c = (Ok h1, c1)" "Send E2 now2 tx2 c1 = (Ok h2, c2)"
      "Send E3 now3 tx3 c2 = (Ok h3, c3)"
    and "sign_ok E1" "sign_ok E2" "sign_ok E3"
    and "PendingNonceAt E1 own = Inr 0" "PendingNonceAt E2 own = Inr 0" "PendingNonceAt E3 own = Inr 1"
  shows "map tx_Nonce (ec_log c3) = [0, 0, 2]"
proof -
  have c: "owner c = own" "nonce c = 0" "ec_log c = []"
    using assms(1) by (auto simp: evmclient_New_def)
  have o: "owner c1 = own" "owner c2 = own"
    using Send_owner [of E1 now1 tx1 c] Send_owner [of E2 now2 tx2 c1] assms(2,3) c by simp_all
  have a: "PendingNonceAt E1 (owner c) = Inr 0" "PendingNonceAt E2 (owner c1) = Inr 0"
    "PendingNonceAt E3 (owner c2) = Inr 1"
    using assms(8-10) c o by simp_all
  obtain t1 where 1: "ec_log c1 = ec_log c @ [t1]" "tx_Nonce t1 = 0" "nonce c1 = nonce c + 1"
    by (rule Send_nonce_first [OF assms(2,5) a(1)])
  obtain t2 where 2: "ec_log c2 = ec_log c1 @ [t2]" "tx_Nonce t2 = 0" "nonce c2 = nonce c1 + 1"
    by (rule Send_nonce_first [OF assms(3,6) a(2)])
  obtain t3 where 3: "ec_log c3 = ec_log c2 @ [t3]" "tx_Nonce t3 = max (nonce c2) 1"
    by (rule Send_nonce [OF assms(4,7) a(3)]) simp_all
  from 1(3) 2(3) c(2) have "max (nonce c2) 1 = 2" by (simp add: max_def word_le_nat_alt)
  with 1 2 3 c show ?thesis by simp
qed

theorem first_nonce_reused_and_gap_witness:
  "\<exists>c1 c2 c3. Send (example_evm 0) ''t1'' example_request example_client = (Ok (Hash [0]), c1) \<and>
     Send (example_evm 0) ''t2'' example_request c1 = (Ok (Hash [0]), c2) \<and>
     Send (example_evm 1) ''t3'' example_request c2 = (Ok (Hash [2]), c3) \<and>
     map tx_Nonce (ec_log c3) = [0, 0, 2]"
proof -
  note run = Send_def abind_def awrap_def getNonce_def Send_with_def Send_record_def newTx_def
    suggestMaxFeeAndTipCap_def allowNonce_def maxSentTxs_def waitForTxn_def call_request_def
    empty_request_def example_evm_def
  obtain c1 where 1: "Send (example_evm 0) ''t1'' example_request example_client = (Ok (Hash [0]), c1)"
    and n1: "nonce c1 = 1" "lastConfirmedNonce (monitor c1) = 0"
    by (simp add: run example_client_def evmclient_New_def newTxMonitor_def)
  obtain c2 where 2: "Send (example_evm 0) ''t2'' example_request c1 = (Ok (Hash [0]), c2)"
    and n2: "nonce c2 = 2" "lastConfirmedNonce (monitor c2) = 0"
    using n1 by (simp add: run)
  obtain c3 where 3: "Send (example_evm 1) ''t3'' example_request c2 = (Ok (Hash [2]), c3)"
    using n2 by (simp add: run)
  have "map tx_Nonce (ec_log c3) = [0, 0, 2]"
    by (rule first_nonce_reused_and_gap [OF example_client 1 2 3])
       (simp_all add: example_sign_ok, simp_all add: example_evm_def)
  with 1 2 3 show ?thesis by (intro exI conjI)
qed

text \<open>
  C22: cancelling replaces a pending transaction by an empty transfer to the owner with the
  same nonce, which does not count as a new nonce; the tip is the larger of the old and the
  suggested one plus ten percent rounded down, the fee cap grows by the whole new tip, and
  the replacement is watched like any other transaction.
\<close>

theorem cancel_replaces_transaction:
  assumes "CancelTx E now txnHash c = (Ok h, c')" and "sign_ok E"
    and "TransactionByHash E txnHash = Inr (txn, p)" and "SuggestGasTipCap E = Inr tip"
    and "0 \<le> tx_GasTipCap txn"
  shows "\<exists>t. ec_log c' = ec_log c @ [t] \<and> nonce c' = nonce c \<and>
    tx_Nonce t = tx_Nonce txn \<and> tx_To t = Some (owner c) \<and> tx_Value t = Some 0 \<and> tx_Data t = [] \<and>
    tx_GasTipCap t = max (tx_GasTipCap txn) tip * 110 div 100 \<and>
    tx_GasFeeCap t = tx_GasFeeCap txn + tx_GasTipCap t \<and>
    tx_GasTipCap txn \<le> tx_GasTipCap t \<and>
    sentTxs c' h = Some \<lparr> td_nonce = tx_Nonce txn, td_created = now \<rparr> \<and>
    (h, tx_Nonce txn) \<in> set (ec_spawned c')"
proof -
  obtain t where t: "t = cancel_tx c txn (cancel_fees txn (tx_GasFeeCap txn, tip))"
    "ec_log c' = ec_log c @ [t]" "nonce c' = nonce c"
    "sentTxs c' = (sentTxs c)(h \<mapsto> \<lparr> td_nonce = tx_Nonce txn, td_created = now \<rparr>)"
    "ec_spawned c' = ec_spawned c @ [(h, tx_Nonce txn)]"
    using CancelTx_Ok [OF assms(1,2)] assms(3,4) by auto
  obtain fee' tip' where f: "cancel_fees txn (tx_GasFeeCap txn, tip) = (fee', tip')"
    by (cases "cancel_fees txn (tx_GasFeeCap txn, tip)")
  note fees = cancel_fees_bump(1-3) [OF f assms(5)]
  from t f fees show ?thesis
    by (intro exI [of _ t]) (simp add: cancel_tx_def)
qed

theorem cancel_replaces_transaction_witness:
  "\<exists>c' t. CancelTx (example_evm 5) ''t1'' (Hash [4]) example_client = (Ok (Hash [4]), c') \<and>
     ec_log c' = ec_log example_client @ [t] \<and> tx_Nonce t = 4 \<and> tx_GasTipCap t = 33 \<and>
     tx_GasFeeCap t = 133"
proof -
  obtain c' where c': "CancelTx (example_evm 5) ''t1'' (Hash [4]) example_client = (Ok (Hash [4]), c')"
    by (simp add: CancelTx_def CancelTx_send_def suggestMaxFeeAndTipCap_def cancel_tx_def
        waitForTxn_def example_evm_def example_txn_def Let_def)
  have "TransactionByHash (example_evm 5) (Hash [4]) = Inr (example_txn, True)"
    "SuggestGasTipCap (example_evm 5) = Inr 30" "0 \<le> tx_GasTipCap example_txn"
    by (simp_all add: example_evm_def example_txn_def)
  from cancel_replaces_transaction [OF c' example_sign_ok this]
  obtain t where "ec_log c' = ec_log example_client @ [t]" "tx_Nonce t = tx_Nonce example_txn"
    "tx_GasTipCap t = max (tx_GasTipCap example_txn) 30 * 110 div 100"
    "tx_GasFeeCap t = tx_GasFeeCap example_txn + tx_GasTipCap t" by blast
  with c' show ?thesis by (simp add: example_txn_def)
qed

text \<open>
  C23: only a receipt removes a transaction from the pending ones. In particular one that
  the monitor reports as cancelled stays pending for ever, since no receipt of it will come.
\<close>

theorem pending_until_receipt:
  assumes "steps client_step c ls c'" and "h \<in> dom (sentTxs c)"
    and "\<And>r. CDone h (TxReceipt r) \<notin> set ls"
  shows "h \<in> dom (sentTxs c')"
  using assms by (rule sentTxs_steps)

definition example_cancelled :: evm_client where
  "example_cancelled =
     example_client\<lparr> sentTxs := [Hash [1] \<mapsto> \<lparr> td_nonce = 1, td_created = ''t1'' \<rparr>],
       ec_watching := [(Hash [1], 0)],
       monitor := newTxMonitor\<lparr> tm_chans := (\<lambda>_. answered (TxErr (Err_Sentinel ErrTxnCancelled))) \<rparr> \<rparr>"

theorem pending_until_receipt_witness:
  "Hash [1] \<in> dom (sentTxs (example_cancelled\<lparr> ec_watching := [] \<rparr>))"
proof (rule pending_until_receipt)
  have "client_step example_cancelled (CDone (Hash [1]) (TxErr (Err_Sentinel ErrTxnCancelled)))
      (example_cancelled\<lparr> ec_watching := remove1 (Hash [1], 0) (ec_watching example_cancelled) \<rparr>)"
    by (rule client_step.finish)
       (simp_all add: waitForTxn_done_err, simp_all add: example_cancelled_def)
  then show "steps client_step example_cancelled
      [CDone (Hash [1]) (TxErr (Err_Sentinel ErrTxnCancelled))]
      (example_cancelled\<lparr> ec_watching := [] \<rparr>)"
    by (simp add: steps_Cons_iff example_cancelled_def)
qed (simp_all add: example_cancelled_def)

text \<open>
  C24: the list of pending transactions is sorted by nonce, names each transaction once, and
  holds exactly those the client tracks, for every order in which the map is visited.
\<close>

theorem pending_list_correct:
  assumes "enumerates hs (dom (sentTxs c))"
  shows "sorted (map ti_Nonce (PendingTxns hs c)) \<and> distinct (map ti_Hash (PendingTxns hs c)) \<and>
    set (PendingTxns hs c) =
      {\<lparr> ti_Hash = h, ti_Nonce = td_nonce d, ti_Created = td_created d \<rparr> |h d. sentTxs c h = Some d}"
  using PendingTxns_sorted PendingTxns_distinct [OF assms] PendingTxns_set [OF assms] by blast

theorem pending_list_correct_witness:
  "sorted (map ti_Nonce (PendingTxns [Hash [1]] example_cancelled))"
  using pending_list_correct [of "[Hash [1]]" example_cancelled]
  by (simp add: enumerates_def example_cancelled_def)


section \<open>Handshake and connected peers\<close>

text \<open>
  C25: a peer that either side of the handshake returns is authentic. The request that was
  read (first by the responder, second by the initiator) is signed, over its peer type and
  token, by the key whose address belongs to the peer id it came from; the peer has that
  address and the request's type, and a provider was registered. The response that was read
  names this node's own address and peer type.
\<close>

theorem handshake_authenticates:
  assumes "k = (0 :: nat) \<and> fst (Handle h s peerID) = Ok p \<or> k = 1 \<and> fst (Handshake h peerID s) = Ok p"
  shows "\<exists>req resp. reads s k (st_req s) zero_req req \<and> reads s (1 - k) (st_resp s) zero_resp resp \<and>
    hs_signer_Verify h (bval (req_Sig req)) (string_bytes (req_PeerType req @ req_Token req)) =
      Ok (True, EthAddress p) \<and>
    getEthAddress h peerID = Inr (EthAddress p) \<and> Type p = FromString (req_PeerType req) \<and>
    (Type p = PeerTypeProvider \<longrightarrow> CheckProviderRegistered h (EthAddress p)) \<and>
    bval (resp_ObservedAddress resp) = addr_bytes (GetAddress (hs_ks h)) \<and>
    resp_PeerType resp = peer_type_String (hs_peerType h)"
  using assms
proof (elim disjE conjE)
  assume k: "k = 0" and "fst (Handle h s peerID) = Ok p"
  from this(2) show ?thesis
    by (rule Handle_authentic) (auto simp: k authentic_def verifyResp_Ok)
next
  assume k: "k = 1" and "fst (Handshake h peerID s) = Ok p"
  from this(2) show ?thesis
    by (rule Handshake_authentic) (auto simp: k authentic_def verifyResp_Ok)
qed

text \<open>A handshake of a bidder, the node 3, with a provider, the node 2.\<close>

abbreviation example_prov :: handshake_service where
  "example_prov \<equiv> example_handshake 2 PeerTypeProvider"

abbreviation example_bidr :: handshake_service where
  "example_bidr \<equiv> example_handshake 3 PeerTypeBidder"

lemma example_honest_nodes:
  "honest example_lib example_bidr example_addr 3" "honest example_lib example_prov example_addr 2"
  using example_honest [of 3 PeerTypeBidder] example_honest [of 2 PeerTypeProvider] by simp_all

definition example_hs_stream :: hs_stream where
  "example_hs_stream = carry (example_hs_wire example_bidr 3 example_prov 2)
     (initiator_frames (example_hs_wire example_bidr 3 example_prov 2) example_bidr example_prov (example_addr 2))"

lemma example_Handle:
  "fst (Handle (example_handshake 2 PeerTypeProvider) example_hs_stream 3) =
     Ok (peer_of (handshakeReq (example_handshake 3 PeerTypeBidder)) (example_addr 3))"
  using honest_handshake(3) [OF example_honest_nodes example_ecdsa_ok _ _ example_hs_wire]
  by (simp add: example_hs_stream_def example_handshake_def)

theorem handshake_authenticates_witness:
  "\<exists>p. fst (Handle example_prov example_hs_stream 3) = Ok p \<and> getEthAddress example_prov 3 = Inr (EthAddress p) \<and>
     (\<exists>resp. reads example_hs_stream 1 (st_resp example_hs_stream) zero_resp resp \<and>
        resp_PeerType resp = ''provider'')"
  using handshake_authenticates [OF disjI1 [OF conjI [OF refl example_Handle]]] example_Handle
  by (simp add: example_handshake_def) blast

text \<open>
  C26: two honest nodes that do not know each other yet connect. Run both sides of the
  handshake on the two ends of one stream, each on the frames the other has written so far:
  after three rounds nothing more is written, and the frames \<open>out\<close> and \<open>inn\<close> that were
  exchanged make \<open>Connect\<close> return the responder and \<open>handleConnectReq\<close> admit the initiator.
  Afterwards each registry has the other peer under its identity and its address, and the
  responder's topology has been told.
\<close>

theorem honest_nodes_connect:
  assumes "honest C g addr_of i" "honest C h addr_of j" "ecdsa_ok C" "inj addr_of"
    and "hs_peerType g = PeerTypeProvider \<Longrightarrow> CheckProviderRegistered h (addr_of i)"
    and "hs_peerType h = PeerTypeProvider \<Longrightarrow> CheckProviderRegistered g (addr_of j)"
    and "hs_wire_ok W" "marshals (hw_req W) (handshakeReq g)" "marshals (hw_req W) (handshakeReq h)"
    and "marshals (hw_resp W) (resp_to (handshakeReq g) (addr_of i))"
    and "marshals (hw_resp W) (resp_to (handshakeReq h) (addr_of j))"
    and "reach sv_start (sv_step g n) s" "getPeer j (peers (sv_service s)) = None"
    and "reach sv_start (sv_step h True) t" "getPeer i (peers (sv_service t)) = None"
    and "addrs \<noteq> []" "RemotePeer c = j" "RemotePeer d = i"
  shows "\<exists>out inn s' t'.
    (\<forall>k \<ge> 3. exchange (Handshake g j) (\<lambda>str. Handle h str i) W k = (out, inn)) \<and>
    p2p_Connect g (dial_net j addrs c (carry W inn)) now info (sv_service s) =
      (Ok (peer_of (handshakeReq h) (addr_of j)), s') \<and>
    handleConnectReq h True now' d (carry W out) (sv_service t) = (Ok (), t') \<and>
    knows j (peer_of (handshakeReq h) (addr_of j)) s' \<and>
    knows i (peer_of (handshakeReq g) (addr_of i)) t' \<and>
    NotifyConnected (peer_of (handshakeReq g) (addr_of i)) \<in> set (sv_effects t')"
proof -
  have "sv_inv g addr_of s" "sv_inv h addr_of t"
    using assms(12,14) by (auto intro: service.reach_inv)
  then have "peers_ok g addr_of (peers (sv_service s))" "peers_ok h addr_of (peers (sv_service t))"
    using addresses_ok_honest [OF assms(1,3,4)] addresses_ok_honest [OF assms(2,3,4)]
    by (simp_all add: sv_inv_def)
  from honest_services_connect [OF assms(1-11) this(1) assms(13) this(2) assms(15-18)]
  show ?thesis .
qed

definition example_sv_start :: sv_state where
  "example_sv_start = \<lparr> sv_service = new_p2p_service, sv_crashed = False \<rparr>"

lemma example_sv_start: "reach sv_start (sv_step h n) example_sv_start"
  by (rule reach_init) (simp add: sv_start_def example_sv_start_def)

theorem honest_nodes_connect_witness:
  "\<exists>W out inn s' t'. exchange (Handshake example_bidr 2) (\<lambda>str. Handle example_prov str 3) W 3 = (out, inn) \<and>
    p2p_Connect example_bidr
        (dial_net 2 [''ip''] \<lparr> conn_id = 0, RemotePeer = 2 \<rparr> (carry W inn)) 0 [] new_p2p_service =
      (Ok (peer_of (handshakeReq example_prov) (example_addr 2)), s') \<and>
    handleConnectReq example_prov True 0
        \<lparr> conn_id = 0, RemotePeer = 3 \<rparr> (carry W out) new_p2p_service = (Ok (), t') \<and>
    knows 2 (peer_of (handshakeReq example_prov) (example_addr 2)) s' \<and>
    knows 3 (peer_of (handshakeReq example_bidr) (example_addr 3)) t'"
proof -
  have reg: "hs_peerType example_bidr = PeerTypeProvider \<Longrightarrow> CheckProviderRegistered example_prov (example_addr 3)"
    "hs_peerType example_prov = PeerTypeProvider \<Longrightarrow> CheckProviderRegistered example_bidr (example_addr 2)"
    and new: "getPeer i (peers (sv_service example_sv_start)) = None" for i
    by (simp_all add: example_handshake_def example_sv_start_def new_p2p_service_def getPeer_def
        newPeerRegistry_def)
  have s: "sv_service example_sv_start = new_p2p_service" by (simp add: example_sv_start_def)
  from honest_nodes_connect [OF example_honest_nodes example_ecdsa_ok example_addr_inj reg
      example_hs_wire [of example_bidr 3 example_prov 2]
      example_sv_start [of _ True] new example_sv_start new, of "[''ip'']"
      "\<lparr> conn_id = 0, RemotePeer = 2 \<rparr>" "\<lparr> conn_id = 0, RemotePeer = 3 \<rparr>" 0 "[]" 0]
  show ?thesis unfolding s by simp blast
qed

text \<open>
  The signature covers the peer type and the token only as one string: a request stays
  valid when characters move between the two, and with a type other than \<open>provider\<close> the
  stake is not looked at.
\<close>

theorem request_split_not_signed:
  assumes "verifyReq h req peerID = Ok a" and "t @ k = req_PeerType req @ req_Token req"
    and "t \<noteq> ''provider''"
  shows "verifyReq (h\<lparr> CheckProviderRegistered := reg \<rparr>)
    (req\<lparr> req_PeerType := t, req_Token := k \<rparr>) peerID = Ok a"
  using assms by (simp add: verifyReq_Ok)

theorem request_split_not_signed_witness:
  "verifyReq ((example_handshake 3 PeerTypeProvider)\<lparr> CheckProviderRegistered := (\<lambda>_. False) \<rparr>)
     ((handshakeReq (example_handshake 3 PeerTypeProvider))
        \<lparr> req_PeerType := ''provide'', req_Token := ''rx'' \<rparr>) 3 = Ok (example_addr 3)"
proof (rule request_split_not_signed)
  have g: "honest example_lib (example_handshake 3 PeerTypeProvider) example_addr 3"
    using example_honest [of 3 PeerTypeProvider] by simp
  show "verifyReq (example_handshake 3 PeerTypeProvider)
      (handshakeReq (example_handshake 3 PeerTypeProvider)) 3 = Ok (example_addr 3)"
    by (rule verifyReq_honest [OF g g example_ecdsa_ok]) (simp add: example_handshake_def)
qed (simp_all add: example_handshake_def)

text \<open>
  C27: a node keeps its identity. When the node is started again, with whatever key the
  library would generate now, it loads the key of the first start, and the address of its p2p
  identity is the address it signs with. The p2p service fetches the key first and calls
  \<open>ZeroPrivateKey\<close> last, which for this signer leaves the key as it is.
\<close>

theorem node_keeps_identity:
  assumes "NewPrivateKeySigner K E path fs = (Ok s, fs')"
    and "later_start_ok E E' (pks_path s)" "fs'' (pks_path s) = fs' (pks_path s)"
    and "NewPrivateKeySigner K E' path fs'' = (Ok s', fs''')"
    and "he_GetPrivateKey HE = Inr (pks_privKey s')" "he_D HE (pks_privKey s') < 2 ^ 256"
    and "address_lib_ok C" "identity_lib_ok C L HE"
    and "p2p_New C L HE (pks_KeySigner C s') register opts = (Ok v, es)"
  shows "s' = s \<and> fs''' = fs'' \<and> hv_ethAddress v = GetAddress (pks_KeySigner C s) \<and>
    (\<exists>mid. es = KeyFetched # mid @ [ZeroKeyCalled]) \<and>
    pks_ZeroPrivateKey (pks_privKey s') = pks_privKey s"
proof -
  have "s' = s" "fs''' = fs''" using restart_keeps_key [where fs'' = fs'', OF assms(1,2)] assms(3,4) by simp_all
  moreover have "hv_ethAddress v = GetAddress (pks_KeySigner C s')"
    using assms(5,6) by (intro identity_is_key_address [OF assms(9,7,8)]) (simp add: pks_KeySigner_def)
  ultimately show ?thesis using p2p_New_key [OF assms(9,5)] by (simp add: pks_ZeroPrivateKey_def)
qed

definition example_keys :: "byte key_lib" where
  "example_keys =
     \<lparr> kl_encode = (\<lambda>k. [k]),
       kl_decode = (\<lambda>b. case b of [k] \<Rightarrow> Inr k | _ \<Rightarrow> Inl (Err_Lib ''invalid key'')) \<rparr>"

definition example_os :: "byte \<Rightarrow> byte key_env" where
  "example_os key =
     \<lparr> os_Home = Inr ''/root'', os_Stat = (\<lambda>_. None), os_Mkdir = (\<lambda>_. None),
       os_Read = (\<lambda>_. None), os_Write = (\<lambda>_. None), gen_key = Inr key \<rparr>"

definition example_host :: "byte \<Rightarrow> (byte, byte) host_env" where
  "example_host key =
     \<lparr> he_GetPrivateKey = Inr key, he_D = unat,
       he_Unmarshal = (\<lambda>b. if length b = 32 then Inr (last b) else Inl (Err_Lib ''length'')),
       he_ConnManager = None, he_Peerstore = None, he_StatsReporter = None,
       he_ResourceManager = None, he_NewMultiaddr = (\<lambda>_. None),
       he_New = (\<lambda>lk _ _. Inr (unat lk)) \<rparr>"

definition example_ids :: "byte id_lib" where
  "example_ids =
     \<lparr> ExtractPublicKey = (\<lambda>i. Inr [of_nat i]), DecompressPubkey = (\<lambda>b. Inr (hd b)) \<rparr>"

definition example_lib2 :: "(byte, byte) eth_lib" where
  "example_lib2 = example_lib
     \<lparr> from_ecdsa_pub := (\<lambda>p. [4, p]),
       pubkey_to_address := (\<lambda>p. Address (drop 12 (keccak256 example_lib [p]))) \<rparr>"

lemma example_pad: "PadKeyTo32Bytes 7 = replicate 31 0 @ [7]"
  by code_simp

lemma last_pad: "last (PadKeyTo32Bytes (unat (b :: byte))) = b"
proof (cases "unat b = 0")
  case True
  then have "b = 0" by (simp add: unat_eq_0)
  then show ?thesis by simp code_simp
next
  case False
  have "unat b div 256 = 0" using unsigned_less [of b, where ?'a = nat] by simp
  with False show ?thesis
    by (simp add: PadKeyTo32Bytes_def be_bytes.simps [of "unat b"] be_bytes.simps [of 0] Let_def)
qed

theorem node_keeps_identity_witness:
  "\<exists>v es. p2p_New example_lib2 example_ids (example_host 7)
      (pks_KeySigner example_lib2 \<lparr> pks_path = ''/root/.mev-commit/key'', pks_privKey = 7 \<rparr>) (\<lambda>_. True)
      \<lparr> ho_PeerType = PeerTypeBidder, ho_Secret = ''x'', ho_ListenPort = 13522, ho_ListenAddr = ''0.0.0.0'',
        ho_BootstrapAddrs = [], ho_NatAddr = [] \<rparr> = (Ok v, es) \<and>
    hv_ethAddress v =
      GetAddress (pks_KeySigner example_lib2 \<lparr> pks_path = ''/root/.mev-commit/key'', pks_privKey = 7 \<rparr>)"
proof -
  let ?path = "''~/.mev-commit/key''" and ?p = "''/root/.mev-commit/key''"
  let ?s = "\<lparr> pks_path = ?p, pks_privKey = 7 \<rparr> :: byte pk_signer"
  let ?fs = "[?p \<mapsto> [7]] :: files"
  let ?opts = "\<lparr> ho_PeerType = PeerTypeBidder, ho_Secret = ''x'', ho_ListenPort = 13522,
      ho_ListenAddr = ''0.0.0.0'', ho_BootstrapAddrs = [], ho_NatAddr = [] \<rparr>"
  have path: "resolveFilePath (example_os k) ?path = Ok ?p" for k
    unfolding resolveFilePath_def example_os_def by simp code_simp
  have start: "NewPrivateKeySigner example_keys (example_os 7) ?path Map.empty = (Ok ?s, ?fs)"
    using fresh_start [of example_keys "example_os 7" ?path ?p Map.empty 7] path
    by (simp add: key_lib_ok_def example_keys_def example_os_def)
  have later: "later_start_ok (example_os 7) (example_os 9) (pks_path ?s)"
    by (simp add: later_start_ok_def example_os_def)
  have again: "NewPrivateKeySigner example_keys (example_os 9) ?path ?fs = (Ok ?s, ?fs)"
    using restart_keeps_key [where fs'' = ?fs, OF start later] by simp
  have lib: "address_lib_ok example_lib2"
    by (simp add: address_lib_ok_def keccak_ok_def example_lib2_def example_lib_def min_def)
  have ids: "identity_lib_ok example_lib2 example_ids (example_host 7)"
    by (auto simp: identity_lib_ok_def example_host_def example_ids_def example_lib2_def
        example_lib_def last_pad)
  obtain v es where new: "p2p_New example_lib2 example_ids (example_host 7)
      (pks_KeySigner example_lib2 ?s) (\<lambda>_. True) ?opts = (Ok v, es)"
    by (simp add: p2p_New_def prepare_host_def example_host_def example_pad check_err_def
        nat_multiaddr_def start_service_def GetEthAddressFromPeerID_def example_ids_def
        GetEthAddressFromPubKey_def example_lib2_def example_lib_def handshake_New_def
        createSignature_def pks_KeySigner_def PrivateKeySigner_def Let_def)
  have key: "he_GetPrivateKey (example_host 7) = Inr (pks_privKey ?s)"
    "he_D (example_host 7) (pks_privKey ?s) < 2 ^ 256"
    by (simp_all add: example_host_def)
  from node_keeps_identity [where fs'' = ?fs, OF start later refl again key lib ids new] new
  show ?thesis by blast
qed

text \<open>
  C28: in every reachable state of the service, when peer ids and addresses correspond one
  to one, no disconnect has dereferenced a missing peer, every registered peer is authentic,
  and it is found under its address.
\<close>

theorem connected_peers_authentic:
  assumes "reach sv_start (sv_step h notif) s" and "addresses_ok h addr_of"
  shows "\<not> sv_crashed s \<and>
    (\<forall>i p. getPeer i (peers (sv_service s)) = Some p \<longrightarrow>
       (\<exists>req. authentic h i req p) \<and> getPeerID (EthAddress p) (peers (sv_service s)) = Some i)"
proof -
  have "sv_inv h addr_of s" using assms(1) by (rule service.reach_inv)
  with assms(2) have nc: "\<not> sv_crashed s" and ok: "peers_ok h addr_of (peers (sv_service s))"
    by (simp_all add: sv_inv_def)
  then have inv: "reg_inv addr_of (peers (sv_service s))" by (simp add: peers_ok_def)
  show ?thesis
    using nc ok reg_invD(1,2) [OF inv] by (auto simp: getPeer_def getPeerID_def peers_ok_def)
qed

definition example_sv :: sv_state where
  "example_sv = after (handleConnectReq (example_handshake 2 PeerTypeProvider) True 0
     \<lparr> conn_id = 0, RemotePeer = 3 \<rparr> example_hs_stream new_p2p_service)"

lemma example_sv_reach:
  "reach sv_start (sv_step (example_handshake 2 PeerTypeProvider) True) example_sv"
proof (rule reach_step)
  show "reach sv_start (sv_step (example_handshake 2 PeerTypeProvider) True) example_sv_start"
    by (rule example_sv_start)
  show "sv_step (example_handshake 2 PeerTypeProvider) True example_sv_start
      (SvIncoming \<lparr> conn_id = 0, RemotePeer = 3 \<rparr>) example_sv"
    using sv_step.incoming [of example_sv_start "example_handshake 2 PeerTypeProvider"
        example_hs_stream "\<lparr> conn_id = 0, RemotePeer = 3 \<rparr>" True 0]
    by (simp add: example_sv_start_def example_sv_def example_Handle)
qed

lemma example_sv_peer:
  "getPeer 3 (peers (sv_service example_sv)) =
     Some (peer_of (handshakeReq (example_handshake 3 PeerTypeBidder)) (example_addr 3))"
  by (simp add: example_sv_def after_def handleConnectReq_def example_Handle addPeer_def
      new_p2p_service_def newPeerRegistry_def getPeer_def Let_def)

theorem connected_peers_authentic_witness:
  "(\<exists>req. authentic (example_handshake 2 PeerTypeProvider) 3 req
      (peer_of (handshakeReq (example_handshake 3 PeerTypeBidder)) (example_addr 3)))"
proof -
  have "addresses_ok (example_handshake 2 PeerTypeProvider) example_addr"
    by (simp add: addresses_ok_def example_addr_inj) (simp add: example_handshake_def)
  from connected_peers_authentic [OF example_sv_reach this] example_sv_peer
  show ?thesis by blast
qed


text \<open>
  C29: refinement. Seen through its peers the service is a map of authenticated members:
  every reachable state of the four maps is a reachable state of the specification, where a
  peer joins when it is absent and authenticated, leaves when its last connection closes,
  and is never replaced.
\<close>

theorem registry_refines_membership:
  assumes "reach sv_start (sv_step h notif) s" and "addresses_ok h addr_of"
  shows "reach (\<lambda>m. m = Map.empty) (member_step h) (members s)"
proof -
  have "reach (\<lambda>s. addresses_ok h addr_of \<and> sv_start s) (sv_step h notif) s"
    using assms by (auto intro: reach_mono)
  then show ?thesis by (rule membership.sim_reach)
qed

theorem registry_refines_membership_witness:
  "reach (\<lambda>m. m = Map.empty) (member_step (example_handshake 2 PeerTypeProvider)) (members example_sv) \<and>
   members example_sv 3 \<noteq> None"
proof
  have "addresses_ok (example_handshake 2 PeerTypeProvider) example_addr"
    by (simp add: addresses_ok_def example_addr_inj) (simp add: example_handshake_def)
  with example_sv_reach
  show "reach (\<lambda>m. m = Map.empty) (member_step (example_handshake 2 PeerTypeProvider)) (members example_sv)"
    by (rule registry_refines_membership)
  show "members example_sv 3 \<noteq> None"
    using example_sv_peer by (simp add: members_def getPeer_def)
qed

text \<open>
  The registry relies on that correspondence. A second peer id with a registered
  address gets a connection entry without a peer, and closing that connection panics.
\<close>

theorem shared_address_panics:
  assumes "underlays r (EthAddress p) = Some j" and "connections r (RemotePeer c) = None"
    and "overlays r (RemotePeer c) = None"
  shows "fst (addPeer c p r) \<and> fst (Disconnected c (snd (addPeer c p r))) = Panic"
  using assms by (simp add: addPeer_def Disconnected_def Let_def)

theorem shared_address_panics_witness:
  "fst (Disconnected \<lparr> conn_id = 5, RemotePeer = 4 \<rparr>
     (snd (addPeer \<lparr> conn_id = 5, RemotePeer = 4 \<rparr>
        \<lparr> EthAddress = example_addr 3, Type = PeerTypeBidder \<rparr> (peers (sv_service example_sv))))) = Panic"
proof -
  have "underlays (peers (sv_service example_sv)) (example_addr 3) = Some 3"
    "connections (peers (sv_service example_sv)) 4 = None"
    "overlays (peers (sv_service example_sv)) 4 = None"
    by (simp_all add: example_sv_def after_def handleConnectReq_def example_Handle addPeer_def
        new_p2p_service_def newPeerRegistry_def peer_of_def Let_def)
  then show ?thesis
    by (intro conjunct2 [OF shared_address_panics [where j = 3]]) simp_all
qed

text \<open>
  C30: the topology holds authenticated peers only, under their address and type, providers
  with their stake checked, in every interleaving of handshakes, discovery, notifications
  and disconnections; and it misses no one: a registered provider or bidder is in it, or a
  goroutine is about to add it, or only the bootstrap loop has connected it.
\<close>

theorem topology_matches_registry:
  assumes "reach ov_start (ov_step h) s" and "addresses_ok h addr_of"
    and "enumerates ord (dom (topology_map ty (ov_topo s)))"
  shows "(\<forall>q \<in> set (GetPeers ty ord (ov_topo s)).
      Type q = ty \<and> (\<exists>i req. authentic h i req q) \<and>
      (ty = PeerTypeProvider \<longrightarrow> CheckProviderRegistered h (EthAddress q))) \<and>
    (\<forall>i p. getPeer i (peers (ov_service s)) = Some p \<and> Type p = ty \<and>
        ty \<in> {PeerTypeProvider, PeerTypeBidder} \<longrightarrow>
      p \<in> set (GetPeers ty ord (ov_topo s)) \<or> p \<in> task_peer ` set (ov_tasks s) \<or> p \<in> ov_boot s)"
proof (intro conjI ballI allI impI)
  fix q assume "q \<in> set (GetPeers ty ord (ov_topo s))"
  note q = GetPeers_authentic [OF assms this]
  show "Type q = ty" "\<exists>i req. authentic h i req q" using q by blast+
  show "CheckProviderRegistered h (EthAddress q)" if "ty = PeerTypeProvider" using q that by blast
next
  note D = ov_invD [OF overlay.reach_inv [OF assms(1)] assms(2)]
  fix i p assume p: "getPeer i (peers (ov_service s)) = Some p \<and> Type p = ty \<and>
    ty \<in> {PeerTypeProvider, PeerTypeBidder}"
  then have "\<not> missed s p" by (intro D(5) [of i]) (simp add: getPeer_def)
  with p show "p \<in> set (GetPeers ty ord (ov_topo s)) \<or> p \<in> task_peer ` set (ov_tasks s) \<or> p \<in> ov_boot s"
    by (auto simp: missed_def in_topo_def set_GetPeers [OF assms(3)] intro: ranI)
qed

definition example_conn :: conn where
  "example_conn = \<lparr> conn_id = 0, RemotePeer = 3 \<rparr>"

definition example_overlay :: overlay where
  "example_overlay =
     \<lparr> ov_service = sv_service example_sv,
       ov_topo = topology_add (peer_of (handshakeReq (example_handshake 3 PeerTypeBidder)) (example_addr 3))
         topology_New,
       ov_tasks = [], ov_boot = {} \<rparr>"

lemma example_overlay_start:
  "reach ov_start (ov_step h)
     \<lparr> ov_service = new_p2p_service, ov_topo = topology_New, ov_tasks = [], ov_boot = {} \<rparr>"
  by (rule reach_init) (simp add: ov_start_def)

lemma example_overlay_reach:
  "reach ov_start (ov_step (example_handshake 2 PeerTypeProvider)) example_overlay"
proof -
  let ?h = "example_handshake 2 PeerTypeProvider"
  let ?p = "peer_of (handshakeReq (example_handshake 3 PeerTypeBidder)) (example_addr 3)"
  let ?s = "\<lparr> ov_service = sv_service example_sv, ov_topo = topology_New,
    ov_tasks = [TConnected ?p], ov_boot = {} \<rparr>"
  have v: "handleConnectReq ?h True 0 example_conn example_hs_stream new_p2p_service =
      (Ok (), sv_service example_sv)"
    by (simp add: example_sv_def after_def example_conn_def handleConnectReq_def example_Handle
        addPeer_def new_p2p_service_def newPeerRegistry_def Let_def)
  have told: "notified_connected new_p2p_service (sv_service example_sv) = [?p]"
    by (simp add: example_sv_def after_def handleConnectReq_def example_Handle addPeer_def Let_def
        new_p2p_service_def newPeerRegistry_def notified_connected_def List.map_filter_simps)
  have "reach ov_start (ov_step ?h) ?s"
    using reach_step [OF example_overlay_start, OF ov_step.incoming, of ?h 0 example_conn example_hs_stream]
      v told by simp
  moreover have "ov_step ?h ?s (OvTask (TConnected ?p)) example_overlay"
    using ov_step.announce [of ?p ?s ?h] by (simp add: example_overlay_def)
  ultimately show ?thesis by (rule reach_step)
qed

lemma example_addresses_ok: "addresses_ok (example_handshake k pt) example_addr"
  by (simp add: addresses_ok_def example_addr_inj) (simp add: example_handshake_def)

theorem topology_matches_registry_witness:
  "peer_of (handshakeReq (example_handshake 3 PeerTypeBidder)) (example_addr 3)
     \<in> set (GetPeers PeerTypeBidder [example_addr 3] (ov_topo example_overlay))"
proof -
  let ?p = "peer_of (handshakeReq (example_handshake 3 PeerTypeBidder)) (example_addr 3)"
  have ty: "Type ?p = PeerTypeBidder" "EthAddress ?p = example_addr 3"
    by (simp_all add: peer_of_def) (simp add: example_handshake_def FromString_def)
  then have "enumerates [example_addr 3] (dom (topology_map PeerTypeBidder (ov_topo example_overlay)))"
    by (intro enumeratesI) (simp_all add: example_overlay_def topology_add_def topology_New_def)
  from topology_matches_registry [OF example_overlay_reach example_addresses_ok this]
    example_sv_peer ty show ?thesis by (simp add: example_overlay_def)
qed

text \<open>
  C31: bids go to authenticated providers that were staked when they connected. The node runs
  on a chain whose state changes in between, and checks providers with the registry contract in
  the state of the chain at their handshake. Whatever connections, announcements, discoveries
  and disconnections have happened, each provider that a bid is sent to, when \<open>SendBid\<close> takes
  the providers of the topology, has proved its address in a handshake that succeeds with the
  registry of some state the chain has gone through, and in this state it had at least the
  minimum stake. It need not have it any more when the bid is sent.
\<close>

theorem bids_go_to_staked_providers:
  assumes "reach chain_start (chain_step r h) (s, ws)" and "addresses_ok h addr_of"
    and "enumerates ord (dom (topology_map PeerTypeProvider (ov_topo s)))"
    and "SendBid S (GetPeers PeerTypeProvider ord (ov_topo s)) th amt bn ds de = Ok (b, ps)"
  shows "ps \<noteq> [] \<and> (\<forall>q \<in> set ps. Type q = PeerTypeProvider \<and>
    (\<exists>w \<in> set ws. staked r (EthAddress q) w \<and> (\<exists>i req. authentic (checked_by r h w) i req q)))"
proof -
  have "ps = GetPeers PeerTypeProvider ord (ov_topo s)" "ps \<noteq> []"
    using assms(4) by (auto simp: SendBid_def split: if_splits)
  then show ?thesis using GetPeers_staked [OF assms(1-3)] by auto
qed

text \<open>A registry whose chain tells whether anybody has the stake of 7, and a node on this chain.\<close>

definition example_registry :: "bool contract_client" where
  "example_registry =
     \<lparr> cc_abi = \<lparr> abi_Pack = (\<lambda>m args. Inr (string_bytes m)),
                  abi_Unpack = (\<lambda>m r. Inr [if m = ''minStake'' \<or> r = [1] then 7 else 0]) \<rparr>,
       cc_addr = example_address 9,
       cc_client =
         \<lparr> ei_Send = (\<lambda>req w. (Ok (Hash [1]), w)),
           ei_WaitForReceipt = (\<lambda>h w. (Ok \<lparr> rc_Status = ReceiptStatusSuccessful \<rparr>, w)),
           ei_Call = (\<lambda>req w. (Ok (if w then [1] else []), w)),
           ei_CancelTx = (\<lambda>h w. (Ok h, w)) \<rparr> \<rparr>"

lemma example_registry_staked: "staked example_registry a w \<longleftrightarrow> w"
  by (auto simp: staked_def GetMinStake_def GetStake_def view_call_def abind_def example_registry_def)

definition example_checked :: handshake_service where
  "example_checked = checked_by example_registry (example_handshake 2 PeerTypeBidder) True"

lemma example_checked_Handle:
  "\<exists>str. fst (Handle example_checked str (RemotePeer \<lparr> conn_id = 0, RemotePeer = 3 \<rparr>)) =
     Ok (peer_of (handshakeReq (example_handshake 3 PeerTypeProvider)) (example_addr 3))"
proof -
  let ?g = "example_handshake 3 PeerTypeProvider"
  have g: "honest example_lib ?g example_addr 3" using example_honest [of 3 PeerTypeProvider] by simp
  have "handshake_New example_lib (example_ks 2) PeerTypeBidder ''x'' (CheckProviderRegistered example_checked)
      (\<lambda>j. Inr (example_addr j)) = Ok example_checked"
    by (simp add: handshake_New_def createSignature_def example_handshake_def example_ks_def
        PrivateKeySigner_def example_lib_def example_checked_def checked_by_def Let_def)
  moreover have "pubkey_to_address example_lib (public_key example_lib 2) = example_addr 2"
    by (simp add: example_lib_def example_addr_def)
  ultimately have h: "honest example_lib example_checked example_addr 2"
    unfolding honest_def example_ks_def by blast
  have "CheckProviderRegistered example_checked a" for a
    by (simp add: example_checked_def checked_by_def provider_staked example_registry_staked)
  moreover have "CheckProviderRegistered ?g a" for a by (simp add: example_handshake_def)
  ultimately have "\<exists>str. fst (Handle example_checked str 3) = Ok (peer_of (handshakeReq ?g) (example_addr 3))"
    using honest_handshake(3) [OF g h example_ecdsa_ok _ _ example_hs_wire [of ?g 3 example_checked 2]]
    by (metis fst_conv)
  then show ?thesis by simp
qed

theorem bids_go_to_staked_providers_witness:
  "\<exists>(q :: peer) ws. set ws = {True, False} \<and> Type q = PeerTypeProvider \<and>
     \<not> staked example_registry (EthAddress q) (hd ws) \<and> (\<exists>w \<in> set ws. staked example_registry (EthAddress q) w)"
proof -
  let ?q = "peer_of (handshakeReq (example_handshake 3 PeerTypeProvider)) (example_addr 3)"
  let ?h = "example_handshake 2 PeerTypeBidder"
  have q: "Type ?q = PeerTypeProvider" "EthAddress ?q = example_addr 3"
    by (simp_all add: peer_of_def) (simp add: example_handshake_def FromString_def)
  obtain str where "fst (Handle example_checked str (RemotePeer \<lparr> conn_id = 0, RemotePeer = 3 \<rparr>)) = Ok ?q"
    using example_checked_Handle by blast
  then obtain s where s: "reach ov_start (ov_step example_checked) s" "ov_topo s = topology_add ?q topology_New"
    by (rule first_peer_announced)
  have "reach ov_start (ov_step (checked_by example_registry ?h True)) s"
    using s(1) by (simp add: example_checked_def)
  then have "reach chain_start (chain_step example_registry ?h) (s, [True])" by (rule chain_reach_node)
  then have run: "reach chain_start (chain_step example_registry ?h) (s, [False, True])"
    by (rule reach_step) (rule mined)
  have ord: "enumerates [example_addr 3] (dom (topology_map PeerTypeProvider (ov_topo s)))"
    using q by (intro enumeratesI) (simp_all add: s(2) topology_add_def topology_New_def)
  have "GetPeers PeerTypeProvider [example_addr 3] (ov_topo s) = [?q]"
    using q by (simp add: s(2) GetPeers_def List.map_filter_simps topology_add_def topology_New_def)
  then have "SendBid (example_signer 1) (GetPeers PeerTypeProvider [example_addr 3] (ov_topo s))
      ''0xab,0xcd'' ''10'' 5 1 2 = Ok (example_bid, [?q])"
    using example_construct by (simp add: SendBid_def)
  moreover have "addresses_ok ?h example_addr"
    by (simp add: addresses_ok_def example_addr_inj) (simp add: example_handshake_def)
  ultimately have "\<exists>w \<in> set [False, True]. staked example_registry (EthAddress ?q) w"
    using bids_go_to_staked_providers [OF run _ ord] by fastforce
  then show ?thesis using q by (intro exI [of _ ?q] exI [of _ "[False, True]"]) (auto simp: example_registry_staked)
qed

text \<open>
  A peer that has left can stay in the topology. When a provider or bidder disconnects
  between its registration and the notifier's call, the topology keeps it with nothing left
  to be done, and every stream to it fails because the peer is not found.
\<close>

theorem departed_peer_stays:
  fixes c :: conn
  assumes "reach ov_start (ov_step h) s" and "addresses_ok h addr_of"
    and "fst (Handle h str (RemotePeer c)) = Ok p" and "Type p \<in> {PeerTypeProvider, PeerTypeBidder}"
    and "getPeer (RemotePeer c) (peers (ov_service s)) = None"
  shows "\<exists>s'. reach ov_start (ov_step h) s' \<and> mset (ov_tasks s') = mset (ov_tasks s) \<and>
    topology_map (Type p) (ov_topo s') (EthAddress p) = Some p \<and>
    NewStream net p headers name version (ov_service s') =
      (Fail (Err_Sentinel ErrPeerNotFound), ov_service s')"
proof -
  obtain s' where "reach ov_start (ov_step h) s'" "in_topo p (ov_topo s')"
    "getPeerID (EthAddress p) (peers (ov_service s')) = None" "mset (ov_tasks s') = mset (ov_tasks s)"
    by (rule departed_stays [OF assms(1,2,3,5)])
  with assms(4) show ?thesis by (intro exI [of _ s']) (auto simp: in_topo_def NewStream_def)
qed

theorem departed_peer_stays_witness:
  "\<exists>s. reach ov_start (ov_step (example_handshake 2 PeerTypeProvider)) s \<and> ov_tasks s = [] \<and>
     bidders (ov_topo s) (example_addr 3) \<noteq> None"
proof -
  let ?h = "example_handshake 2 PeerTypeProvider"
  let ?p = "peer_of (handshakeReq (example_handshake 3 PeerTypeBidder)) (example_addr 3)"
  have ty: "Type ?p = PeerTypeBidder" "EthAddress ?p = example_addr 3"
    by (simp_all add: peer_of_def) (simp add: example_handshake_def FromString_def)
  have hs: "fst (Handle ?h example_hs_stream (RemotePeer example_conn)) = Ok ?p"
    by (simp add: example_conn_def example_Handle)
  have "getPeer (RemotePeer example_conn) (peers new_p2p_service) = None"
    by (simp add: getPeer_def new_p2p_service_def newPeerRegistry_def)
  with departed_peer_stays [OF example_overlay_start example_addresses_ok hs] ty
  show ?thesis by simp metis
qed

text \<open>
  C32: a round of the bootstrap loop, from any reachable state, ends without a panic, keeps
  the registry consistent and leaves every bootnode connected whose address resolves and
  which completes the handshake, whatever the other addresses do.
\<close>

theorem bootnodes_connected:
  assumes "reach sv_start (sv_step h notif) s" and "addresses_ok h addr_of"
    and "\<And>addr. addr \<in> set addrs \<Longrightarrow> dials_ok h (net addr)"
  shows "\<exists>s'. bootstrap_round L h net now addrs (sv_service s) = (Ok (), s') \<and>
    peers_ok h addr_of (peers s') \<and>
    (\<forall>addr \<in> set addrs. \<forall>i. answers_dial L h (net addr) addr i \<longrightarrow> connected i s')"
proof -
  have "sv_inv h addr_of s" using assms(1) by (rule service.reach_inv)
  with assms(2) have "peers_ok h addr_of (peers (sv_service s))" by (simp add: sv_inv_def)
  from bootstrap_round_all [where net = net and addrs = addrs, OF this assms(2,3)] show ?thesis by blast
qed

text \<open>The bootnode 3 answers the provider 2.\<close>

definition example_boot_stream :: hs_stream where
  "example_boot_stream =
     (let b = example_handshake 3 PeerTypeBootnode; W = example_hs_wire example_prov 2 b 3
      in carry W (responder_frames W example_prov b (example_addr 2)))"

lemma example_Handshake:
  "fst (Handshake (example_handshake 2 PeerTypeProvider) 3 example_boot_stream) =
     Ok (peer_of (handshakeReq (example_handshake 3 PeerTypeBootnode)) (example_addr 3))"
proof -
  let ?b = "example_handshake 3 PeerTypeBootnode"
  have b: "honest example_lib ?b example_addr 3" using example_honest [of 3 PeerTypeBootnode] by simp
  have "CheckProviderRegistered ?b a" "CheckProviderRegistered example_prov a" for a
    by (simp_all add: example_handshake_def)
  then show ?thesis
    using honest_handshake(2) [OF example_honest_nodes(2) b example_ecdsa_ok _ _
        example_hs_wire [of example_prov 2 ?b 3]]
    by (simp add: example_boot_stream_def Let_def)
qed

definition example_ma :: "string ma_lib" where
  "example_ma =
     \<lparr> NewMultiaddr = Inr, FirstCode = (\<lambda>m. if m = ''dns'' then P_DNSADDR else 4),
       Resolve = (\<lambda>m. Inr [''ip'']), Protocols = (\<lambda>m. [4, P_P2P]),
       ValueForProtocol = (\<lambda>m c. Inr ''id''), peer_Decode = (\<lambda>s. Inr 3),
       AddrInfoFromString = (\<lambda>s. Inl (Err_Lib ''invalid'')), MarshalJSON = (\<lambda>_. Inr [3]) \<rparr>"

definition example_dial :: "hs_stream \<Rightarrow> connect_net" where
  "example_dial str =
     \<lparr> cn_Unmarshal = (\<lambda>_. Inr (3, [''ip''])), cn_Connect = Inr (),
       cn_NewStream = Inr (\<lparr> conn_id = 0, RemotePeer = 3 \<rparr>, str) \<rparr>"

theorem bootnodes_connected_witness:
  "\<exists>now s'. bootstrap_round example_ma (example_handshake 2 PeerTypeProvider)
      (\<lambda>_. example_dial example_boot_stream) now [''bad'', ''dns'']
      new_p2p_service = (Ok (), s') \<and> connected 3 s'"
proof -
  let ?h = "example_handshake 2 PeerTypeProvider" and ?d = "example_dial example_boot_stream"
  have "reach sv_start (sv_step ?h True) example_sv_start" by (rule example_sv_start)
  moreover have "addresses_ok ?h example_addr"
    by (simp add: addresses_ok_def example_addr_inj) (simp add: example_handshake_def)
  moreover have "dials_ok ?h ?d" by (simp add: dials_ok_def example_dial_def example_Handshake)
  moreover have "answers_dial example_ma ?h ?d ''dns'' 3"
    by (simp add: answers_dial_def bootstrap_info_def getPeerIDFromMultiaddr_def example_ma_def
        example_dial_def example_Handshake P_P2P_def P_DNSADDR_def)
  ultimately show ?thesis
    using bootnodes_connected [of ?h True example_sv_start example_addr "[''bad'', ''dns'']" "\<lambda>_. ?d"
        example_ma "\<lambda>_. 0"]
    by (auto simp: example_sv_start_def)
qed

text \<open>
  C33: a peer whose handshake fails on its signature or its address is refused by the gater at
  every later time, in both directions, whatever peers are looked at or blocked in between, as
  long as no block with an end is put on this peer itself. The one way to such a block is a
  handshake of the same peer that was already under way: when it fails on the stake, its block
  replaces the one for ever, and the peer is let in again after two minutes.
\<close>

theorem forged_handshake_blocked_forever:
  assumes "fst (Handle h str (RemotePeer c)) = Fail err"
    and "errors_is err ErrSignatureVerificationFailed \<or> errors_is err ErrObservedAddressMismatch"
    and "s' = snd (handleConnectReq h notif now c str s)"
    and "\<forall>x \<in> set ops. fst x \<le> later"
  shows "((\<forall>t d why. (t, OpBlock (RemotePeer c) d why) \<in> set ops \<longrightarrow> d = 0) \<longrightarrow>
      fst (InterceptSecured True later (RemotePeer c) (block_ops ops (blockMap s'))) = False \<and>
      fst (InterceptPeerDial True later (RemotePeer c) (block_ops ops (blockMap s'))) = False) \<and>
    (\<forall>c' str' err' then'. RemotePeer c' = RemotePeer c \<longrightarrow>
      fst (Handle h str' (RemotePeer c)) = Fail err' \<longrightarrow> errors_is err' ErrInsufficientStake \<longrightarrow>
      \<not> errors_is err' ErrSignatureVerificationFailed \<longrightarrow> \<not> errors_is err' ErrObservedAddressMismatch \<longrightarrow>
      fst (InterceptSecured True later (RemotePeer c)
        (blockMap (snd (handleConnectReq h notif then' c' str' s')))) = (then' + 2 * minute < later))"
proof (intro conjI allI impI)
  have now: "fst (isBlocked later (RemotePeer c) (blockMap s'))"
    using assms by (simp add: handleConnectReq_blocks block_for_forever)
  assume own: "\<forall>t d why. (t, OpBlock (RemotePeer c) d why) \<in> set ops \<longrightarrow> d = 0"
  have "fst (isBlocked later (RemotePeer c) (block_ops ops (blockMap s')))"
    using now assms(4) own by (rule isBlocked_ops)
  then show "fst (InterceptSecured True later (RemotePeer c) (block_ops ops (blockMap s'))) = False"
    "fst (InterceptPeerDial True later (RemotePeer c) (block_ops ops (blockMap s'))) = False"
    by (auto simp: InterceptSecured_def InterceptPeerDial_def split: prod.split)
next
  fix c' :: conn and str' err' and then' :: int
  assume c': "RemotePeer c' = RemotePeer c" and run: "fst (Handle h str' (RemotePeer c)) = Fail err'"
    and err: "errors_is err' ErrInsufficientStake" "\<not> errors_is err' ErrSignatureVerificationFailed"
      "\<not> errors_is err' ErrObservedAddressMismatch"
  have "blockMap (snd (handleConnectReq h notif then' c' str' s')) =
      block_for then' (RemotePeer c) (2 * minute) err' (blockMap s')"
    using handleConnectReq_blocks(1) [of h str' c' err'] run c' by simp
  moreover have "0 < 2 * minute" by (simp add: minute_def)
  ultimately have "fst (isBlocked later (RemotePeer c)
      (blockMap (snd (handleConnectReq h notif then' c' str' s')))) \<longleftrightarrow> later \<le> then' + 2 * minute"
    using block_for_stake [OF err] by simp
  then show "fst (InterceptSecured True later (RemotePeer c)
      (blockMap (snd (handleConnectReq h notif then' c' str' s')))) = (then' + 2 * minute < later)"
    by (auto simp: InterceptSecured_def split: prod.split)
qed

lemma example_forged:
  "fst (Handle example_prov example_hs_stream (RemotePeer \<lparr> conn_id = 1, RemotePeer = 4 \<rparr>)) =
     Fail (Err_Sentinel ErrObservedAddressMismatch)"
proof -
  let ?W = "example_hs_wire example_bidr 3 example_prov 2"
  have "example_addr 4 \<noteq> example_addr 3" using injD [OF example_addr_inj, of 4 3] by auto
  then have v: "verifyReq example_prov (handshakeReq example_bidr) 4 = Fail (Err_Sentinel ErrObservedAddressMismatch)"
    using honestD [OF example_honest_nodes(1) example_ecdsa_ok] honestD [OF example_honest_nodes(2) example_ecdsa_ok]
    by (simp add: verifyReq_def addr_bytes_inj Let_def)
  have W: "proto_ok (hw_msg ?W)" "proto_ok (hw_req ?W)" "\<And>d. marshals (hw_msg ?W) (SmData d)"
    using example_hs_wire(1) [of example_bidr 3 example_prov 2] by (simp_all add: hs_wire_ok_def)
  have st: "st_req example_hs_stream = hw_req ?W" by (simp add: example_hs_stream_def carry_def)
  have "hs_read example_hs_stream (hw_req ?W) zero_req k =
      k (handshakeReq example_bidr) (example_hs_stream\<lparr> st_in := tl (st_in example_hs_stream) \<rparr>)"
    for k :: "handshake_req \<Rightarrow> hs_stream \<Rightarrow> peer outcome \<times> bytes list"
    by (rule hs_read_carry [OF _ _ W(1,2) example_hs_wire(2) W(3)])
       (simp_all add: example_hs_stream_def carry_def initiator_frames_def)
  then show ?thesis by (simp add: Handle_def st v)
qed

theorem forged_handshake_blocked_forever_witness:
  "fst (InterceptSecured True 10 4
     (block_ops [(5, OpLook 4), (6, OpBlock 3 1 ''x''), (7, OpBlock 4 0 ''y'')]
       (blockMap (snd (handleConnectReq (example_handshake 2 PeerTypeProvider) True 0
          \<lparr> conn_id = 1, RemotePeer = 4 \<rparr> example_hs_stream new_p2p_service))))) = False"
  using forged_handshake_blocked_forever [OF example_forged _ refl,
      of "[(5, OpLook 4), (6, OpBlock 3 1 ''x''), (7, OpBlock 4 0 ''y'')]" 10]
  by simp

text \<open>
  C34: the block list is right although it forgets. \<open>isBlocked\<close> deletes expired entries while it
  answers; over any sequence of blocks and looks at times that do not decrease, its answers are
  those of a list that keeps every block for ever, where the newest block of a peer decides:
  blocked until its end, for ever with duration zero.
\<close>

theorem block_list_equals_reference:
  assumes "sorted (map fst ops)"
  shows "run_blocks ops Map.empty = ref_blocks ops []"
  using assms by (rule run_blocks_new)

theorem block_list_equals_reference_witness:
  "run_blocks [(0, OpBlock 1 5 ''a''), (5, OpLook 1), (6, OpLook 1), (6, OpBlock 1 0 ''b''), (100, OpLook 1)]
     Map.empty = [True, False, True]"
  using block_list_equals_reference
    [of "[(0, OpBlock 1 5 ''a''), (5, OpLook 1), (6, OpLook 1), (6, OpBlock 1 0 ''b''), (100, OpLook 1)]"]
  by simp

text \<open>
  A stream opened under \<open>/name/version\<close> is served by a handler exactly when the names
  are equal, the major versions are equal and the handler's minor version is not older.
\<close>

theorem protocol_negotiation:
  assumes "CHR ''/'' \<notin> set n" "CHR ''/'' \<notin> set v"
    and "NewVersion v = Inr sv" "NewVersion w = Inr sw"
  shows "handler_matches NewVersion name w (streamID n v) \<longleftrightarrow>
    n = name \<and> Major sw = Major sv \<and> Minor sv \<le> Minor sw"
  using assms by (rule handler_matches_streamID)

theorem protocol_negotiation_witness:
  "handler_matches
     (\<lambda>v. if v = ''2.0.0'' then Inr \<lparr> Major = 2, Minor = 0 \<rparr> else Inr \<lparr> Major = 2, Minor = 1 \<rparr>)
     ''discovery'' ''2.1.0'' (streamID ''discovery'' ''2.0.0'') \<longleftrightarrow>
   ''discovery'' = ''discovery'' \<and> Major \<lparr> Major = 2, Minor = 1 \<rparr> = Major \<lparr> Major = 2, Minor = 0 \<rparr> \<and>
   Minor \<lparr> Major = 2, Minor = 0 \<rparr> \<le> Minor \<lparr> Major = 2, Minor = 1 \<rparr>"
  by (rule protocol_negotiation) simp_all

section \<open>Topology and discovery\<close>

text \<open>
  C35: peers connect at the same time and in any order, discovery adds peers and others leave
  meanwhile: once the goroutines of a bidder and a provider that have not left have ended, the
  bidder has been told of the provider, if the addressbook knows its underlay; and whatever is
  sent announces providers with the underlay of the addressbook.
\<close>

theorem every_bidder_told_of_every_provider:
  assumes "reach an_start (an_step book) s" and "present q s" "present b s"
    and "Type q = PeerTypeProvider" "Type b = PeerTypeBidder" "EthAddress q \<noteq> EthAddress b"
    and "book q = Inr u" and "\<And>ph. (q, ph) \<notin> set (an_tasks s)" "\<And>ph. (b, ph) \<notin> set (an_tasks s)"
  shows "told (an_sent s) (EthAddress b) q u \<and> (\<forall>m \<in> set (an_sent s). broadcast_ok book m)"
  using all_told [OF assms] sent_ok [OF assms(1)] by simp

definition example_prov_peer :: peer where
  "example_prov_peer = \<lparr> EthAddress = example_address 2, Type = PeerTypeProvider \<rparr>"

definition example_announced :: announce where
  "example_announced =
     \<lparr> an_topo = topology_add example_prov_peer (topology_add example_bidder topology_New), an_tasks = [],
       an_sent = [(example_bidder, [info_of example_prov_peer [7]]),
                  (example_bidder, [info_of example_prov_peer [7]])],
       an_started = {example_prov_peer, example_bidder}, an_left = {} \<rparr>"

lemma example_announced_reach: "reach an_start (an_step (\<lambda>_. Inr [7])) example_announced"
proof -
  let ?S = "an_step (\<lambda>_. Inr [7 :: byte])" and ?b = example_bidder and ?q = example_prov_peer
  let ?t1 = "topology_add ?b topology_New" and ?m = "(?b, [info_of ?q [7]])"
  let ?t2 = "topology_add ?q ?t1"
  have ne: "?q \<noteq> ?b" "EthAddress ?q = example_address 2" "EthAddress ?b = example_address 1"
    "Type ?q = PeerTypeProvider" "Type ?b = PeerTypeBidder" "example_address 2 \<noteq> example_address 1"
    by (simp_all add: example_prov_peer_def example_bidder_def example_address_def)
  have po: "enumerates [example_address 2] (dom (providers ?t2))" and bo: "enumerates [example_address 1] (dom (bidders ?t2))"
    using ne by (auto simp: enumerates_def topology_add_def topology_New_def)
  have get: "GetPeers PeerTypeProvider [example_address 2] ?t2 = [?q]"
    "GetPeers PeerTypeBidder [example_address 1] ?t2 = [?b]"
    using ne by (simp_all add: GetPeers_def List.map_filter_simps topology_add_def topology_New_def)
  have "reach an_start ?S \<lparr> an_topo = topology_New, an_tasks = [], an_sent = [], an_started = {}, an_left = {} \<rparr>"
    by (rule reach_init) (simp add: an_start_def)
  from reach_step [OF this an_step.arrive [of _ _ ?b]]
  have "reach an_start ?S \<lparr> an_topo = topology_New, an_tasks = [(?b, PAdd)], an_sent = [],
    an_started = {?b}, an_left = {} \<rparr>" by simp
  from reach_step [OF this an_step.arrive [of _ _ ?q]]
  have "reach an_start ?S \<lparr> an_topo = topology_New, an_tasks = [(?b, PAdd), (?q, PAdd)], an_sent = [],
    an_started = {?q, ?b}, an_left = {} \<rparr>" by simp
  from reach_step [OF this an_step.add [of ?b]]
  have "reach an_start ?S \<lparr> an_topo = ?t1, an_tasks = [(?b, PProviders), (?q, PAdd)], an_sent = [],
    an_started = {?q, ?b}, an_left = {} \<rparr>" by (simp add: advance_def)
  from reach_step [OF this an_step.add [of ?q]]
  have "reach an_start ?S \<lparr> an_topo = ?t2, an_tasks = [(?q, PProviders), (?b, PProviders)], an_sent = [],
    an_started = {?q, ?b}, an_left = {} \<rparr>" using ne by (simp add: advance_def)
  from reach_step [OF this an_step.tell_peer [of ?b _ "[example_address 2]"]]
  have "reach an_start ?S \<lparr> an_topo = ?t2, an_tasks = [(?b, PBidders), (?q, PProviders)], an_sent = [?m],
    an_started = {?q, ?b}, an_left = {} \<rparr>"
    using ne po get by (simp add: advance_def to_peer_def known_underlays_def List.map_filter_simps)
  from reach_step [OF this an_step.tell_peer [of ?q _ "[example_address 2]"]]
  have "reach an_start ?S \<lparr> an_topo = ?t2, an_tasks = [(?q, PBidders), (?b, PBidders)], an_sent = [?m],
    an_started = {?q, ?b}, an_left = {} \<rparr>"
    using ne po get by (simp add: advance_def to_peer_def known_underlays_def List.map_filter_simps)
  from reach_step [OF this an_step.tell_bidders [of ?q _ "[example_address 1]"]]
  have "reach an_start ?S \<lparr> an_topo = ?t2, an_tasks = [(?b, PBidders)], an_sent = [?m, ?m],
    an_started = {?q, ?b}, an_left = {} \<rparr>"
    using ne bo get by (simp add: advance_def to_bidders_def)
  from reach_step [OF this an_step.tell_bidders [of ?b _ "[example_address 1]"]]
  show ?thesis using ne bo get by (simp add: advance_def to_bidders_def example_announced_def)
qed

theorem every_bidder_told_of_every_provider_witness:
  "told (an_sent example_announced) (EthAddress example_bidder) example_prov_peer [7]"
  by (rule conjunct1, rule every_bidder_told_of_every_provider [OF example_announced_reach])
     (simp_all add: example_announced_def present_def example_prov_peer_def example_bidder_def
        example_address_def)

text \<open>
  A broadcast names only providers that are in the topology, with their known underlay,
  and never tells a peer about itself.
\<close>

theorem broadcasts_name_other_providers:
  assumes "orders_fit po bo p t" "topo_wf t"
    and "(d, is) \<in> set (snd (Connected book ann po bo p t))" "i \<in> set is"
    and "\<not> IsConnected (EthAddress p) t"
  shows "pi_EthAddress i \<noteq> EthAddress d \<and> ann \<and>
    (\<exists>q. providers (topology_add p t) (pi_EthAddress i) = Some q \<and> book q = Inr (pi_Underlay i))"
  using assms by (rule Connected_broadcasts)

theorem broadcasts_name_other_providers_witness:
  "pi_EthAddress (info_of example_prov_peer [7]) \<noteq> EthAddress example_bidder"
proof -
  let ?t = "topology_add example_prov_peer topology_New"
  have p: "providers ?t = [example_address 2 \<mapsto> example_prov_peer]" "bidders ?t = Map.empty"
    by (simp_all add: topology_add_def topology_New_def example_prov_peer_def)
  have b: "topology_add example_bidder ?t =
      ?t\<lparr> bidders := [example_address 1 \<mapsto> example_bidder], ConnectedBiddersCount := ConnectedBiddersCount ?t + 1 \<rparr>"
    unfolding topology_add_def [of example_bidder] using p by (simp add: example_bidder_def)
  have ne: "example_address 2 \<noteq> example_address 1" by (simp add: example_address_def)
  have "(example_bidder, [info_of example_prov_peer [7]]) \<in>
      set (snd (Connected (\<lambda>_. Inr [7]) True [example_address 2] [example_address 1] example_bidder ?t))"
    using ne
    by (simp add: in_Connected in_to_peer b p GetPeers_def List.map_filter_simps known_underlays_def)
       (simp add: example_bidder_def example_prov_peer_def)
  then have "pi_EthAddress (info_of example_prov_peer [7]) \<noteq> EthAddress example_bidder \<and> True \<and>
      (\<exists>q. providers (topology_add example_bidder ?t) (pi_EthAddress (info_of example_prov_peer [7])) = Some q \<and>
           (\<lambda>_. Inr [7] :: go_error + bytes) q = Inr (pi_Underlay (info_of example_prov_peer [7])))"
  proof (rule broadcasts_name_other_providers [rotated 2])
    show "orders_fit [example_address 2] [example_address 1] example_bidder ?t"
      by (simp add: orders_fit_def b p enumerates_def)
    show "\<not> IsConnected (EthAddress example_bidder) ?t"
      using ne by (simp add: IsConnected_def p example_bidder_def)
  qed (simp_all add: topo_wf_add topo_wf_New)
  then show ?thesis by blast
qed

text \<open>
  C36: the check loop never runs more than ten connections at once, and every peer it took
  is waiting, running or finished: none is lost and none is tried twice.
\<close>

theorem discovery_pool_bounded:
  assumes "reach disc_start disc_step s"
  shows "length (ds_running s) \<le> 10 \<and>
    mset (ds_taken s) = mset (ds_done s) + mset (ds_running s) +
      (case ds_waiting s of None \<Rightarrow> {#} | Some p \<Rightarrow> {#p#})"
  using disc.reach_inv [OF assms] by (simp add: disc_inv_def checkWorkers_def)

text \<open>Ten workers run, one has finished, and the loop holds a twelfth peer.\<close>

definition example_entry :: "nat \<Rightarrow> pb_peer_info" where
  "example_entry n = \<lparr> ppi_EthAddress = Some [of_nat n], ppi_Underlay = None \<rparr>"

definition example_pool :: disc_state where
  "example_pool =
     (let es = map example_entry [0..<10];
          s1 = filled es \<lparr> ds_topo = topology_New, ds_waiting = None, ds_running = [], ds_sem = checkWorkers,
             ds_quit = False, ds_taken = [], ds_done = [] \<rparr>;
          s2 = filled [example_entry 10] (worker_done (Inl (Err_Lib ''dial'')) (example_entry 3) s1)
      in s2\<lparr> ds_waiting := Some (example_entry 11), ds_taken := ds_taken s2 @ [example_entry 11] \<rparr>)"

lemma example_pool_reach: "reach disc_start disc_step example_pool"
proof -
  let ?s0 = "\<lparr> ds_topo = topology_New, ds_waiting = None, ds_running = [], ds_sem = checkWorkers,
    ds_quit = False, ds_taken = [], ds_done = [] \<rparr>"
  let ?s1 = "filled (map example_entry [0..<10]) ?s0"
  let ?t = "worker_done (Inl (Err_Lib ''dial'')) (example_entry 3) ?s1"
  let ?s2 = "filled [example_entry 10] ?t"
  have "reach disc_start disc_step ?s0" by (rule reach_init) (simp add: disc_start_def)
  then have "reach disc_start disc_step ?s1" by (rule disc_fill) (simp_all add: checkWorkers_def)
  moreover have "disc_step ?s1 (DDone (example_entry 3)) ?t" by (rule worker) (simp add: filled_def)
  ultimately have "reach disc_start disc_step ?t" by (rule reach_step)
  then have "reach disc_start disc_step ?s2" by (rule disc_fill) (simp_all add: filled_def worker_done_def)
  moreover have "disc_step ?s2 (DTake (example_entry 11))
      (?s2\<lparr> ds_waiting := Some (example_entry 11), ds_taken := ds_taken ?s2 @ [example_entry 11] \<rparr>)"
    by (rule take_peer) (simp_all add: filled_def worker_done_def)
  ultimately show ?thesis unfolding example_pool_def Let_def by (rule reach_step)
qed

theorem discovery_pool_bounded_witness:
  "length (ds_taken example_pool) = 12 \<and> length (ds_running example_pool) = 10 \<and>
   ds_waiting example_pool = Some (example_entry 11) \<and> ds_done example_pool = [example_entry 3]"
proof -
  have d: "ds_done example_pool = [example_entry 3]" "ds_waiting example_pool = Some (example_entry 11)"
    "length (ds_taken example_pool) = 12"
    by (simp_all add: example_pool_def filled_def worker_done_def Let_def)
  from discovery_pool_bounded [OF example_pool_reach] d(1,2)
  have "mset (ds_taken example_pool) = {#example_entry 3#} + mset (ds_running example_pool) + {#example_entry 11#}"
    by simp
  from arg_cong [OF this, of size] d show ?thesis by simp
qed

section \<open>Messages\<close>

text \<open>
  C37: what is read from a stream is what was written. A message comes back as the same
  message. An error with a code other than 0 comes back as an error with its code and its
  text; one with the code 0 is lost: the reader gets an empty message and no error.
\<close>

theorem stream_round_trip:
  assumes "proto_ok PS" "proto_ok PM"
    and "snd (stream_WriteMsg PS PM rw m) = Some buf" "snd (WriteError PS rw' st) = Some buf'"
  shows "stream_ReadMsg PS PM zero (Answered (Inr buf)) = Ok m \<and>
    stream_ReadMsg PS PM zero (Answered (Inr buf')) =
      (if rs_Code st = 0 then Ok zero else Fail (Err_Rpc (rs_Code st) (rs_Message st)))"
  by (intro conjI message_roundtrip [OF assms(1-3)] error_roundtrip [OF assms(1,4)])

text \<open>A small encoder: a tag byte, then the data, or the code in unary and the text.\<close>

fun example_encode :: "stream_msg \<Rightarrow> bytes" where
  "example_encode (SmData d) = 1 # d"
| "example_encode (SmError st) =
     2 # replicate (rs_Code st) 1 @ 0 # string_bytes (rs_Message st)"
| "example_encode SmEmpty = []"

definition example_decode :: "bytes \<Rightarrow> go_error + stream_msg" where
  "example_decode b =
     (case b of
        [] \<Rightarrow> Inr SmEmpty
      | t # d \<Rightarrow>
          if t = 1 then Inr (SmData d)
          else Inr (SmError \<lparr> rs_Code = length (takeWhile (\<lambda>x. x = 1) d),
                 rs_Message = map (\<lambda>x. char_of (unat x)) (tl (dropWhile (\<lambda>x. x = 1) d)) \<rparr>))"

lemma example_text: "map (\<lambda>x. char_of (unat x)) (string_bytes s) = s"
proof (induction s)
  case (Cons c s)
  then show ?case using char_code_less [of c] by (simp add: string_bytes_def unat_of_nat)
qed (simp add: string_bytes_def)

definition example_proto :: "stream_msg proto" where
  "example_proto = \<lparr> Marshal = (\<lambda>m. Inr (example_encode m)), Unmarshal = example_decode \<rparr>"

lemma example_proto_ok: "proto_ok example_proto"
proof -
  have tw: "takeWhile (\<lambda>x. x = 1) (replicate n 1 @ 0 # xs) = replicate n (1 :: byte)"
    "dropWhile (\<lambda>x. x = 1) (replicate n 1 @ 0 # xs) = (0 :: byte) # xs" for n xs
    by (induction n) auto
  have "example_decode (example_encode m) = Inr m" for m
    by (cases m) (simp_all add: example_decode_def tw example_text)
  then show ?thesis by (auto simp: proto_ok_def example_proto_def)
qed

definition id_proto :: "bytes proto" where
  "id_proto = \<lparr> Marshal = Inr, Unmarshal = Inr \<rparr>"

theorem stream_round_trip_witness:
  "stream_ReadMsg example_proto id_proto [] (Answered (Inr [1, 5, 6])) = Ok [5, 6] \<and>
   stream_ReadMsg example_proto id_proto [] (Answered (Inr [2, 1, 0, 97])) =
     Fail (Err_Rpc 1 ''a'')"
proof -
  have "proto_ok id_proto" by (simp add: proto_ok_def id_proto_def)
  moreover have "snd (stream_WriteMsg example_proto id_proto (\<lambda>_. Answered None) [5, 6]) = Some [1, 5, 6]"
    by (simp add: stream_WriteMsg_def write_frame_def example_proto_def id_proto_def)
  moreover have "snd (WriteError example_proto (\<lambda>_. Answered None) \<lparr> rs_Code = 1, rs_Message = ''a'' \<rparr>) =
      Some [2, 1, 0, 97]"
    by (simp add: WriteError_def write_frame_def example_proto_def string_bytes_def)
  ultimately show ?thesis
    using stream_round_trip [OF example_proto_ok, where zero = "[]" and PM = id_proto] by fastforce
qed

text \<open>
  The transactions of a bid survive the trip. The bidder's service joins the hashes,
  the provider's client gets the same list, and so does the bidder in the commitment.
\<close>

theorem transaction_hashes_survive:
  assumes "hashes_ok hs" and "TxHash b = join_with '','' hs"
  shows "pb_TxHashes (to_prov_bid b) = hs \<and> rc_TxHashes (rpc_commitment_of pc b) = hs"
  using assms by (simp add: to_prov_bid_def rpc_commitment_of_def split_joined)

theorem transaction_hashes_survive_witness:
  "pb_TxHashes (to_prov_bid example_bid) = [''0xab'', ''0xcd''] \<and>
   rc_TxHashes (rpc_commitment_of example_pc example_bid) = [''0xab'', ''0xcd'']"
  by (rule transaction_hashes_survive) (simp_all add: hashes_ok_def example_bid_def)

section \<open>The node\<close>

text \<open>
  C38: what a node starts and closes. A node that started holds everything it started, in
  order, except the connection to the chain, the RPC server and its own connection to that
  server, and has closed nothing; \<open>Close\<close> closes each of what it holds once, in this order,
  and reports an error exactly when one of them fails. A start that fails has closed all it
  started except those three, unless the p2p service, the TLS files, the validator or the
  connection to its own server failed. Nothing ever closes one of the three.
\<close>

theorem node_lifecycle:
  assumes "NewNode E opts = (res, es)"
  shows "((\<exists>closers. res = Ok closers \<and>
            closers = filter (\<lambda>r. r \<notin> {EthClientR, GrpcServerR, GrpcConnR}) (started es) \<and>
            closed es = [] \<and> closed (snd (node_Close E closers)) = closers \<and>
            (fst (node_Close E closers) = None \<longleftrightarrow> (\<forall>c \<in> set closers. ne_Close E c = None))) \<or>
         (\<exists>err. res = Fail err \<and> (leak_free E opts \<longrightarrow>
            closed es = filter (\<lambda>r. r \<notin> {EthClientR, GrpcServerR, GrpcConnR}) (started es)))) \<and>
    set (closed es) \<inter> {EthClientR, GrpcServerR, GrpcConnR} = {}"
proof -
  have kept: "to_close es = filter (\<lambda>r. r \<notin> {EthClientR, GrpcServerR, GrpcConnR}) (started es)"
    unfolding to_close_def by (rule filter_cong [OF refl]) (rule never_closed_iff)
  have left: "set (closed es) \<inter> {EthClientR, GrpcServerR, GrpcConnR} = {}"
    using NewNode_closed(2) [OF assms] by (auto simp: never_closed_iff)
  show ?thesis
  proof (cases res)
    case (Ok closers)
    with assms have run: "NewNode E opts = (Ok closers, es)" by simp
    obtain err es' where "node_Close E closers = (err, es')" by (cases "node_Close E closers")
    with node_Close_all(1,2) [OF this] NewNode_Ok(1,2) [OF run] Ok left show ?thesis
      unfolding kept by simp
  next
    case (Fail err)
    with assms have "leak_free E opts \<longrightarrow> closed es = to_close es" by (auto intro: NewNode_Fail)
    with Fail left show ?thesis unfolding kept by simp
  next
    case Panic
    with assms NewNode_not_Panic [of E opts] show ?thesis by simp
  qed
qed

definition example_node_env :: node_env where
  "example_node_env =
     \<lparr> ne_DialRPC = None, ne_NewEvm = None, ne_NewP2p = None, ne_Listen = None, ne_LoadTLS = None,
       ne_NewValidator = None, ne_DialGrpc = (\<lambda>k. if k = 2 then None else Some (Err_Lib ''tls'')),
       ne_RegisterHandler = None,
       ne_Close = (\<lambda>r. if r = ListenerR then Some (Err_Lib ''closed'') else None) \<rparr>"

theorem node_lifecycle_witness:
  "\<exists>es. NewNode example_node_env \<lparr> no_PeerType = ''provider'', no_TLSCert = [], no_TLSKey = [] \<rparr> =
      (Ok [EvmClientR, P2pR, DiscoveryR, ListenerR, HttpServerR], es) \<and>
     started es = [EthClientR, EvmClientR, P2pR, DiscoveryR, ListenerR, GrpcServerR, GrpcConnR, HttpServerR] \<and>
     closed es = [] \<and>
     fst (node_Close example_node_env [EvmClientR, P2pR, DiscoveryR, ListenerR, HttpServerR]) \<noteq> None"
proof -
  let ?opts = "\<lparr> no_PeerType = ''provider'', no_TLSCert = [], no_TLSKey = [] \<rparr>"
  let ?cs = "[EvmClientR, P2pR, DiscoveryR, ListenerR, HttpServerR]"
  obtain es where run: "NewNode example_node_env ?opts = (Ok ?cs, es)"
    and st: "started es = [EthClientR, EvmClientR, P2pR, DiscoveryR, ListenerR, GrpcServerR, GrpcConnR, HttpServerR]"
    by (simp add: NewNode_def start_rpc_def start_gateway_def start_http_def dial_grpc_def
        trace_def example_node_env_def)
  moreover have "\<not> (\<forall>c \<in> set ?cs. ne_Close example_node_env c = None)"
    by (simp add: example_node_env_def)
  ultimately show ?thesis using node_lifecycle [OF run] by (intro exI [of _ es]) auto
qed

text \<open>
  C39: the option checks and the code that uses the options. When the actions of the flags
  passed, the peer type is one of the three names; the ports of the p2p, the HTTP and the RPC
  server are between 0 and 65535; and the logger is made for exactly the tags that the check
  of \<open>log-tags\<close> accepts and for no tags at all, which that check would refuse. The port of the
  external address has no check: the actions pass with any value of \<open>nat-port\<close>.
\<close>

theorem checked_options_agree:
  assumes "run_actions (cli_flags addrs) c = Ok ()" "cli_typed (cli_flags addrs) c"
    and "\<And>l. l \<in> set log_level_opts \<Longrightarrow> levelOk l = None"
  shows "opt_string (cli_flags addrs) c ''peer-type'' \<in> {''bidder'', ''provider'', ''bootnode''} \<and>
    peer_type_String (FromString (opt_string (cli_flags addrs) c ''peer-type'')) =
      opt_string (cli_flags addrs) c ''peer-type'' \<and>
    (\<forall>port \<in> {''p2p-port'', ''http-port'', ''rpc-port''}.
       0 \<le> opt_int (cli_flags addrs) c port \<and> opt_int (cli_flags addrs) c port \<le> 65535) \<and>
    (ok (NewLogger levelOk utf8 (opt_string (cli_flags addrs) c ''log-level'')
           (opt_string (cli_flags addrs) c ''log-fmt'') tags) \<longleftrightarrow>
       tags = [] \<or> ok (logTagsCheck tags)) \<and> \<not> ok (logTagsCheck []) \<and>
    (\<forall>v. run_actions (cli_flags addrs) (c(''nat-port'' \<mapsto> v)) = Ok ())"
proof -
  note checked = checked_options [OF assms(1,2)] checked_ports [OF assms(1,2)]
  have types: "opt_string (cli_flags addrs) c ''peer-type'' \<in> {''bidder'', ''provider'', ''bootnode''}"
    using checked(1) by (simp add: peer_type_opts_def)
  then have "peer_type_String (FromString (opt_string (cli_flags addrs) c ''peer-type'')) =
      opt_string (cli_flags addrs) c ''peer-type''"
    by (auto simp: FromString_def)
  moreover have "ok (NewLogger levelOk utf8 (opt_string (cli_flags addrs) c ''log-level'')
      (opt_string (cli_flags addrs) c ''log-fmt'') tags) \<longleftrightarrow> tags = [] \<or> ok (logTagsCheck tags)"
    using checked(2,3) assms(3)
    by (intro NewLogger_checked) (auto simp: stringInCheck_Ok log_fmt_opts_def ok_iff)
  moreover have "\<not> ok (logTagsCheck [])" by code_simp
  ultimately show ?thesis
    using types checked(5-7) assms(1) by (simp add: portCheck_Ok nat_port_unchecked)
qed

theorem checked_options_agree_witness:
  "ok (NewLogger (\<lambda>_. None) id ''debug'' ''text'' ''a:b'') \<and>
   \<not> ok (NewLogger (\<lambda>_. None) id ''debug'' ''text'' ''a:b:c'')"
proof -
  let ?addrs = "\<lparr> tc_BidderRegistry = [], tc_ProviderRegistry = [], tc_PreconfCommitmentStore = [] \<rparr>"
  let ?c = "[''log-level'' \<mapsto> VStr ''debug'']"
  have run: "run_actions (cli_flags ?addrs) ?c = Ok ()"
    by (simp add: cli_flags_def flag_def stringInCheck_Ok log_level_opts_def)
  have typed: "cli_typed (cli_flags ?addrs) ?c"
    by (simp add: cli_typed_def cli_flags_def flag_def)
  have opts: "opt_string (cli_flags ?addrs) ?c ''log-level'' = ''debug''"
    "opt_string (cli_flags ?addrs) ?c ''log-fmt'' = ''text''"
    by (simp_all add: opt_string_def cli_flags_def flag_def)
  have tags: "ok (logTagsCheck ''a:b'')" "\<not> ok (logTagsCheck ''a:b:c'')"
    by code_simp+
  from checked_options_agree [OF run typed, of "\<lambda>_. None" id "''a:b''"]
    checked_options_agree [OF run typed, of "\<lambda>_. None" id "''a:b:c''"] opts tags
  show ?thesis by simp
qed

text \<open>
  C40: the debug endpoint. The routes of a node are registered without a panic, and a request
  for the topology is answered with status 405 when it is not a \<open>GET\<close>, and otherwise with
  status 200 and a JSON object: the node itself, under \<open>connected_peers\<close> the addresses of
  exactly the connected bidders and providers, each list under its own key and left out when
  it is empty, and the blocked peers. The access log has the status that was sent.
\<close>

theorem topology_endpoint:
  assumes "enumerates po (dom (topology_map PeerTypeProvider t))"
    and "enumerates bo (dom (topology_map PeerTypeBidder t'))"
  shows "\<exists>rs h. node_routes ext (handleTopology addrText durText self (GetPeers PeerTypeProvider po t)
        (GetPeers PeerTypeBidder bo t') blocked) bootnode gateway st = (Ok (), rs) \<and>
    rs ''/topology'' = Some h \<and>
    status_of (fst (accessLog h r)) = (if rq_Method r = ''GET'' then 200 else 405) \<and>
    al_status (snd (accessLog h r)) = status_of (fst (accessLog h r)) \<and>
    (rq_Method r = ''GET'' \<longrightarrow>
       (\<exists>ps bs. set ps = ran (topology_map PeerTypeProvider t) \<and>
          set bs = ran (topology_map PeerTypeBidder t') \<and>
          rw_body (fst (accessLog h r)) = json_Encode
            (JObj [(''self'', self),
              (''connected_peers'', JObj
                ((if bs = [] then [] else [(''bidders'', JArr (map (\<lambda>p. JStr (addrText (EthAddress p))) bs))]) @
                 (if ps = [] then [] else [(''providers'', JArr (map (\<lambda>p. JStr (addrText (EthAddress p))) ps))]))),
              (''blocked_peers'', if blocked = [] then JNull
                 else JArr (map (\<lambda>b. JObj [(''Peer'', JStr (addrText (bp_Peer b))),
                   (''Reason'', JStr (bp_Reason b)),
                   (''Duration'', JStr (case bp_Duration b of
                      Forever \<Rightarrow> ''Forever'' | Remaining d \<Rightarrow> durText d))]) blocked))]) @ [CHR 0x0A]))"
proof -
  let ?ps = "GetPeers PeerTypeProvider po t" and ?bs = "GetPeers PeerTypeBidder bo t'"
  let ?h = "MethodHandler ''GET'' (handleTopology addrText durText self ?ps ?bs blocked)"
  have "''/topology'' \<notin> set debug_paths" unfolding debug_paths_def by code_simp
  then have "\<exists>rs. node_routes ext (handleTopology addrText durText self ?ps ?bs blocked) bootnode
      gateway st = (Ok (), rs) \<and> rs ''/topology'' = Some ?h"
    by (simp add: node_routes_run)
  moreover have "status_of (fst (accessLog ?h r)) = (if rq_Method r = ''GET'' then 200 else 405)"
    "rq_Method r = ''GET'' \<Longrightarrow> rw_body (fst (accessLog ?h r)) =
       json_Encode (topology_response addrText durText self ?ps ?bs blocked) @ [CHR 0x0A]"
    by (simp_all add: accessLog_def status_of_respond body_respond MethodHandler_def handleTopology_def
        WriteResponse_def status_codes Let_def)
  moreover have "set ?ps = ran (topology_map PeerTypeProvider t)"
    "set ?bs = ran (topology_map PeerTypeBidder t')"
    using assms by (simp_all add: set_GetPeers)
  moreover note topology_logged [of "''GET''" addrText durText self ?ps ?bs blocked r]
  ultimately show ?thesis unfolding topology_response_text by blast
qed

theorem topology_endpoint_witness:
  "\<exists>h ps. set ps = {example_provider} \<and>
     rw_body (fst (accessLog h \<lparr> rq_Method = ''GET'', rq_Path = ''/topology'' \<rparr>)) = json_Encode
       (JObj [(''self'', JNull),
         (''connected_peers'', JObj [(''providers'', JArr (map (\<lambda>p. JStr ''0x02'') ps))]),
         (''blocked_peers'', JNull)]) @ [CHR 0x0A]"
proof -
  let ?t = "topology_add example_provider topology_New"
  have p: "enumerates [example_address 2] (dom (topology_map PeerTypeProvider ?t))"
    and b: "enumerates [] (dom (topology_map PeerTypeBidder ?t))"
    and r: "ran (topology_map PeerTypeProvider ?t) = {example_provider}"
      "ran (topology_map PeerTypeBidder ?t) = {}"
    by (auto simp: topology_add_def topology_New_def example_provider_def intro!: enumeratesI)
  from topology_endpoint [OF p b, where r = "\<lparr> rq_Method = ''GET'', rq_Path = ''/topology'' \<rparr>"
      and ext = "\<lambda>_ _. []" and addrText = "\<lambda>_. ''0x02''" and durText = "\<lambda>_. []" and self = JNull
      and blocked = "[]" and bootnode = True and gateway = "\<lambda>_. []" and st = "[]"]
  obtain h ps bs where h: "set ps = {example_provider}" "set bs = {}"
    "rw_body (fst (accessLog h \<lparr> rq_Method = ''GET'', rq_Path = ''/topology'' \<rparr>)) = json_Encode
       (JObj [(''self'', JNull),
         (''connected_peers'', JObj
           ((if bs = [] then [] else [(''bidders'', JArr (map (\<lambda>p. JStr ''0x02'') bs))]) @
            (if ps = [] then [] else [(''providers'', JArr (map (\<lambda>p. JStr ''0x02'') ps))]))),
         (''blocked_peers'', JNull)]) @ [CHR 0x0A]"
    unfolding r by auto
  from h(1) have "ps \<noteq> []" by auto
  with h show ?thesis by (intro exI [of _ h] exI [of _ ps]) simp
qed

end
